(* ===== verification/Prelude.thy ===== *)
theory Prelude
  imports Main "HOL-Library.Word" "HOL-Library.Signed_Division" "HOL-Library.Sublist"
begin

text \<open>
  Shared vocabulary of the development: the model of C++ values the components use.
  A \<open>std::string\<close> is a list of bytes, which is what HOL's \<open>string\<close> is; a
  \<open>std::optional\<close> or a nullable pointer is an \<open>option\<close>; a call that may throw
  returns a sum whose left side is the exception. The string functions are the operations of
  \<open>std::string\<close> the sources call (\<open>find\<close>, \<open>rfind\<close>, \<open>std::to_string\<close>), and
  \<open>ascii_lower\<close> is the project's own case folding.
\<close>

text \<open>
  Collections the components add to: \<open>plain_texts\<close> for texts that need no escaping in JSON,
  \<open>recorded\<close> for stages whose outcome and audit record agree.
\<close>

named_theorems plain_texts

named_theorems recorded

section \<open>Exceptions as values\<close>

text \<open>
  \<open>InvalidArgument\<close> is \<open>std::invalid_argument\<close> with its message,
  \<open>BadVariantAccess\<close> is \<open>std::bad_variant_access\<close>, and \<open>ForeignException\<close> stands
  for every other exception object that unwinds through the code: no handler in the sources looks
  inside it.
\<close>

datatype exn = InvalidArgument string | BadVariantAccess | ForeignException

type_synonym 'a throws = "exn + 'a"

text \<open>Sequencing: an exception skips the rest of the block.\<close>

fun and_then :: "'e + 'a \<Rightarrow> ('a \<Rightarrow> 'e + 'b) \<Rightarrow> 'e + 'b" where
  "and_then (Inl e) f = Inl e"
| "and_then (Inr x) f = f x"

definition no_throw :: "'a throws \<Rightarrow> bool" where
  "no_throw r \<longleftrightarrow> \<not> isl r"

lemma no_throw_simps [simp]: "no_throw (Inr x)" "\<not> no_throw (Inl e)"
  by (simp_all add: no_throw_def)

lemma no_throwE [elim]:
  assumes "no_throw r"
  obtains x where "r = Inr x"
  using assms by (cases r) auto

lemma and_then_eq_Inr:
  "and_then r f = Inr y \<longleftrightarrow> (\<exists>x. r = Inr x \<and> f x = Inr y)"
  by (cases r) auto

lemma and_then_eq_Inl:
  "and_then r f = Inl e \<longleftrightarrow> r = Inl e \<or> (\<exists>x. r = Inr x \<and> f x = Inl e)"
  by (cases r) auto

section \<open>Bytes\<close>

text \<open>
  The value of a byte. The sources compare \<open>char\<close> values with ASCII literals; whether
  \<open>char\<close> is signed does not matter to any of those tests, since a byte from 128 upwards is
  outside every tested range either way.
\<close>

abbreviation byte :: "char \<Rightarrow> nat" where
  "byte c \<equiv> of_char c"

definition is_upper :: "char \<Rightarrow> bool" where
  "is_upper c \<longleftrightarrow> 65 \<le> byte c \<and> byte c \<le> 90"

definition is_lower :: "char \<Rightarrow> bool" where
  "is_lower c \<longleftrightarrow> 97 \<le> byte c \<and> byte c \<le> 122"

definition is_digit :: "char \<Rightarrow> bool" where
  "is_digit c \<longleftrightarrow> 48 \<le> byte c \<and> byte c \<le> 57"

lemma byte_eq_iff: "byte c = byte d \<longleftrightarrow> c = d"
  by simp

lemma byte_char_of: "n < 256 \<Longrightarrow> byte (char_of n) = n"
  by (simp add: of_char_of)

section \<open>ASCII case folding\<close>

definition ascii_lower_char :: "char \<Rightarrow> char" where
  "ascii_lower_char c = (if is_upper c then char_of (byte c - 65 + 97) else c)"

definition ascii_lower :: "string \<Rightarrow> string" where
  "ascii_lower s = map ascii_lower_char s"

lemma byte_ascii_lower_char:
  "byte (ascii_lower_char c) = (if is_upper c then byte c + 32 else byte c)"
  by (auto simp: ascii_lower_char_def is_upper_def byte_char_of)

lemma not_upper_lower_char [simp]: "\<not> is_upper (ascii_lower_char c)"
  by (simp add: is_upper_def byte_ascii_lower_char)

lemma ascii_lower_char_id [simp]: "\<not> is_upper c \<Longrightarrow> ascii_lower_char c = c"
  by (simp add: ascii_lower_char_def)

lemma ascii_lower_Nil [simp]: "ascii_lower [] = []"
  and ascii_lower_Cons [simp]: "ascii_lower (c # s) = ascii_lower_char c # ascii_lower s"
  by (simp_all add: ascii_lower_def)

lemma ascii_lower_idem [simp]: "ascii_lower (ascii_lower s) = ascii_lower s"
  by (induction s) simp_all

lemma length_ascii_lower [simp]: "length (ascii_lower s) = length s"
  by (simp add: ascii_lower_def)

lemma ascii_lower_append [simp]: "ascii_lower (s @ t) = ascii_lower s @ ascii_lower t"
  by (simp add: ascii_lower_def)

text \<open>Folding never creates or removes a dot, so it commutes with splitting at one.\<close>

lemma ascii_lower_char_dot [simp]: "ascii_lower_char c = CHR ''.'' \<longleftrightarrow> c = CHR ''.''"
proof
  assume "ascii_lower_char c = CHR ''.''"
  then have "byte (ascii_lower_char c) = byte (CHR ''.'')" by simp
  then have "byte c = byte (CHR ''.'')"
    by (simp add: byte_ascii_lower_char is_upper_def split: if_splits)
  then show "c = CHR ''.''" by (simp only: byte_eq_iff)
next
  assume "c = CHR ''.''"
  then show "ascii_lower_char c = CHR ''.''" by (simp add: ascii_lower_char_def is_upper_def)
qed

lemma dot_ascii_lower_char [simp]: "CHR ''.'' = ascii_lower_char c \<longleftrightarrow> c = CHR ''.''"
  using ascii_lower_char_dot[of c] by (simp add: eq_commute)

lemma dot_in_ascii_lower [simp]: "CHR ''.'' \<in> set (ascii_lower s) \<longleftrightarrow> CHR ''.'' \<in> set s"
  by (induction s) auto

section \<open>Searching in strings\<close>

text \<open>\<open>s.find(c)\<close> and \<open>s.rfind(c)\<close>; \<open>None\<close> is \<open>npos\<close>.\<close>

fun str_find :: "char \<Rightarrow> string \<Rightarrow> nat option" where
  "str_find c [] = None"
| "str_find c (x # xs) = (if x = c then Some 0 else map_option Suc (str_find c xs))"

fun str_rfind :: "char \<Rightarrow> string \<Rightarrow> nat option" where
  "str_rfind c [] = None"
| "str_rfind c (x # xs) =
     (case str_rfind c xs of Some i \<Rightarrow> Some (Suc i) | None \<Rightarrow> if x = c then Some 0 else None)"

lemma str_find_notin [simp]: "c \<notin> set s \<Longrightarrow> str_find c s = None"
  by (induction s) auto

lemma str_rfind_notin [simp]: "c \<notin> set s \<Longrightarrow> str_rfind c s = None"
  by (induction s) auto

lemma str_find_first:
  "c \<notin> set xs \<Longrightarrow> str_find c (xs @ c # ys) = Some (length xs)"
  by (induction xs) auto

lemma str_rfind_last:
  "c \<notin> set ys \<Longrightarrow> str_rfind c (xs @ c # ys) = Some (length xs)"
  by (induction xs) auto

section \<open>Lists of pointers\<close>

text \<open>The loops over a vector of pointers that skip the null ones.\<close>

fun non_null :: "'a option list \<Rightarrow> 'a list" where
  "non_null [] = []"
| "non_null (None # xs) = non_null xs"
| "non_null (Some x # xs) = x # non_null xs"

lemma set_non_null: "set (non_null xs) = {x. Some x \<in> set xs}"
  by (induction xs rule: non_null.induct) auto

lemma length_non_null: "length (non_null xs) \<le> length xs"
  by (induction xs rule: non_null.induct) simp_all

section \<open>Decimal text\<close>

text \<open>\<open>std::to_string\<close> of an integer, and the digits it is made of.\<close>

definition digit_char :: "nat \<Rightarrow> char" where
  "digit_char d = char_of (48 + d)"

fun string_of_nat :: "nat \<Rightarrow> string" where
  "string_of_nat n =
     (if n < 10 then [digit_char n] else string_of_nat (n div 10) @ [digit_char (n mod 10)])"

declare string_of_nat.simps [simp del]

definition string_of_int :: "int \<Rightarrow> string" where
  "string_of_int i = (if i < 0 then CHR ''-'' # string_of_nat (nat (- i)) else string_of_nat (nat i))"

lemma byte_digit_char: "d < 10 \<Longrightarrow> byte (digit_char d) = 48 + d"
  by (simp add: digit_char_def byte_char_of)

lemma is_digit_digit_char [simp]: "d < 10 \<Longrightarrow> is_digit (digit_char d)"
  by (simp add: is_digit_def byte_digit_char)

lemma digit_char_simps [simp]:
  "digit_char 0 = CHR ''0''" "digit_char (Suc 0) = CHR ''1''" "digit_char 1 = CHR ''1''"
  "digit_char 2 = CHR ''2''" "digit_char 3 = CHR ''3''" "digit_char 4 = CHR ''4''"
  "digit_char 5 = CHR ''5''" "digit_char 6 = CHR ''6''" "digit_char 7 = CHR ''7''"
  "digit_char 8 = CHR ''8''" "digit_char 9 = CHR ''9''"
  by code_simp+

lemma string_of_nat_digits: "\<forall>c \<in> set (string_of_nat n). is_digit c"
proof (induction n rule: string_of_nat.induct)
  case (1 n)
  then show ?case by (subst string_of_nat.simps) auto
qed

lemma string_of_nat_nonempty [simp]: "string_of_nat n \<noteq> []"
  by (subst string_of_nat.simps) simp

text \<open>The value of a run of digits, most significant first.\<close>

definition digits_value :: "string \<Rightarrow> nat" where
  "digits_value ds = foldl (\<lambda>n c. 10 * n + (byte c - 48)) 0 ds"

lemma digits_value_snoc: "digits_value (ds @ [c]) = 10 * digits_value ds + (byte c - 48)"
  by (simp add: digits_value_def)

lemma digits_value_string_of_nat [simp]: "digits_value (string_of_nat n) = n"
proof (induction n rule: string_of_nat.induct)
  case (1 n)
  show ?case
  proof (cases "n < 10")
    case True
    then show ?thesis by (simp add: string_of_nat.simps[of n] digits_value_def byte_digit_char)
  next
    case False
    with 1 show ?thesis by (simp add: string_of_nat.simps[of n] digits_value_snoc byte_digit_char)
  qed
qed

lemma string_of_nat_inj: "string_of_nat m = string_of_nat n \<longleftrightarrow> m = n"
  by (metis digits_value_string_of_nat)

text \<open>
  \<open>std::from_chars\<close> for \<open>int\<close> in base 10: an optional minus sign and digits, no
  white space and no plus sign. The result is the error code, the unread rest and the value;
  \<open>parsed\<close> keeps its initial 0 on an error.
\<close>

datatype errc = ErrcNone | ErrcInvalidArgument | ErrcResultOutOfRange

definition from_chars_int :: "string \<Rightarrow> errc \<times> string \<times> int" where
  "from_chars_int s =
     (let neg = (s \<noteq> [] \<and> hd s = CHR ''-'');
          body = (if neg then tl s else s);
          ds = takeWhile is_digit body;
          rest = dropWhile is_digit body;
          v = (if neg then - int (digits_value ds) else int (digits_value ds))
      in if ds = [] then (ErrcInvalidArgument, s, 0)
         else if v < - (2 ^ 31) \<or> v \<ge> 2 ^ 31 then (ErrcResultOutOfRange, rest, 0)
         else (ErrcNone, rest, v))"

text \<open>The whole of a string is a decimal \<open>int\<close>.\<close>

definition decimal_int :: "string \<Rightarrow> int option" where
  "decimal_int s = (case from_chars_int s of (ec, rest, v) \<Rightarrow> if ec = ErrcNone \<and> rest = [] then Some v else None)"

lemma minus_not_digit [simp]: "\<not> is_digit (CHR ''-'')"
  by (simp add: is_digit_def)

lemma dropWhile_digits_Nil: "dropWhile is_digit s = [] \<longleftrightarrow> (\<forall>c \<in> set s. is_digit c)"
  by (rule dropWhile_eq_Nil_conv)

lemma takeWhile_digits_all: "\<forall>c \<in> set s. is_digit c \<Longrightarrow> takeWhile is_digit s = s"
  by (simp add: takeWhile_eq_all_conv)

lemma decimal_int_nonneg:
  "decimal_int s = Some v \<and> 0 < v \<longleftrightarrow>
     s \<noteq> [] \<and> (\<forall>c \<in> set s. is_digit c) \<and> v = int (digits_value s) \<and> 0 < v \<and> v < 2 ^ 31"
proof (cases "s \<noteq> [] \<and> hd s = CHR ''-''")
  case True
  then have "\<not> (\<forall>c \<in> set s. is_digit c)" by (metis hd_in_set minus_not_digit)
  moreover have "\<not> (decimal_int s = Some v \<and> 0 < v)"
    using True by (auto simp: decimal_int_def from_chars_int_def Let_def split: if_splits)
  ultimately show ?thesis by blast
next
  case False
  show ?thesis
  proof (cases "\<forall>c \<in> set s. is_digit c")
    case True
    with False show ?thesis
      by (auto simp: decimal_int_def from_chars_int_def Let_def takeWhile_digits_all dropWhile_digits_Nil)
  next
    case not_all: False
    then have "dropWhile is_digit s \<noteq> []" by (simp add: dropWhile_digits_Nil)
    with False not_all show ?thesis
      by (auto simp: decimal_int_def from_chars_int_def Let_def split: if_splits)
  qed
qed

section \<open>Counters\<close>

text \<open>A counter of a machine word repeats itself only after going through all values.\<close>

lemma counter_distinct:
  "distinct (map (\<lambda>k. (w :: 'a :: len word) + of_nat k) [0..<n]) \<longleftrightarrow> n \<le> 2 ^ LENGTH('a)"
proof -
  have "inj_on (\<lambda>k. w + of_nat k) {0..<n} \<longleftrightarrow> n \<le> 2 ^ LENGTH('a)"
  proof
    assume inj: "inj_on (\<lambda>k. w + of_nat k) {0..<n}"
    show "n \<le> 2 ^ LENGTH('a)"
    proof (rule ccontr)
      assume "\<not> n \<le> 2 ^ LENGTH('a)"
      moreover have "w + of_nat (2 ^ LENGTH('a)) = w + of_nat 0" by simp
      ultimately show False using inj_onD[OF inj, of "2 ^ LENGTH('a)" 0] by simp
    qed
  next
    assume "n \<le> 2 ^ LENGTH('a)"
    then show "inj_on (\<lambda>k. w + of_nat k) {0..<n}"
      by (auto intro!: inj_onI simp: word_of_nat_eq_iff take_bit_nat_eq_self)
  qed
  then show ?thesis by (simp add: distinct_map)
qed

end
