(* ===== verification/Sql_Analysis.thy ===== *)
theory Sql_Analysis
  imports Prelude
begin

text \<open>
  The parser-independent analysis model, \<open>src/src/core/sql_analysis.h\<close> and
  \<open>sql_analysis.cpp\<close>. Enumerators carry a prefix where C++ scopes them
  (\<open>StatementType::Select\<close> is \<open>StSelect\<close>), and the fields of \<open>SqlAnalysis\<close> carry
  the prefix \<open>an_\<close>.
\<close>

datatype StatementType =
  StSelect | StInsert | StUpdate | StDelete | StCreate | StAlter | StDrop | StUnknown

datatype StatementClass = ClsSelect | ClsDml | ClsDdl | ClsUnknown

fun statement_class_of :: "StatementType \<Rightarrow> StatementClass" where
  "statement_class_of StSelect = ClsSelect"
| "statement_class_of StInsert = ClsDml"
| "statement_class_of StUpdate = ClsDml"
| "statement_class_of StDelete = ClsDml"
| "statement_class_of StCreate = ClsDdl"
| "statement_class_of StAlter = ClsDdl"
| "statement_class_of StDrop = ClsDdl"
| "statement_class_of StUnknown = ClsUnknown"

fun StatementType_to_string :: "StatementType \<Rightarrow> string" where
  "StatementType_to_string StSelect = ''SELECT''"
| "StatementType_to_string StInsert = ''INSERT''"
| "StatementType_to_string StUpdate = ''UPDATE''"
| "StatementType_to_string StDelete = ''DELETE''"
| "StatementType_to_string StCreate = ''CREATE''"
| "StatementType_to_string StAlter = ''ALTER''"
| "StatementType_to_string StDrop = ''DROP''"
| "StatementType_to_string StUnknown = ''UNKNOWN''"

fun StatementClass_to_string :: "StatementClass \<Rightarrow> string" where
  "StatementClass_to_string ClsSelect = ''SELECT''"
| "StatementClass_to_string ClsDml = ''DML''"
| "StatementClass_to_string ClsDdl = ''DDL''"
| "StatementClass_to_string ClsUnknown = ''UNKNOWN''"

datatype InsertSource = SrcNone | SrcValues | SrcSelect

datatype InsertValueKind =
  KindUnsupported | PositiveIntegerLiteral | PositiveDecimalLiteral | NonPositiveNumericLiteral

datatype AnalysisStatus = AnOk | AnEmptyInput | AnParseError | AnMultipleStatements

record SqlAnalysis =
  an_status :: AnalysisStatus
  an_statement_type :: StatementType
  an_statement_class :: StatementClass
  an_statement_count :: int
  an_tables :: "string list"
  an_projection_columns :: "string list"
  an_has_wildcard_projection :: bool
  an_has_computed_projection :: bool
  an_has_safe_count_star_projection :: bool
  an_has_group_by :: bool
  an_affected_columns :: "string list"
  an_insert_source :: InsertSource
  an_insert_value_kinds :: "InsertValueKind list"
  an_unsupported_features :: "string list"
  an_error_reason :: string

text \<open>A default-constructed \<open>SqlAnalysis\<close>: every member initializer of the struct.\<close>

definition default_SqlAnalysis :: SqlAnalysis where
  "default_SqlAnalysis =
     \<lparr>an_status = AnParseError, an_statement_type = StUnknown, an_statement_class = ClsUnknown,
      an_statement_count = 0, an_tables = [], an_projection_columns = [],
      an_has_wildcard_projection = False, an_has_computed_projection = False,
      an_has_safe_count_star_projection = False, an_has_group_by = False,
      an_affected_columns = [], an_insert_source = SrcNone, an_insert_value_kinds = [],
      an_unsupported_features = [], an_error_reason = []\<rparr>"

lemma statement_class_of_Select [simp]: "statement_class_of t = ClsSelect \<longleftrightarrow> t = StSelect"
  by (cases t) auto

lemma statement_class_of_Dml:
  "statement_class_of t = ClsDml \<longleftrightarrow> t \<in> {StInsert, StUpdate, StDelete}"
  by (cases t) auto

end
