(* ===== verification/Ports.thy ===== *)
theory Ports
  imports Sql_Analysis
begin

text \<open>
  The data that crosses the ports of the core: \<open>src/src/ports/sql_parser.h\<close> (what a parser
  adapter reports of one statement) and \<open>src/src/ports/query_executor.h\<close> (what an executor
  adapter reports of one execution), and the two contracts those headers state in prose, as
  locales. A parser is a function from SQL text; an executor is a function of the database it
  talks to, whose type is left open. Field prefixes: \<open>tr_\<close>, \<open>ps_\<close>, \<open>pr_\<close>,
  \<open>ci_\<close>, \<open>ex_\<close>.
\<close>

section \<open>The parser port\<close>

record TableRef =
  tr_schema :: string
  tr_name :: string

record ParsedStatement =
  ps_type :: StatementType
  ps_tables :: "TableRef list"
  ps_projection_columns :: "string list"
  ps_has_wildcard_projection :: bool
  ps_has_computed_projection :: bool
  ps_has_safe_count_star_projection :: bool
  ps_has_group_by :: bool
  ps_affected_columns :: "string list"
  ps_insert_source :: InsertSource
  ps_insert_value_kinds :: "InsertValueKind list"
  ps_unsupported_features :: "string list"

definition default_ParsedStatement :: ParsedStatement where
  "default_ParsedStatement =
     \<lparr>ps_type = StUnknown, ps_tables = [], ps_projection_columns = [],
      ps_has_wildcard_projection = False, ps_has_computed_projection = False,
      ps_has_safe_count_star_projection = False, ps_has_group_by = False,
      ps_affected_columns = [], ps_insert_source = SrcNone, ps_insert_value_kinds = [],
      ps_unsupported_features = []\<rparr>"

lemma default_ParsedStatement_simps [simp]:
  "ps_type default_ParsedStatement = StUnknown" "ps_tables default_ParsedStatement = []"
  "ps_projection_columns default_ParsedStatement = []"
  "\<not> ps_has_wildcard_projection default_ParsedStatement"
  "\<not> ps_has_computed_projection default_ParsedStatement"
  "\<not> ps_has_safe_count_star_projection default_ParsedStatement"
  "\<not> ps_has_group_by default_ParsedStatement" "ps_affected_columns default_ParsedStatement = []"
  "ps_insert_source default_ParsedStatement = SrcNone"
  "ps_insert_value_kinds default_ParsedStatement = []"
  "ps_unsupported_features default_ParsedStatement = []"
  by (simp_all add: default_ParsedStatement_def)

record ParseResult =
  pr_success :: bool
  pr_statements :: "ParsedStatement list"
  pr_error :: string

type_synonym parser = "string \<Rightarrow> ParseResult throws"

text \<open>
  The fields marked ``SELECT only'', ``INSERT/UPDATE only'' and ``INSERT only'' in the header are
  empty for every other statement type, and value kinds come with a VALUES source.
\<close>

definition well_formed_parsed :: "ParsedStatement \<Rightarrow> bool" where
  "well_formed_parsed p \<longleftrightarrow>
     (ps_type p \<noteq> StSelect \<longrightarrow> ps_projection_columns p = [] \<and> \<not> ps_has_wildcard_projection p \<and>
        \<not> ps_has_computed_projection p \<and> \<not> ps_has_safe_count_star_projection p \<and>
        \<not> ps_has_group_by p) \<and>
     (ps_type p \<notin> {StInsert, StUpdate} \<longrightarrow> ps_affected_columns p = []) \<and>
     (ps_type p = StInsert \<longleftrightarrow> ps_insert_source p \<noteq> SrcNone) \<and>
     (ps_insert_source p \<noteq> SrcValues \<longrightarrow> ps_insert_value_kinds p = [])"

text \<open>The contract of \<open>ISqlParser::parse\<close>: no exception escapes, and every reported
  statement is well formed.\<close>

locale sql_parser_port =
  fixes parse :: parser
  assumes parse_no_throw: "no_throw (parse sql)"
    and parse_well_formed:
      "parse sql = Inr r \<Longrightarrow> statement \<in> set (pr_statements r) \<Longrightarrow> well_formed_parsed statement"

section \<open>The executor port\<close>

datatype ColumnType =
  CtText | CtInteger | CtFloat | CtNumeric | CtBoolean | CtTimestamp | CtDate | CtOther

record ColumnInfo =
  ci_name :: string
  ci_type :: ColumnType

datatype ExecutionStatus = ExOk | ExConnectionFailure | ExExecutionFailure

text \<open>A cell is \<open>None\<close> for SQL NULL; \<open>Some []\<close> is the empty string.\<close>

type_synonym cell = "string option"

record ExecutionResult =
  ex_status :: ExecutionStatus
  ex_error :: string
  ex_has_result_set :: bool
  ex_columns :: "ColumnInfo list"
  ex_rows :: "cell list list"
  ex_row_count :: int
  ex_affected_rows :: int

definition default_ExecutionResult :: ExecutionResult where
  "default_ExecutionResult =
     \<lparr>ex_status = ExExecutionFailure, ex_error = [], ex_has_result_set = False,
      ex_columns = [], ex_rows = [], ex_row_count = 0, ex_affected_rows = 0\<rparr>"

type_synonym 'db executor = "'db \<Rightarrow> string \<Rightarrow> ExecutionResult throws \<times> 'db"

text \<open>Every row has one cell per column, and the counts are those of a real result.\<close>

definition rectangular :: "ExecutionResult \<Rightarrow> bool" where
  "rectangular r \<longleftrightarrow> (\<forall>row \<in> set (ex_rows r). length row = length (ex_columns r))"

text \<open>
  The contract of \<open>IQueryExecutor::execute\<close>: no exception escapes, a failure carries no
  result set, and a success is rectangular with non-negative counts.
\<close>

locale query_executor_port =
  fixes execute :: "'db executor"
  assumes execute_no_throw: "no_throw (fst (execute db sql))"
    and execute_failure_empty:
      "fst (execute db sql) = Inr r \<Longrightarrow> ex_status r \<noteq> ExOk \<Longrightarrow> ex_columns r = [] \<and> ex_rows r = []"
    and execute_ok_rectangular:
      "fst (execute db sql) = Inr r \<Longrightarrow> ex_status r = ExOk \<Longrightarrow>
         rectangular r \<and> 0 \<le> ex_row_count r \<and> 0 \<le> ex_affected_rows r"

end
