(* ===== verification/Sql_Analyzer.thy ===== *)
theory Sql_Analyzer
  imports Ports
begin

text \<open>
  \<open>SqlAnalyzer\<close>, \<open>src/src/core/sql_analyzer.cpp\<close>: from the parser's report to the
  analysis the policy decides on. The injected parser is the argument \<open>parse\<close>.
\<close>

section \<open>Definitions\<close>

definition is_blank :: "string \<Rightarrow> bool" where
  "is_blank sql \<longleftrightarrow>
     list_all (\<lambda>c. c \<in> set [CHR '' '', CHR 0x09, CHR 0x0A, CHR 0x0D, CHR 0x0C, CHR 0x0B]) sql"

definition qualified_name :: "TableRef \<Rightarrow> string" where
  "qualified_name table =
     (if tr_schema table = [] then tr_name table else tr_schema table @ ''.'' @ tr_name table)"

text \<open>The loop of \<open>normalized_tables\<close>, with the vector built so far.\<close>

fun normalized_tables_loop :: "string list \<Rightarrow> TableRef list \<Rightarrow> string list" where
  "normalized_tables_loop result [] = result"
| "normalized_tables_loop result (table # rest) =
     (let name = qualified_name table
      in if name \<notin> set result then normalized_tables_loop (result @ [name]) rest
         else normalized_tables_loop result rest)"

definition normalized_tables :: "TableRef list \<Rightarrow> string list" where
  "normalized_tables tables = normalized_tables_loop [] tables"

text \<open>\<open>static_cast<int>\<close> of a \<open>size_t\<close>: the low 32 bits, read in two's complement.\<close>

definition size_to_int :: "nat \<Rightarrow> int" where
  "size_to_int n = sint (of_nat n :: 32 word)"

text \<open>The constructor refuses a null parser.\<close>

definition SqlAnalyzer :: "parser option \<Rightarrow> parser throws" where
  "SqlAnalyzer parser =
     (case parser of
        None \<Rightarrow> Inl (InvalidArgument ''SqlAnalyzer requires a non-null ISqlParser'')
      | Some p \<Rightarrow> Inr p)"

definition analyze :: "parser \<Rightarrow> string \<Rightarrow> SqlAnalysis throws" where
  "analyze parse sql =
     (let analysis = default_SqlAnalysis in
      if is_blank sql then Inr (analysis\<lparr>an_status := AnEmptyInput\<rparr>)
      else and_then (parse sql) (\<lambda>parsed.
        let analysis = analysis\<lparr>an_statement_count := size_to_int (length (pr_statements parsed))\<rparr> in
        if \<not> pr_success parsed then
          Inr (analysis\<lparr>an_status := AnParseError,
                 an_error_reason := if pr_error parsed = [] then ''parser reported failure''
                                    else pr_error parsed\<rparr>)
        else
          (case pr_statements parsed of
             [] \<Rightarrow> Inr (analysis\<lparr>an_status := AnParseError,
                     an_error_reason := ''parser returned success with no statements''\<rparr>)
           | statement # rest \<Rightarrow>
               if rest \<noteq> [] then Inr (analysis\<lparr>an_status := AnMultipleStatements\<rparr>)
               else Inr (analysis\<lparr>
                 an_status := AnOk,
                 an_statement_type := ps_type statement,
                 an_statement_class := statement_class_of (ps_type statement),
                 an_tables := normalized_tables (ps_tables statement),
                 an_projection_columns := ps_projection_columns statement,
                 an_has_wildcard_projection := ps_has_wildcard_projection statement,
                 an_has_computed_projection := ps_has_computed_projection statement,
                 an_has_safe_count_star_projection := ps_has_safe_count_star_projection statement,
                 an_has_group_by := ps_has_group_by statement,
                 an_affected_columns := ps_affected_columns statement,
                 an_insert_source := ps_insert_source statement,
                 an_insert_value_kinds := ps_insert_value_kinds statement,
                 an_unsupported_features := ps_unsupported_features statement\<rparr>))))"

section \<open>Lemmas\<close>

lemma size_to_int_small: "n < 2 ^ 31 \<Longrightarrow> size_to_int n = int n"
  by (simp add: size_to_int_def signed_of_nat signed_take_bit_int_eq_self)

text \<open>
  What the table list is: the qualified names at the positions whose name has not occurred
  before, in order.
\<close>

definition first_occurrences :: "'a list \<Rightarrow> 'a list" where
  "first_occurrences xs = map (\<lambda>i. xs ! i) (filter (\<lambda>i. xs ! i \<notin> set (take i xs)) [0..<length xs])"

lemma first_occurrences_Nil [simp]: "first_occurrences [] = []"
  by (simp add: first_occurrences_def)

lemma first_occurrences_snoc:
  "first_occurrences (xs @ [x]) =
     (if x \<in> set xs then first_occurrences xs else first_occurrences xs @ [x])"
proof -
  have f: "filter (\<lambda>i. (xs @ [x]) ! i \<notin> set (take i (xs @ [x]))) [0..<length xs] =
        filter (\<lambda>i. xs ! i \<notin> set (take i xs)) [0..<length xs]"
    by (rule filter_cong) (auto simp: nth_append)
  have m: "map (\<lambda>i. (xs @ [x]) ! i) (filter (\<lambda>i. xs ! i \<notin> set (take i xs)) [0..<length xs]) =
        map (\<lambda>i. xs ! i) (filter (\<lambda>i. xs ! i \<notin> set (take i xs)) [0..<length xs])"
    by (rule map_cong) (auto simp: nth_append)
  have t: "take (length xs) (xs @ [x]) = xs" by simp
  show ?thesis by (simp add: first_occurrences_def f m t del: take_append)
qed

lemma set_first_occurrences [simp]: "set (first_occurrences xs) = set xs"
  by (induction xs rule: rev_induct) (auto simp: first_occurrences_snoc)

lemma distinct_first_occurrences [simp]: "distinct (first_occurrences xs)"
  by (induction xs rule: rev_induct) (auto simp: first_occurrences_snoc)

lemma normalized_tables_loop_eq:
  "normalized_tables_loop (first_occurrences xs) ts = first_occurrences (xs @ map qualified_name ts)"
proof (induction ts arbitrary: xs)
  case (Cons t ts)
  show ?case
    using Cons.IH[of "xs @ [qualified_name t]"] by (simp add: Let_def first_occurrences_snoc split: if_splits)
qed simp

lemma normalized_tables_eq: "normalized_tables ts = first_occurrences (map qualified_name ts)"
  using normalized_tables_loop_eq[of "[]" ts] by (simp add: normalized_tables_def)

text \<open>The status decides which fields carry information.\<close>

lemma analyze_blank: "is_blank sql \<Longrightarrow> analyze p sql = Inr (default_SqlAnalysis\<lparr>an_status := AnEmptyInput\<rparr>)"
  by (simp add: analyze_def)

definition consistent_analysis :: "SqlAnalysis \<Rightarrow> bool" where
  "consistent_analysis a \<longleftrightarrow>
     an_statement_class a = statement_class_of (an_statement_type a) \<and>
     distinct (an_tables a) \<and>
     (an_status a = AnOk \<longrightarrow> an_statement_count a = 1) \<and>
     (an_status a \<noteq> AnOk \<longrightarrow>
        a = default_SqlAnalysis\<lparr>an_status := an_status a, an_statement_count := an_statement_count a,
              an_error_reason := an_error_reason a\<rparr>)"

lemma size_to_int_1 [simp]: "size_to_int (Suc 0) = 1"
  by (simp add: size_to_int_small)

lemma analyze_consistent: "analyze p sql = Inr a \<Longrightarrow> consistent_analysis a"
  by (auto simp: analyze_def Let_def and_then_eq_Inr consistent_analysis_def default_SqlAnalysis_def
        normalized_tables_eq split: if_splits list.splits)

text \<open>
  Under the parser's contract the analysis never throws, and the fields that belong to one kind
  of statement are empty for the others.
\<close>

context sql_parser_port
begin

lemma analyze_total: "no_throw (analyze parse sql)"
proof -
  obtain r where "parse sql = Inr r" using parse_no_throw by blast
  then show ?thesis by (simp add: analyze_def Let_def split: list.split)
qed

lemma analyze_kind_fields:
  assumes "analyze parse sql = Inr a"
  shows "an_statement_type a \<noteq> StSelect \<Longrightarrow> an_projection_columns a = []"
    and "an_statement_type a \<noteq> StInsert \<Longrightarrow> an_insert_source a = SrcNone"
    and "an_insert_source a \<noteq> SrcValues \<Longrightarrow> an_insert_value_kinds a = []"
  using assms parse_well_formed[of sql]
  by (auto simp: analyze_def Let_def and_then_eq_Inr default_SqlAnalysis_def well_formed_parsed_def
      split: if_splits list.splits)

end

section \<open>Property\<close>

text \<open>
  The table list of an analysis: the qualified names of the references in order of first
  occurrence, each exactly once and none missing, although the loop searches only what it has
  collected so far.
\<close>

theorem normalized_tables_spec:
  "normalized_tables ts = first_occurrences (map qualified_name ts) \<and>
   distinct (normalized_tables ts) \<and> set (normalized_tables ts) = qualified_name ` set ts"
  by (simp add: normalized_tables_eq)

end
