(* ===== verification/Hyrise_Adapter.thy ===== *)
theory Hyrise_Adapter
  imports Sql_Analyzer
begin

text \<open>
  \<open>HyriseSqlParser\<close>, \<open>src/src/parser/hyrise_sql_parser.cpp\<close>: the translation of a
  parsed statement into the port's \<open>ParsedStatement\<close>. The SQL parser itself is a library:
  it is the argument \<open>hsql_parse\<close>, which either throws (\<open>None\<close>) or yields a result.
  The datatypes below are the view the adapter has of the library's nodes: exactly the fields the
  adapter reads, each nullable pointer an \<open>option\<close>, and one constructor for all the type tags
  the adapter does not distinguish. A floating-point literal is of an open type; the only thing
  the adapter asks of it, the comparison with zero, is the argument \<open>fpos\<close>.
\<close>

section \<open>The adapter's view of the syntax tree\<close>

datatype ExprType =
  kExprFunctionRef | kExprStar | kExprColumnRef | kExprLiteralInt | kExprLiteralFloat | kExprOther

datatype 'f Expr = Expr
  (ex_type: ExprType)
  (ex_name: "string option")
  (ex_table: "string option")
  (ex_distinct: bool)
  (ex_has_window: bool)
  (ex_exprList: "'f Expr option list option")
  (ex_ival: int)
  (ex_fval: 'f)

datatype TableRefType = kTableName | kTableSelect | kTableJoin | kTableCrossProduct

text \<open>\<open>join\<close> holds the left and right operand; \<open>list\<close> the operands of a product.\<close>

datatype HTableRef = HTableRef
  (ht_type: TableRefType)
  (ht_schema: "string option")
  (ht_name: "string option")
  (ht_join: "(HTableRef option \<times> HTableRef option) option")
  (ht_list: "HTableRef option list option")

record 'f SelectStatement =
  sel_fromTable :: "HTableRef option"
  sel_selectList :: "'f Expr option list option"
  sel_has_groupBy :: bool
  sel_withDescriptions :: "nat option"
  sel_setOperations :: "nat option"

datatype InsertType = kInsertValues | kInsertSelect

record 'f InsertStatement =
  ins_type :: InsertType
  ins_schema :: "string option"
  ins_tableName :: "string option"
  ins_columns :: "string option list option"
  ins_values :: "'f Expr option list option"

record UpdateStatement =
  upd_table :: "HTableRef option"
  upd_updates :: "string option option list option"

record DeleteStatement =
  del_schema :: "string option"
  del_tableName :: "string option"

record CreateStatement =
  cre_is_table :: bool
  cre_schema :: "string option"
  cre_tableName :: "string option"

record DropStatement =
  drp_is_table :: bool
  drp_schema :: "string option"
  drp_name :: "string option"

record AlterStatement =
  alt_schema :: "string option"
  alt_name :: "string option"

datatype 'f SQLStatement =
  kStmtSelect "'f SelectStatement"
| kStmtInsert "'f InsertStatement"
| kStmtUpdate UpdateStatement
| kStmtDelete DeleteStatement
| kStmtCreate CreateStatement
| kStmtDrop DropStatement
| kStmtAlter AlterStatement
| kStmtOther

record 'f SQLParserResult =
  spr_isValid :: bool
  spr_errorLine :: int
  spr_errorColumn :: int
  spr_statements :: "'f SQLStatement option list"

section \<open>Translation\<close>

definition copy_or_empty :: "string option \<Rightarrow> string" where
  "copy_or_empty s = (case s of None \<Rightarrow> [] | Some t \<Rightarrow> t)"

definition is_count_star :: "'f Expr \<Rightarrow> bool" where
  "is_count_star e =
     (if ex_type e \<noteq> kExprFunctionRef then False
      else if ascii_lower (copy_or_empty (ex_name e)) \<noteq> ''count'' then False
      else if ex_distinct e \<or> ex_has_window e then False
      else
        (case ex_exprList e of
           None \<Rightarrow> False
         | Some args \<Rightarrow>
             if length args \<noteq> 1 then False
             else (case hd args of None \<Rightarrow> False | Some argument \<Rightarrow> ex_type argument = kExprStar)))"

definition push_table :: "string option \<Rightarrow> string option \<Rightarrow> ParsedStatement \<Rightarrow> ParsedStatement" where
  "push_table schema name out =
     out\<lparr>ps_tables := ps_tables out @ [\<lparr>tr_schema = copy_or_empty schema, tr_name = copy_or_empty name\<rparr>]\<rparr>"

definition push_note :: "string \<Rightarrow> ParsedStatement \<Rightarrow> ParsedStatement" where
  "push_note note out = out\<lparr>ps_unsupported_features := ps_unsupported_features out @ [note]\<rparr>"

definition push_affected :: "string option \<Rightarrow> ParsedStatement \<Rightarrow> ParsedStatement" where
  "push_affected column out =
     out\<lparr>ps_affected_columns := ps_affected_columns out @ [copy_or_empty column]\<rparr>"

definition kNoteInsertWithoutColumns :: string where
  "kNoteInsertWithoutColumns = ''INSERT without column list''"

definition kNoteFromSubquery :: string where
  "kNoteFromSubquery = ''subquery in FROM''"

definition kNoteWithCte :: string where
  "kNoteWithCte = ''WITH/CTE''"

definition kNoteSetOperation :: string where
  "kNoteSetOperation = ''set operation (UNION/INTERSECT/EXCEPT)''"

definition kNoteNonTableCreate :: string where
  "kNoteNonTableCreate = ''non-table CREATE''"

definition kNoteNonTableDrop :: string where
  "kNoteNonTableDrop = ''non-table DROP''"

fun collect_tables :: "HTableRef option \<Rightarrow> ParsedStatement \<Rightarrow> ParsedStatement"
  and collect_tables_list :: "HTableRef option list \<Rightarrow> ParsedStatement \<Rightarrow> ParsedStatement" where
  "collect_tables None out = out"
| "collect_tables (Some (HTableRef type schema name join list)) out =
     (case type of
        kTableName \<Rightarrow> push_table schema name out
      | kTableJoin \<Rightarrow>
          (case join of
             None \<Rightarrow> out
           | Some (left, right) \<Rightarrow> collect_tables right (collect_tables left out))
      | kTableCrossProduct \<Rightarrow>
          (case list of None \<Rightarrow> out | Some children \<Rightarrow> collect_tables_list children out)
      | kTableSelect \<Rightarrow> push_note kNoteFromSubquery out)"
| "collect_tables_list [] out = out"
| "collect_tables_list (child # rest) out = collect_tables_list rest (collect_tables child out)"

definition classify_projection_entry :: "'f Expr \<Rightarrow> ParsedStatement \<Rightarrow> ParsedStatement" where
  "classify_projection_entry e out =
     (if ex_type e = kExprStar then out\<lparr>ps_has_wildcard_projection := True\<rparr>
      else if ex_type e = kExprColumnRef then
        let column = (case ex_table e of None \<Rightarrow> [] | Some t \<Rightarrow> t @ ''.'') @ copy_or_empty (ex_name e)
        in out\<lparr>ps_projection_columns := ps_projection_columns out @ [column]\<rparr>
      else if is_count_star e then out\<lparr>ps_has_safe_count_star_projection := True\<rparr>
      else out\<lparr>ps_has_computed_projection := True\<rparr>)"

fun classify_projection_loop :: "'f Expr option list \<Rightarrow> ParsedStatement \<Rightarrow> ParsedStatement" where
  "classify_projection_loop [] out = out"
| "classify_projection_loop (None # rest) out = classify_projection_loop rest out"
| "classify_projection_loop (Some e # rest) out =
     classify_projection_loop rest (classify_projection_entry e out)"

definition classify_projection :: "'f Expr option list option \<Rightarrow> ParsedStatement \<Rightarrow> ParsedStatement" where
  "classify_projection select_list out =
     (case select_list of None \<Rightarrow> out | Some es \<Rightarrow> classify_projection_loop es out)"

definition translate_select :: "'f SelectStatement \<Rightarrow> ParsedStatement \<Rightarrow> ParsedStatement" where
  "translate_select stmt out =
     (let out = out\<lparr>ps_type := StSelect\<rparr>;
          out = collect_tables (sel_fromTable stmt) out;
          out = classify_projection (sel_selectList stmt) out;
          out = out\<lparr>ps_has_group_by := sel_has_groupBy stmt\<rparr>;
          out = (case sel_withDescriptions stmt of
                   None \<Rightarrow> out | Some n \<Rightarrow> if n \<noteq> 0 then push_note kNoteWithCte out else out)
      in case sel_setOperations stmt of
           None \<Rightarrow> out | Some n \<Rightarrow> if n \<noteq> 0 then push_note kNoteSetOperation out else out)"

definition classify_insert_value :: "('f \<Rightarrow> bool) \<Rightarrow> 'f Expr \<Rightarrow> InsertValueKind" where
  "classify_insert_value fpos e =
     (case ex_type e of
        kExprLiteralInt \<Rightarrow> if ex_ival e > 0 then PositiveIntegerLiteral else NonPositiveNumericLiteral
      | kExprLiteralFloat \<Rightarrow> if fpos (ex_fval e) then PositiveDecimalLiteral else NonPositiveNumericLiteral
      | _ \<Rightarrow> KindUnsupported)"

definition translate_insert ::
  "('f \<Rightarrow> bool) \<Rightarrow> 'f InsertStatement \<Rightarrow> ParsedStatement \<Rightarrow> ParsedStatement" where
  "translate_insert fpos stmt out =
     (let out = out\<lparr>ps_type := StInsert\<rparr>;
          out = push_table (ins_schema stmt) (ins_tableName stmt) out;
          out = (case ins_columns stmt of
                   Some columns \<Rightarrow> fold push_affected columns out
                 | None \<Rightarrow> push_note kNoteInsertWithoutColumns out);
          out = out\<lparr>ps_insert_source := (if ins_type stmt = kInsertSelect then SrcSelect else SrcValues)\<rparr>
      in if ps_insert_source out = SrcValues then
           (case ins_values stmt of
              None \<Rightarrow> out
            | Some values \<Rightarrow>
                out\<lparr>ps_insert_value_kinds := ps_insert_value_kinds out @
                  map (\<lambda>v. case v of None \<Rightarrow> KindUnsupported | Some e \<Rightarrow> classify_insert_value fpos e) values\<rparr>)
         else out)"

definition translate_update :: "UpdateStatement \<Rightarrow> ParsedStatement \<Rightarrow> ParsedStatement" where
  "translate_update stmt out =
     (let out = out\<lparr>ps_type := StUpdate\<rparr>;
          out = collect_tables (upd_table stmt) out
      in case upd_updates stmt of
           None \<Rightarrow> out
         | Some clauses \<Rightarrow>
             fold (\<lambda>clause out. case clause of None \<Rightarrow> out | Some column \<Rightarrow> push_affected column out)
               clauses out)"

definition translate_delete :: "DeleteStatement \<Rightarrow> ParsedStatement \<Rightarrow> ParsedStatement" where
  "translate_delete stmt out =
     push_table (del_schema stmt) (del_tableName stmt) (out\<lparr>ps_type := StDelete\<rparr>)"

definition translate_create :: "CreateStatement \<Rightarrow> ParsedStatement \<Rightarrow> ParsedStatement" where
  "translate_create stmt out =
     (let out = out\<lparr>ps_type := StCreate\<rparr>;
          out = (if cre_tableName stmt \<noteq> None then push_table (cre_schema stmt) (cre_tableName stmt) out else out)
      in if \<not> cre_is_table stmt then push_note kNoteNonTableCreate out else out)"

definition translate_drop :: "DropStatement \<Rightarrow> ParsedStatement \<Rightarrow> ParsedStatement" where
  "translate_drop stmt out =
     (let out = out\<lparr>ps_type := StDrop\<rparr>;
          out = (if drp_name stmt \<noteq> None then push_table (drp_schema stmt) (drp_name stmt) out else out)
      in if \<not> drp_is_table stmt then push_note kNoteNonTableDrop out else out)"

definition translate_alter :: "AlterStatement \<Rightarrow> ParsedStatement \<Rightarrow> ParsedStatement" where
  "translate_alter stmt out =
     (let out = out\<lparr>ps_type := StAlter\<rparr>
      in if alt_name stmt \<noteq> None then push_table (alt_schema stmt) (alt_name stmt) out else out)"

fun translate_statement :: "('f \<Rightarrow> bool) \<Rightarrow> 'f SQLStatement \<Rightarrow> ParsedStatement" where
  "translate_statement fpos (kStmtSelect stmt) = translate_select stmt default_ParsedStatement"
| "translate_statement fpos (kStmtInsert stmt) = translate_insert fpos stmt default_ParsedStatement"
| "translate_statement fpos (kStmtUpdate stmt) = translate_update stmt default_ParsedStatement"
| "translate_statement fpos (kStmtDelete stmt) = translate_delete stmt default_ParsedStatement"
| "translate_statement fpos (kStmtCreate stmt) = translate_create stmt default_ParsedStatement"
| "translate_statement fpos (kStmtDrop stmt) = translate_drop stmt default_ParsedStatement"
| "translate_statement fpos (kStmtAlter stmt) = translate_alter stmt default_ParsedStatement"
| "translate_statement fpos kStmtOther = default_ParsedStatement\<lparr>ps_type := StUnknown\<rparr>"

definition sanitized_error :: "'f SQLParserResult \<Rightarrow> string" where
  "sanitized_error result =
     ''syntax error'' @
     (if spr_errorLine result \<ge> 0 then
        '' at line '' @ string_of_int (spr_errorLine result + 1) @
        '', column '' @ string_of_int (spr_errorColumn result + 1)
      else [])"

definition hyrise_parse ::
  "('f \<Rightarrow> bool) \<Rightarrow> (string \<Rightarrow> 'f SQLParserResult option) \<Rightarrow> parser" where
  "hyrise_parse fpos hsql_parse sql =
     (case hsql_parse sql of
        None \<Rightarrow> Inr \<lparr>pr_success = False, pr_statements = [], pr_error = ''parser failure''\<rparr>
      | Some result \<Rightarrow>
          if \<not> spr_isValid result then
            Inr \<lparr>pr_success = False, pr_statements = [], pr_error = sanitized_error result\<rparr>
          else
            Inr \<lparr>pr_success = True,
                 pr_statements = map (translate_statement fpos) (non_null (spr_statements result)),
                 pr_error = []\<rparr>)"

section \<open>Lemmas\<close>

subsection \<open>Tables\<close>

text \<open>The leaves of a FROM clause, left to right, and the number of subqueries in it.\<close>

fun from_tables :: "HTableRef option \<Rightarrow> TableRef list"
  and from_tables_list :: "HTableRef option list \<Rightarrow> TableRef list" where
  "from_tables None = []"
| "from_tables (Some (HTableRef type schema name join list)) =
     (case type of
        kTableName \<Rightarrow> [\<lparr>tr_schema = copy_or_empty schema, tr_name = copy_or_empty name\<rparr>]
      | kTableJoin \<Rightarrow>
          (case join of None \<Rightarrow> [] | Some (left, right) \<Rightarrow> from_tables left @ from_tables right)
      | kTableCrossProduct \<Rightarrow> (case list of None \<Rightarrow> [] | Some children \<Rightarrow> from_tables_list children)
      | kTableSelect \<Rightarrow> [])"
| "from_tables_list [] = []"
| "from_tables_list (child # rest) = from_tables child @ from_tables_list rest"

fun from_subqueries :: "HTableRef option \<Rightarrow> nat"
  and from_subqueries_list :: "HTableRef option list \<Rightarrow> nat" where
  "from_subqueries None = 0"
| "from_subqueries (Some (HTableRef type schema name join list)) =
     (case type of
        kTableName \<Rightarrow> 0
      | kTableJoin \<Rightarrow>
          (case join of None \<Rightarrow> 0 | Some (left, right) \<Rightarrow> from_subqueries left + from_subqueries right)
      | kTableCrossProduct \<Rightarrow> (case list of None \<Rightarrow> 0 | Some children \<Rightarrow> from_subqueries_list children)
      | kTableSelect \<Rightarrow> 1)"
| "from_subqueries_list [] = 0"
| "from_subqueries_list (child # rest) = from_subqueries child + from_subqueries_list rest"

definition extend_tables :: "TableRef list \<Rightarrow> nat \<Rightarrow> ParsedStatement \<Rightarrow> ParsedStatement" where
  "extend_tables ts n out =
     out\<lparr>ps_tables := ps_tables out @ ts,
         ps_unsupported_features := ps_unsupported_features out @ replicate n kNoteFromSubquery\<rparr>"

lemma extend_tables_simps [simp]:
  "extend_tables [] 0 out = out"
  "extend_tables ts' n' (extend_tables ts n out) = extend_tables (ts @ ts') (n + n') out"
  by (simp_all add: extend_tables_def replicate_add)

lemma collect_tables_eq:
  "collect_tables r out = extend_tables (from_tables r) (from_subqueries r) out"
  "collect_tables_list rs out = extend_tables (from_tables_list rs) (from_subqueries_list rs) out"
proof (induction r out and rs out rule: collect_tables_collect_tables_list.induct)
  case (2 type schema name join list out)
  then show ?case
    by (cases type) (auto simp: push_table_def push_note_def extend_tables_def replicate_add
        split: option.split)
qed simp_all

subsection \<open>Projections\<close>

definition column_text :: "'f Expr \<Rightarrow> string" where
  "column_text e = (case ex_table e of None \<Rightarrow> [] | Some t \<Rightarrow> t @ ''.'') @ copy_or_empty (ex_name e)"

lemma is_count_star_iff:
  "is_count_star e \<longleftrightarrow>
     ex_type e = kExprFunctionRef \<and> ascii_lower (copy_or_empty (ex_name e)) = ''count'' \<and>
     \<not> ex_distinct e \<and> \<not> ex_has_window e \<and>
     (\<exists>x. ex_exprList e = Some [Some x] \<and> ex_type x = kExprStar)"
  by (auto simp: is_count_star_def length_Suc_conv split: option.splits)

text \<open>The projection entries of a list, sorted into the four arms.\<close>

definition plain_columns :: "'f Expr list \<Rightarrow> 'f Expr list" where
  "plain_columns es = filter (\<lambda>e. ex_type e = kExprColumnRef) es"

definition is_computed :: "'f Expr \<Rightarrow> bool" where
  "is_computed e \<longleftrightarrow> ex_type e \<notin> {kExprStar, kExprColumnRef} \<and> \<not> is_count_star e"

lemma not_count_star [simp]: "ex_type e \<noteq> kExprFunctionRef \<Longrightarrow> \<not> is_count_star e"
  by (simp add: is_count_star_def)

lemma is_count_star_type: "is_count_star e \<Longrightarrow> ex_type e = kExprFunctionRef"
  by (simp add: is_count_star_iff)

definition add_entries :: "'f Expr list \<Rightarrow> ParsedStatement \<Rightarrow> ParsedStatement" where
  "add_entries xs out =
     out\<lparr>ps_has_wildcard_projection := ps_has_wildcard_projection out \<or> (\<exists>e \<in> set xs. ex_type e = kExprStar),
         ps_projection_columns := ps_projection_columns out @ map column_text (plain_columns xs),
         ps_has_safe_count_star_projection :=
           ps_has_safe_count_star_projection out \<or> (\<exists>e \<in> set xs. is_count_star e),
         ps_has_computed_projection := ps_has_computed_projection out \<or> (\<exists>e \<in> set xs. is_computed e)\<rparr>"

lemma add_entries_append:
  "add_entries [] out = out"
  "add_entries ys (add_entries xs out) = add_entries (xs @ ys) out"
  by (simp_all add: add_entries_def plain_columns_def bex_Un disj_assoc)

lemma classify_projection_entry_eq: "classify_projection_entry e out = add_entries [e] out"
proof -
  consider (star) "ex_type e = kExprStar" | (column) "ex_type e = kExprColumnRef"
    | (count) "is_count_star e" | (computed) "is_computed e"
    by (auto simp: is_computed_def)
  then show ?thesis
    by cases (auto dest: is_count_star_type simp: classify_projection_entry_def add_entries_def
        plain_columns_def is_computed_def column_text_def)
qed

lemma classify_projection_loop_eq:
  "classify_projection_loop es out = add_entries (non_null es) out"
  by (induction es out rule: classify_projection_loop.induct)
    (simp_all add: add_entries_append classify_projection_entry_eq)

text \<open>The entries of a select list that are there.\<close>

definition select_entries :: "'f SelectStatement \<Rightarrow> 'f Expr list" where
  "select_entries stmt = (case sel_selectList stmt of None \<Rightarrow> [] | Some es \<Rightarrow> non_null es)"

definition has_items :: "nat option \<Rightarrow> bool" where
  "has_items n \<longleftrightarrow> n \<noteq> None \<and> n \<noteq> Some 0"

lemma translate_select_eq:
  "translate_select stmt default_ParsedStatement =
     default_ParsedStatement\<lparr>
       ps_type := StSelect,
       ps_tables := from_tables (sel_fromTable stmt),
       ps_projection_columns := map column_text (plain_columns (select_entries stmt)),
       ps_has_wildcard_projection := (\<exists>e \<in> set (select_entries stmt). ex_type e = kExprStar),
       ps_has_computed_projection := (\<exists>e \<in> set (select_entries stmt). is_computed e),
       ps_has_safe_count_star_projection := (\<exists>e \<in> set (select_entries stmt). is_count_star e),
       ps_has_group_by := sel_has_groupBy stmt,
       ps_unsupported_features :=
         replicate (from_subqueries (sel_fromTable stmt)) kNoteFromSubquery @
         (if has_items (sel_withDescriptions stmt) then [kNoteWithCte] else []) @
         (if has_items (sel_setOperations stmt) then [kNoteSetOperation] else [])\<rparr>"
  by (cases "sel_selectList stmt"; cases "sel_withDescriptions stmt"; cases "sel_setOperations stmt")
    (simp_all add: translate_select_def Let_def collect_tables_eq extend_tables_def
      classify_projection_def classify_projection_loop_eq add_entries_def select_entries_def
      default_ParsedStatement_def push_note_def has_items_def plain_columns_def)

subsection \<open>Inserts\<close>

lemma fold_push_affected:
  "fold push_affected cs out = out\<lparr>ps_affected_columns := ps_affected_columns out @ map copy_or_empty cs\<rparr>"
  by (induction cs arbitrary: out) (simp_all add: push_affected_def)

definition insert_value_kind :: "('f \<Rightarrow> bool) \<Rightarrow> 'f Expr option \<Rightarrow> InsertValueKind" where
  "insert_value_kind fpos v = (case v of None \<Rightarrow> KindUnsupported | Some e \<Rightarrow> classify_insert_value fpos e)"

lemma translate_insert_eq:
  "translate_insert fpos stmt default_ParsedStatement =
     default_ParsedStatement\<lparr>
       ps_type := StInsert,
       ps_tables := [\<lparr>tr_schema = copy_or_empty (ins_schema stmt), tr_name = copy_or_empty (ins_tableName stmt)\<rparr>],
       ps_affected_columns := (case ins_columns stmt of None \<Rightarrow> [] | Some cs \<Rightarrow> map copy_or_empty cs),
       ps_insert_source := (case ins_type stmt of kInsertSelect \<Rightarrow> SrcSelect | kInsertValues \<Rightarrow> SrcValues),
       ps_insert_value_kinds :=
         (case ins_type stmt of
            kInsertSelect \<Rightarrow> []
          | kInsertValues \<Rightarrow>
              (case ins_values stmt of None \<Rightarrow> [] | Some vs \<Rightarrow> map (insert_value_kind fpos) vs)),
       ps_unsupported_features :=
         (if ins_columns stmt = None then [kNoteInsertWithoutColumns] else [])\<rparr>"
  by (cases "ins_type stmt")
    (simp_all add: translate_insert_def Let_def push_table_def push_note_def fold_push_affected
      default_ParsedStatement_def insert_value_kind_def[abs_def] split: option.split)

subsection \<open>The port contract\<close>

lemma fold_push_update:
  "\<exists>cs. fold (\<lambda>clause out. case clause of None \<Rightarrow> out | Some column \<Rightarrow> push_affected column out) clauses out =
     out\<lparr>ps_affected_columns := ps_affected_columns out @ cs\<rparr>"
proof (induction clauses arbitrary: out)
  case Nil
  show ?case by (intro exI[of _ "[]"]) simp
next
  case (Cons c cs)
  show ?case
  proof (cases c)
    case None
    then show ?thesis using Cons.IH[of out] by simp
  next
    case (Some col)
    then show ?thesis using Cons.IH[of "push_affected col out"] by (auto simp: push_affected_def)
  qed
qed

lemma translate_update_eq:
  "\<exists>cs. translate_update stmt default_ParsedStatement =
     default_ParsedStatement\<lparr>ps_type := StUpdate, ps_tables := from_tables (upd_table stmt),
       ps_unsupported_features := replicate (from_subqueries (upd_table stmt)) kNoteFromSubquery,
       ps_affected_columns := cs\<rparr>"
proof (cases "upd_updates stmt")
  case (Some clauses)
  then show ?thesis
    using fold_push_update[of clauses "collect_tables (upd_table stmt) (default_ParsedStatement\<lparr>ps_type := StUpdate\<rparr>)"]
    by (auto simp: translate_update_def Let_def collect_tables_eq extend_tables_def default_ParsedStatement_def)
qed (auto simp: translate_update_def Let_def collect_tables_eq extend_tables_def default_ParsedStatement_def)

lemma translate_statement_well_formed: "well_formed_parsed (translate_statement fpos stmt)"
proof (cases stmt)
  case (kStmtSelect s)
  then show ?thesis by (simp add: translate_select_eq well_formed_parsed_def)
next
  case (kStmtInsert s)
  then show ?thesis
    by (cases "ins_type s") (simp_all add: translate_insert_eq well_formed_parsed_def)
next
  case (kStmtUpdate s)
  then show ?thesis
    using translate_update_eq[of s] by (auto simp: well_formed_parsed_def)
qed (simp_all add: translate_delete_def translate_create_def translate_drop_def translate_alter_def
      Let_def push_table_def push_note_def well_formed_parsed_def)

interpretation hyrise: sql_parser_port "hyrise_parse fpos hsql_parse" for fpos hsql_parse
proof unfold_locales
  show "no_throw (hyrise_parse fpos hsql_parse sql)" for sql
    by (simp add: hyrise_parse_def split: option.split)
  show "well_formed_parsed statement"
    if "hyrise_parse fpos hsql_parse sql = Inr r" "statement \<in> set (pr_statements r)" for sql r statement
    using that translate_statement_well_formed
    by (auto simp: hyrise_parse_def split: option.splits if_splits)
qed

end
