(* ===== verification/Policy_Engine.thy ===== *)
theory Policy_Engine
  imports Sql_Analyzer
begin

text \<open>
  \<open>PolicyEngine\<close>, \<open>src/src/core/policy_engine.cpp\<close>: the one authorization decision.
  After the definitions come the declarative reading of the rules (what is allowed), the
  table of rules R1 to R11 with first-match semantics, and the contract other components use.
\<close>

section \<open>Definitions\<close>

datatype RejectReason =
  RrNotEvaluated | RrNone | RrEmptyInput | RrUnparseableSql | RrMultipleStatements
| RrUnsupportedStatementType | RrUnsupportedSqlFeature | RrDdlNotAllowed | RrDmlNotAllowed
| RrSystemTableAccess | RrUnattributableProjection | RrInsertTargetNotAllowed
| RrUnsupportedInsertShape

fun RejectReason_to_string :: "RejectReason \<Rightarrow> string" where
  "RejectReason_to_string RrNotEvaluated = ''NOT_EVALUATED''"
| "RejectReason_to_string RrNone = ''NONE''"
| "RejectReason_to_string RrEmptyInput = ''EMPTY_INPUT''"
| "RejectReason_to_string RrUnparseableSql = ''UNPARSEABLE_SQL''"
| "RejectReason_to_string RrMultipleStatements = ''MULTIPLE_STATEMENTS''"
| "RejectReason_to_string RrUnsupportedStatementType = ''UNSUPPORTED_STATEMENT_TYPE''"
| "RejectReason_to_string RrUnsupportedSqlFeature = ''UNSUPPORTED_SQL_FEATURE''"
| "RejectReason_to_string RrDdlNotAllowed = ''DDL_NOT_ALLOWED''"
| "RejectReason_to_string RrDmlNotAllowed = ''DML_NOT_ALLOWED''"
| "RejectReason_to_string RrSystemTableAccess = ''SYSTEM_TABLE_ACCESS''"
| "RejectReason_to_string RrUnattributableProjection = ''UNATTRIBUTABLE_PROJECTION''"
| "RejectReason_to_string RrInsertTargetNotAllowed = ''INSERT_TARGET_NOT_ALLOWED''"
| "RejectReason_to_string RrUnsupportedInsertShape = ''UNSUPPORTED_INSERT_SHAPE''"

record PolicyDecision =
  pd_allowed :: bool
  pd_reason :: RejectReason

definition default_PolicyDecision :: PolicyDecision where
  "default_PolicyDecision = \<lparr>pd_allowed = False, pd_reason = RrNotEvaluated\<rparr>"

definition is_system_table :: "string \<Rightarrow> bool" where
  "is_system_table table_entry =
     (let lowered = ascii_lower table_entry;
          dot = str_find (CHR ''.'') lowered;
          schema = (case dot of None \<Rightarrow> [] | Some i \<Rightarrow> take i lowered);
          table = (case dot of None \<Rightarrow> lowered | Some i \<Rightarrow> drop (i + 1) lowered)
      in if schema = ''pg_catalog'' \<or> schema = ''information_schema'' then True
         else prefix ''pg_'' table)"

definition kInsertTargetTable :: string where
  "kInsertTargetTable = ''orders''"

definition is_allowed_order_insert :: "SqlAnalysis \<Rightarrow> bool" where
  "is_allowed_order_insert analysis \<longleftrightarrow>
     an_unsupported_features analysis = []
     \<and> an_insert_source analysis = SrcValues
     \<and> length (an_affected_columns analysis) = 2
     \<and> an_affected_columns analysis ! 0 = ''customer_id''
     \<and> an_affected_columns analysis ! 1 = ''amount''
     \<and> length (an_insert_value_kinds analysis) = 2
     \<and> an_insert_value_kinds analysis ! 0 = PositiveIntegerLiteral
     \<and> (an_insert_value_kinds analysis ! 1 = PositiveIntegerLiteral \<or>
        an_insert_value_kinds analysis ! 1 = PositiveDecimalLiteral)"

definition targets_insert_table :: "SqlAnalysis \<Rightarrow> bool" where
  "targets_insert_table analysis \<longleftrightarrow>
     length (an_tables analysis) = 1 \<and> an_tables analysis ! 0 = kInsertTargetTable"

definition reject :: "RejectReason \<Rightarrow> PolicyDecision" where
  "reject reason = default_PolicyDecision\<lparr>pd_allowed := False, pd_reason := reason\<rparr>"

definition allow :: PolicyDecision where
  "allow = default_PolicyDecision\<lparr>pd_allowed := True, pd_reason := RrNone\<rparr>"

text \<open>R8 to R11, the part of \<open>evaluate\<close> a SELECT falls through to.\<close>

definition evaluate_select :: "SqlAnalysis \<Rightarrow> PolicyDecision" where
  "evaluate_select analysis =
     (if an_unsupported_features analysis \<noteq> [] then reject RrUnsupportedSqlFeature
      else if list_ex is_system_table (an_tables analysis) then reject RrSystemTableAccess
      else if an_has_wildcard_projection analysis \<and> an_projection_columns analysis \<noteq> []
        then reject RrUnattributableProjection
      else allow)"

definition evaluate :: "SqlAnalysis \<Rightarrow> PolicyDecision" where
  "evaluate analysis =
     (case an_status analysis of
        AnEmptyInput \<Rightarrow> reject RrEmptyInput
      | AnParseError \<Rightarrow> reject RrUnparseableSql
      | AnMultipleStatements \<Rightarrow> reject RrMultipleStatements
      | AnOk \<Rightarrow>
          if an_statement_count analysis \<noteq> 1 then reject RrMultipleStatements
          else
            (case an_statement_class analysis of
               ClsUnknown \<Rightarrow> reject RrUnsupportedStatementType
             | ClsDdl \<Rightarrow> reject RrDdlNotAllowed
             | ClsDml \<Rightarrow>
                 if an_statement_type analysis \<noteq> StInsert then reject RrDmlNotAllowed
                 else if \<not> targets_insert_table analysis then reject RrInsertTargetNotAllowed
                 else if \<not> is_allowed_order_insert analysis then reject RrUnsupportedInsertShape
                 else allow
             | ClsSelect \<Rightarrow> evaluate_select analysis))"

section \<open>Lemmas\<close>

lemma decision_simps [simp]:
  "pd_allowed (reject r) = False" "pd_reason (reject r) = r"
  "pd_allowed allow = True" "pd_reason allow = RrNone"
  "reject r = reject s \<longleftrightarrow> r = s" "reject r \<noteq> allow" "allow \<noteq> reject r"
  by (auto simp: reject_def allow_def default_PolicyDecision_def)

lemma length_2_nth: "length xs = 2 \<and> xs ! 0 = a \<and> xs ! 1 = b \<longleftrightarrow> xs = [a, b]"
  by (auto simp: length_Suc_conv numeral_2_eq_2)

lemma targets_insert_table_iff: "targets_insert_table a \<longleftrightarrow> an_tables a = [''orders'']"
  by (auto simp: targets_insert_table_def kInsertTargetTable_def length_Suc_conv)

text \<open>The one authorized write, written as the shape it is.\<close>

definition order_insert_shape :: "SqlAnalysis \<Rightarrow> bool" where
  "order_insert_shape a \<longleftrightarrow>
     an_unsupported_features a = [] \<and> an_insert_source a = SrcValues \<and>
     an_affected_columns a = [''customer_id'', ''amount''] \<and>
     (\<exists>k. an_insert_value_kinds a = [PositiveIntegerLiteral, k] \<and>
          k \<in> {PositiveIntegerLiteral, PositiveDecimalLiteral})"

lemma is_allowed_order_insert_iff: "is_allowed_order_insert a \<longleftrightarrow> order_insert_shape a"
proof -
  have "is_allowed_order_insert a \<longleftrightarrow>
      an_unsupported_features a = [] \<and> an_insert_source a = SrcValues \<and>
      (length (an_affected_columns a) = 2 \<and> an_affected_columns a ! 0 = ''customer_id'' \<and>
         an_affected_columns a ! 1 = ''amount'') \<and>
      (\<exists>k \<in> {PositiveIntegerLiteral, PositiveDecimalLiteral}.
         length (an_insert_value_kinds a) = 2 \<and> an_insert_value_kinds a ! 0 = PositiveIntegerLiteral \<and>
         an_insert_value_kinds a ! 1 = k)"
    unfolding is_allowed_order_insert_def by auto
  then show ?thesis
    unfolding length_2_nth order_insert_shape_def by auto
qed

text \<open>What R9 denies, for the two forms the analyzer emits.\<close>

lemma is_system_table_unqualified:
  "CHR ''.'' \<notin> set t \<Longrightarrow> is_system_table t \<longleftrightarrow> prefix ''pg_'' (ascii_lower t)"
  by (simp add: is_system_table_def)

lemma is_system_table_qualified:
  assumes "CHR ''.'' \<notin> set s"
  shows "is_system_table (s @ ''.'' @ t) \<longleftrightarrow>
    ascii_lower s \<in> {''pg_catalog'', ''information_schema''} \<or> prefix ''pg_'' (ascii_lower t)"
proof -
  have dot: "ascii_lower_char (CHR ''.'') = CHR ''.''" by simp
  have "str_find (CHR ''.'') (ascii_lower s @ CHR ''.'' # ascii_lower t) = Some (length s)"
    using assms str_find_first[of "CHR ''.''" "ascii_lower s"] by simp
  then show ?thesis by (auto simp: is_system_table_def dot Let_def)
qed

lemma is_system_table_case:
  "ascii_lower t = ascii_lower u \<Longrightarrow> is_system_table t = is_system_table u"
  by (simp add: is_system_table_def)

lemmas evaluate_splits =
  AnalysisStatus.splits StatementClass.splits if_splits

lemma evaluate_select_cases:
  "evaluate_select a = allow \<or> (\<exists>r. evaluate_select a = reject r \<and>
     r \<in> {RrUnsupportedSqlFeature, RrSystemTableAccess, RrUnattributableProjection})"
  by (simp add: evaluate_select_def)

text \<open>The declarative reading of \<open>evaluate\<close>: the two authorized shapes.\<close>

definition authorized_select :: "SqlAnalysis \<Rightarrow> bool" where
  "authorized_select a \<longleftrightarrow>
     an_statement_class a = ClsSelect \<and> an_unsupported_features a = [] \<and>
     (\<forall>t \<in> set (an_tables a). \<not> is_system_table t) \<and>
     \<not> (an_has_wildcard_projection a \<and> an_projection_columns a \<noteq> [])"

definition authorized_insert :: "SqlAnalysis \<Rightarrow> bool" where
  "authorized_insert a \<longleftrightarrow>
     an_statement_class a = ClsDml \<and> an_statement_type a = StInsert \<and>
     an_tables a = [''orders''] \<and> order_insert_shape a"

lemma evaluate_select_allowed:
  "pd_allowed (evaluate_select a) \<longleftrightarrow>
     an_unsupported_features a = [] \<and> (\<forall>t \<in> set (an_tables a). \<not> is_system_table t) \<and>
     \<not> (an_has_wildcard_projection a \<and> an_projection_columns a \<noteq> [])"
  by (auto simp: evaluate_select_def list_ex_iff)

lemma evaluate_allowed_iff:
  "pd_allowed (evaluate a) \<longleftrightarrow>
     an_status a = AnOk \<and> an_statement_count a = 1 \<and> (authorized_select a \<or> authorized_insert a)"
  by (auto simp: evaluate_def evaluate_select_allowed authorized_select_def authorized_insert_def
        targets_insert_table_iff is_allowed_order_insert_iff split: AnalysisStatus.split StatementClass.split)

lemma evaluate_reason:
  "pd_reason (evaluate a) \<noteq> RrNotEvaluated"
  "pd_allowed (evaluate a) \<longleftrightarrow> pd_reason (evaluate a) = RrNone"
  using evaluate_select_cases[of a]
  by (auto simp: evaluate_def split: AnalysisStatus.split StatementClass.split)

lemma evaluate_unparseable:
  "pd_reason (evaluate a) = RrUnparseableSql \<longleftrightarrow> an_status a = AnParseError"
  using evaluate_select_cases[of a]
  by (auto simp: evaluate_def split: AnalysisStatus.split StatementClass.split)

lemma evaluate_empty:
  "pd_reason (evaluate a) = RrEmptyInput \<longleftrightarrow> an_status a = AnEmptyInput"
  using evaluate_select_cases[of a]
  by (auto simp: evaluate_def split: AnalysisStatus.split StatementClass.split)

section \<open>First-match semantics\<close>

text \<open>
  The rule table of the header comment: the first rule whose condition holds decides, and R11
  allows what no rule caught.
\<close>

type_synonym rule = "(SqlAnalysis \<Rightarrow> bool) \<times> PolicyDecision"

fun first_match :: "rule list \<Rightarrow> PolicyDecision \<Rightarrow> SqlAnalysis \<Rightarrow> PolicyDecision" where
  "first_match [] d a = d"
| "first_match ((cond, dec) # rules) d a = (if cond a then dec else first_match rules d a)"

definition policy_rules :: "rule list" where
  "policy_rules =
     [(\<lambda>a. an_status a = AnEmptyInput, reject RrEmptyInput),
      (\<lambda>a. an_status a = AnParseError, reject RrUnparseableSql),
      (\<lambda>a. an_status a = AnMultipleStatements, reject RrMultipleStatements),
      (\<lambda>a. an_statement_count a \<noteq> 1, reject RrMultipleStatements),
      (\<lambda>a. an_statement_class a = ClsUnknown, reject RrUnsupportedStatementType),
      (\<lambda>a. an_statement_class a = ClsDdl, reject RrDdlNotAllowed),
      (\<lambda>a. an_statement_class a = ClsDml \<and> an_statement_type a \<noteq> StInsert, reject RrDmlNotAllowed),
      (\<lambda>a. an_statement_class a = ClsDml \<and> an_tables a \<noteq> [''orders''], reject RrInsertTargetNotAllowed),
      (\<lambda>a. an_statement_class a = ClsDml \<and> \<not> order_insert_shape a, reject RrUnsupportedInsertShape),
      (\<lambda>a. an_statement_class a = ClsDml, allow),
      (\<lambda>a. an_unsupported_features a \<noteq> [], reject RrUnsupportedSqlFeature),
      (\<lambda>a. \<exists>t \<in> set (an_tables a). is_system_table t, reject RrSystemTableAccess),
      (\<lambda>a. an_has_wildcard_projection a \<and> an_projection_columns a \<noteq> [],
         reject RrUnattributableProjection)]"

text \<open>
  C22. The code's nested conditions are the documented rule table: the decision is that of the
  first rule of R1 to R10 whose condition holds, and allow when none does.
\<close>

theorem evaluate_rule_table: "evaluate a = first_match policy_rules allow a"
  by (cases "an_status a"; cases "an_statement_class a")
    (simp_all add: policy_rules_def evaluate_def evaluate_select_def targets_insert_table_iff
      is_allowed_order_insert_iff list_ex_iff)

section \<open>The contract of the decision\<close>

text \<open>
  What the orchestrator relies on: a decision is finished, carries a reason exactly when it
  denies, and allows only one fully analyzed statement of an authorized shape.
\<close>

locale policy_contract =
  fixes decide :: "SqlAnalysis \<Rightarrow> PolicyDecision"
  assumes decide_finished: "pd_reason (decide a) \<noteq> RrNotEvaluated"
    and decide_reason: "pd_allowed (decide a) \<longleftrightarrow> pd_reason (decide a) = RrNone"
    and decide_single: "pd_allowed (decide a) \<Longrightarrow> an_status a = AnOk \<and> an_statement_count a = 1"
    and decide_shape: "pd_allowed (decide a) \<Longrightarrow> authorized_select a \<or> authorized_insert a"
    and decide_unparseable: "pd_reason (decide a) = RrUnparseableSql \<longleftrightarrow> an_status a = AnParseError"
begin

lemma allowed_statement_type:
  assumes "pd_allowed (decide a)" and "consistent_analysis a"
  shows "an_statement_type a = StSelect \<and> authorized_select a \<or>
         an_statement_type a = StInsert \<and> authorized_insert a"
  using decide_shape[OF assms(1)] assms(2)
  by (auto simp: authorized_select_def authorized_insert_def consistent_analysis_def)

lemma denied_reason:
  assumes "\<not> pd_allowed (decide a)" and "an_status a \<noteq> AnParseError"
  shows "pd_reason (decide a) \<notin> {RrNone, RrNotEvaluated, RrUnparseableSql}"
  using assms decide_finished[of a] decide_reason[of a] decide_unparseable[of a] by auto

end

interpretation engine: policy_contract evaluate
  by unfold_locales
    (use evaluate_reason evaluate_unparseable evaluate_allowed_iff in blast)+

section \<open>Properties\<close>

text \<open>
  What the policy allows and how it reports: a statement is allowed exactly when it was
  analyzed as one statement and is a SELECT free of unsupported features, system tables and mixed
  projections, or the INSERT of two positive literals into orders; an allowed decision carries the
  reason NONE, a denial carries a real one, and no decision is left unevaluated.
\<close>

theorem evaluate_allows_exactly:
  "(pd_allowed (evaluate a) \<longleftrightarrow>
      an_status a = AnOk \<and> an_statement_count a = 1 \<and> (authorized_select a \<or> authorized_insert a)) \<and>
   (pd_allowed (evaluate a) \<longleftrightarrow> pd_reason (evaluate a) = RrNone) \<and>
   pd_reason (evaluate a) \<noteq> RrNotEvaluated"
  using evaluate_allowed_iff[of a] evaluate_reason[of a] by blast

text \<open>
  The system-table rule on the names the analyzer emits: for a table reference whose schema
  has no dot (and whose name has none when there is no schema), the entry is a system table exactly
  when the schema is pg_catalog or information_schema or the table name starts with pg_, letter case
  ignored.
\<close>

theorem system_table_rule:
  assumes "CHR ''.'' \<notin> set (tr_schema t)" and "tr_schema t = [] \<Longrightarrow> CHR ''.'' \<notin> set (tr_name t)"
  shows "is_system_table (qualified_name t) \<longleftrightarrow>
    ascii_lower (tr_schema t) \<in> {''pg_catalog'', ''information_schema''} \<or> prefix ''pg_'' (ascii_lower (tr_name t))"
  using assms is_system_table_unqualified[of "tr_name t"] is_system_table_qualified[of "tr_schema t" "tr_name t"]
  by (cases "tr_schema t = []") (simp_all add: qualified_name_def)

theorem system_table_rule_witness:
  "is_system_table (qualified_name \<lparr>tr_schema = ''Pg_Catalog'', tr_name = ''x''\<rparr>)"
proof -
  have "ascii_lower ''Pg_Catalog'' = ''pg_catalog''" by code_simp
  then show ?thesis
    using system_table_rule[of "\<lparr>tr_schema = ''Pg_Catalog'', tr_name = ''x''\<rparr>"] by simp
qed

end
