(* ===== verification/Data_Classifier.thy ===== *)
theory Data_Classifier
  imports Policy_Engine
begin

text \<open>
  \<open>DataClassifier\<close>, \<open>src/src/core/data_classifier.cpp\<close>, with the vocabulary of
  \<open>data_classification.h\<close>: one classification per result column, from the analysis and
  the column metadata alone. The \<open>unordered_map\<close> of normalized names is a HOL map. The code tells
  shapes apart by flags of the analysis; the specification, \<open>attribution\<close>, looks at the list of
  projected items, and the two are shown to agree.
\<close>

section \<open>Definitions\<close>

datatype PiiCategory = PiiEmail | PiiPhone | PiiCreditCard

fun PiiCategory_to_string :: "PiiCategory \<Rightarrow> string" where
  "PiiCategory_to_string PiiEmail = ''PII.Email''"
| "PiiCategory_to_string PiiPhone = ''PII.Phone''"
| "PiiCategory_to_string PiiCreditCard = ''PII.CreditCard''"

datatype ColumnDataClass = NotClassifiedAsPii | Pii | Unattributed

record ColumnClassification =
  cc_data_class :: ColumnDataClass
  cc_pii_category :: "PiiCategory option"

definition default_ColumnClassification :: ColumnClassification where
  "default_ColumnClassification = \<lparr>cc_data_class = Unattributed, cc_pii_category = None\<rparr>"

record ClassificationResult =
  cr_columns :: "ColumnClassification list"
  cr_fully_attributed :: bool

type_synonym ClassificationConfig = "(string \<times> PiiCategory) list"

type_synonym mappings = "string \<rightharpoonup> PiiCategory"

definition strip_qualifier :: "string \<Rightarrow> string" where
  "strip_qualifier name =
     (case str_rfind (CHR ''.'') name of None \<Rightarrow> name | Some dot \<Rightarrow> drop (dot + 1) name)"

definition pii :: "PiiCategory \<Rightarrow> ColumnClassification" where
  "pii category =
     default_ColumnClassification\<lparr>cc_data_class := Pii, cc_pii_category := Some category\<rparr>"

definition not_pii :: ColumnClassification where
  "not_pii =
     default_ColumnClassification\<lparr>cc_data_class := NotClassifiedAsPii, cc_pii_category := None\<rparr>"

definition default_classification_config :: ClassificationConfig where
  "default_classification_config =
     [(''email'', PiiEmail), (''phone'', PiiPhone), (''credit_card'', PiiCreditCard)]"

text \<open>The constructor's loop: \<open>emplace\<close> fails on a key already present.\<close>

fun build_mappings :: "mappings \<Rightarrow> ClassificationConfig \<Rightarrow> mappings throws" where
  "build_mappings m [] = Inr m"
| "build_mappings m ((name, category) # rest) =
     (let key = ascii_lower name
      in if m key \<noteq> None then
           Inl (InvalidArgument (''duplicate classification mapping after case-insensitive normalization: ''
                  @ [CHR 0x27] @ key @ [CHR 0x27]))
         else build_mappings (m(key \<mapsto> category)) rest)"

definition DataClassifier_config :: "ClassificationConfig \<Rightarrow> mappings throws" where
  "DataClassifier_config config = build_mappings Map.empty config"

definition DataClassifier :: "mappings throws" where
  "DataClassifier = DataClassifier_config default_classification_config"

definition analyzable :: "SqlAnalysis \<Rightarrow> bool" where
  "analyzable a \<longleftrightarrow> an_status a = AnOk \<and> an_statement_class a = ClsSelect"

definition positional_shape :: "SqlAnalysis \<Rightarrow> ColumnInfo list \<Rightarrow> bool" where
  "positional_shape a result_columns \<longleftrightarrow>
     analyzable a \<and> \<not> an_has_wildcard_projection a \<and> \<not> an_has_computed_projection a \<and>
     \<not> an_has_safe_count_star_projection a \<and> an_projection_columns a \<noteq> [] \<and>
     length (an_projection_columns a) = length result_columns"

definition wildcard_shape :: "SqlAnalysis \<Rightarrow> bool" where
  "wildcard_shape a \<longleftrightarrow>
     analyzable a \<and> an_has_wildcard_projection a \<and> an_projection_columns a = [] \<and>
     \<not> an_has_computed_projection a \<and> \<not> an_has_safe_count_star_projection a"

definition count_star_only_shape :: "SqlAnalysis \<Rightarrow> bool" where
  "count_star_only_shape a \<longleftrightarrow>
     analyzable a \<and> an_has_safe_count_star_projection a \<and> \<not> an_has_wildcard_projection a \<and>
     \<not> an_has_computed_projection a \<and> \<not> an_has_group_by a \<and> an_projection_columns a = []"

text \<open>The body of the attribution loop, for the result column at index \<open>i\<close>.\<close>

definition classify_column ::
  "mappings \<Rightarrow> SqlAnalysis \<Rightarrow> ColumnInfo list \<Rightarrow> nat \<Rightarrow> ColumnClassification" where
  "classify_column normalized_mappings a result_columns i =
     (if count_star_only_shape a then not_pii
      else
        let source = (if positional_shape a result_columns
                      then strip_qualifier (an_projection_columns a ! i)
                      else ci_name (result_columns ! i))
        in case normalized_mappings (ascii_lower source) of
             None \<Rightarrow> not_pii
           | Some category \<Rightarrow> pii category)"

definition classify ::
  "mappings \<Rightarrow> SqlAnalysis \<Rightarrow> ColumnInfo list \<Rightarrow> ClassificationResult" where
  "classify normalized_mappings a result_columns =
     (let result = \<lparr>cr_columns = replicate (length result_columns) default_ColumnClassification,
                    cr_fully_attributed = False\<rparr> in
      if result_columns = [] then result\<lparr>cr_fully_attributed := True\<rparr>
      else if \<not> positional_shape a result_columns \<and> \<not> wildcard_shape a \<and> \<not> count_star_only_shape a
        then result
      else result\<lparr>cr_columns := map (classify_column normalized_mappings a result_columns)
                                   [0..<length result_columns],
                  cr_fully_attributed := True\<rparr>)"

section \<open>Lemmas\<close>

lemma classification_simps [simp]:
  "cc_data_class (pii c) = Pii" "cc_pii_category (pii c) = Some c"
  "cc_data_class not_pii = NotClassifiedAsPii" "cc_pii_category not_pii = None"
  "cc_data_class default_ColumnClassification = Unattributed"
  "cc_pii_category default_ColumnClassification = None"
  by (simp_all add: pii_def not_pii_def default_ColumnClassification_def)

lemma not_pii_neq_pii [simp]: "not_pii \<noteq> pii c" "pii c \<noteq> not_pii" "pii c = pii d \<longleftrightarrow> c = d"
  by (simp_all add: pii_def not_pii_def default_ColumnClassification_def)

lemma strip_qualifier_plain [simp]: "CHR ''.'' \<notin> set name \<Longrightarrow> strip_qualifier name = name"
  by (simp add: strip_qualifier_def)

lemma strip_qualifier_qualified [simp]:
  "CHR ''.'' \<notin> set name \<Longrightarrow> strip_qualifier (q @ CHR ''.'' # name) = name"
  by (simp add: strip_qualifier_def str_rfind_last)

text \<open>The three attribution modes exclude each other.\<close>

lemma shapes_exclusive:
  "\<not> (positional_shape a cols \<and> wildcard_shape a)"
  "\<not> (positional_shape a cols \<and> count_star_only_shape a)"
  "\<not> (wildcard_shape a \<and> count_star_only_shape a)"
  by (auto simp: positional_shape_def wildcard_shape_def count_star_only_shape_def)

definition attributable :: "SqlAnalysis \<Rightarrow> ColumnInfo list \<Rightarrow> bool" where
  "attributable a cols \<longleftrightarrow>
     positional_shape a cols \<or> wildcard_shape a \<or> count_star_only_shape a"

lemma classify_cases:
  "cols = [] \<Longrightarrow> classify m a cols = \<lparr>cr_columns = [], cr_fully_attributed = True\<rparr>"
  "cols \<noteq> [] \<Longrightarrow> \<not> attributable a cols \<Longrightarrow> classify m a cols =
     \<lparr>cr_columns = replicate (length cols) default_ColumnClassification, cr_fully_attributed = False\<rparr>"
  "cols \<noteq> [] \<Longrightarrow> attributable a cols \<Longrightarrow> classify m a cols =
     \<lparr>cr_columns = map (classify_column m a cols) [0..<length cols], cr_fully_attributed = True\<rparr>"
  by (auto simp: classify_def attributable_def)

lemma classify_column_attributed: "cc_data_class (classify_column m a cols i) \<noteq> Unattributed"
  by (simp add: classify_column_def Let_def split: option.split)

lemma classify_column_wf:
  "cc_data_class (classify_column m a cols i) = Pii \<longleftrightarrow> cc_pii_category (classify_column m a cols i) \<noteq> None"
  by (simp add: classify_column_def Let_def split: option.split)

lemma length_classify [simp]: "length (cr_columns (classify m a cols)) = length cols"
  by (simp add: classify_def Let_def)

lemma classify_nth:
  assumes "i < length cols" and "attributable a cols"
  shows "cr_columns (classify m a cols) ! i = classify_column m a cols i"
proof -
  from assms(1) have "cols \<noteq> []" by auto
  then show ?thesis using assms by (simp add: classify_cases)
qed

lemma fully_attributed_iff:
  "cr_fully_attributed (classify m a cols) \<longleftrightarrow> cols = [] \<or> attributable a cols"
  by (cases "cols = []"; cases "attributable a cols") (simp_all add: classify_cases)

text \<open>Outside the wildcard mode the names and types of the result columns play no part.\<close>

lemma classify_column_ignores_metadata:
  assumes "attributable a cols" and "\<not> wildcard_shape a" and "length cols = length cols'"
  shows "classify_column m a cols i = classify_column m a cols' i"
proof -
  from assms have "count_star_only_shape a \<or> positional_shape a cols \<and> positional_shape a cols'"
    by (auto simp: attributable_def positional_shape_def)
  then show ?thesis by (elim disjE) (simp_all add: classify_column_def)
qed

lemma classify_ignores_metadata:
  assumes "\<not> wildcard_shape a" and len: "length cols = length cols'"
  shows "classify m a cols = classify m a cols'"
proof (cases "cols = [] \<or> \<not> attributable a cols")
  case True
  moreover have "attributable a cols = attributable a cols'"
    using len by (simp add: attributable_def positional_shape_def)
  moreover have "cols = [] \<longleftrightarrow> cols' = []" using len by auto
  ultimately show ?thesis using len by (cases "cols = []") (auto simp: classify_cases)
next
  case False
  then have "attributable a cols'" "cols' \<noteq> []"
    using len by (auto simp: attributable_def positional_shape_def)
  then show ?thesis
    using False assms classify_column_ignores_metadata[of a cols cols' m] by (simp add: classify_cases)
qed

subsection \<open>The constructor\<close>

definition normalized_config :: "ClassificationConfig \<Rightarrow> ClassificationConfig" where
  "normalized_config config = map (\<lambda>(name, category). (ascii_lower name, category)) config"

definition collision_free :: "mappings \<Rightarrow> ClassificationConfig \<Rightarrow> bool" where
  "collision_free m config \<longleftrightarrow>
     distinct (map fst (normalized_config config)) \<and> fst ` set (normalized_config config) \<inter> dom m = {}"

lemma collision_free_Cons:
  "collision_free m ((name, category) # config) \<longleftrightarrow>
     m (ascii_lower name) = None \<and> collision_free (m(ascii_lower name \<mapsto> category)) config"
proof -
  have n: "normalized_config ((name, category) # config) = (ascii_lower name, category) # normalized_config config"
    by (simp add: normalized_config_def)
  show ?thesis unfolding collision_free_def n by auto
qed

lemma build_mappings_ok:
  "collision_free m config \<Longrightarrow> build_mappings m config = Inr (m ++ map_of (normalized_config config))"
proof (induction config arbitrary: m)
  case (Cons x config)
  obtain name category where x: "x = (name, category)" by (cases x)
  let ?m = "m(ascii_lower name \<mapsto> category)"
  from Cons.prems have free: "m (ascii_lower name) = None" "collision_free ?m config"
    by (simp_all add: x collision_free_Cons)
  then have "ascii_lower name \<notin> dom (map_of (normalized_config config))"
    unfolding collision_free_def dom_map_of_conv_image_fst by auto
  then have "?m ++ map_of (normalized_config config) = m ++ map_of (normalized_config (x # config))"
    by (simp add: map_add_upd_left normalized_config_def x)
  with Cons.IH[OF free(2)] free(1) show ?case by (simp add: x del: fun_upd_apply)
qed (simp add: normalized_config_def)

lemma build_mappings_collision:
  "\<not> collision_free m config \<Longrightarrow> \<exists>msg. build_mappings m config = Inl (InvalidArgument msg)"
proof (induction config arbitrary: m)
  case Nil
  then show ?case by (simp add: collision_free_def normalized_config_def)
next
  case (Cons x config)
  obtain name category where x: "x = (name, category)" by (cases x)
  show ?case
  proof (cases "m (ascii_lower name)")
    case None
    with Cons.prems have "\<not> collision_free (m(ascii_lower name \<mapsto> category)) config"
      by (simp add: x collision_free_Cons)
    from Cons.IH[OF this] None show ?thesis by (simp add: x del: fun_upd_apply)
  qed (simp add: x)
qed

lemma DataClassifier_default:
  "DataClassifier = Inr [''email'' \<mapsto> PiiEmail, ''phone'' \<mapsto> PiiPhone, ''credit_card'' \<mapsto> PiiCreditCard]"
proof -
  have l: "ascii_lower ''email'' = ''email''" "ascii_lower ''phone'' = ''phone''"
    "ascii_lower ''credit_card'' = ''credit_card''"
    by (simp_all add: ascii_lower_char_def is_upper_def)
  show ?thesis
    by (simp add: DataClassifier_def DataClassifier_config_def default_classification_config_def
        l del: ascii_lower_Cons)
qed

section \<open>The contract of the classification\<close>

text \<open>
  The invariants \<open>data_classification.h\<close> states: one entry per result column, a category
  exactly on PII columns, and the summary flag set exactly when no column is unattributed.
\<close>

definition well_formed_classification :: "nat \<Rightarrow> ClassificationResult \<Rightarrow> bool" where
  "well_formed_classification n c \<longleftrightarrow>
     length (cr_columns c) = n \<and>
     (\<forall>x \<in> set (cr_columns c). cc_data_class x = Pii \<longleftrightarrow> cc_pii_category x \<noteq> None) \<and>
     (cr_fully_attributed c \<longleftrightarrow> (\<forall>x \<in> set (cr_columns c). cc_data_class x \<noteq> Unattributed))"

locale classifier_contract =
  fixes classifier :: "SqlAnalysis \<Rightarrow> ColumnInfo list \<Rightarrow> ClassificationResult"
  assumes classifier_well_formed: "well_formed_classification (length cols) (classifier a cols)"

lemma classify_well_formed: "well_formed_classification (length cols) (classify m a cols)"
proof (cases "cols = []")
  case False
  then show ?thesis
    using classify_column_attributed[of m a cols] classify_column_wf[of m a cols]
    by (cases "attributable a cols") (auto simp: well_formed_classification_def classify_cases)
qed (simp add: well_formed_classification_def classify_cases)

interpretation name_classifier: classifier_contract "classify m" for m
  by unfold_locales (rule classify_well_formed)

section \<open>The attribution of a projection list\<close>

text \<open>
  The specification looks at what was projected, item by item, instead of the flags of an analysis.
  \<open>reports\<close> says which analyses are those of a list of items.
\<close>

datatype projection_item = ItemColumn string | ItemWildcard | ItemCountStar | ItemComputed

fun item_columns :: "projection_item list \<Rightarrow> string list" where
  "item_columns [] = []"
| "item_columns (ItemColumn name # items) = name # item_columns items"
| "item_columns (_ # items) = item_columns items"

definition reports :: "projection_item list \<Rightarrow> bool \<Rightarrow> SqlAnalysis \<Rightarrow> bool" where
  "reports items grouped a \<longleftrightarrow>
     an_status a = AnOk \<and> an_statement_class a = ClsSelect \<and> an_projection_columns a = item_columns items \<and>
     (an_has_wildcard_projection a \<longleftrightarrow> ItemWildcard \<in> set items) \<and>
     (an_has_computed_projection a \<longleftrightarrow> ItemComputed \<in> set items) \<and>
     (an_has_safe_count_star_projection a \<longleftrightarrow> ItemCountStar \<in> set items) \<and> (an_has_group_by a \<longleftrightarrow> grouped)"

text \<open>The name behind the last dot, and the class of a source column of that name.\<close>

definition last_component :: "string \<Rightarrow> string" where
  "last_component name = rev (takeWhile (\<lambda>c. c \<noteq> CHR ''.'') (rev name))"

definition class_of :: "mappings \<Rightarrow> string \<Rightarrow> ColumnClassification" where
  "class_of m name = (case m (ascii_lower name) of None \<Rightarrow> not_pii | Some category \<Rightarrow> pii category)"

text \<open>
  The classes of the result columns of a projection, \<open>None\<close> when they cannot be told: explicit
  columns only, one result column each; wildcards only; ungrouped counts only.
\<close>

definition attribution ::
  "mappings \<Rightarrow> projection_item list \<Rightarrow> bool \<Rightarrow> string list \<Rightarrow> ColumnClassification list option" where
  "attribution m items grouped names =
     (if items = map ItemColumn (item_columns items) \<and> length items = length names then
        Some (map (\<lambda>name. class_of m (last_component name)) (item_columns items))
      else if set items = {ItemWildcard} then Some (map (class_of m) names)
      else if set items = {ItemCountStar} \<and> \<not> grouped then Some (map (\<lambda>_. not_pii) names)
      else None)"

lemma strip_qualifier_last: "strip_qualifier name = last_component name"
proof (cases "CHR ''.'' \<in> set name")
  case True
  then obtain q r where n: "name = q @ CHR ''.'' # r" and r: "CHR ''.'' \<notin> set r"
    by (meson split_list_last)
  have "takeWhile (\<lambda>c. c \<noteq> CHR ''.'') (rev r @ CHR ''.'' # rev q) = rev r"
    using r by (simp add: takeWhile_append)
  with r show ?thesis by (simp add: n last_component_def)
next
  case False
  have "last_component name = name"
    unfolding last_component_def by (subst takeWhile_eq_all_conv[THEN iffD2]) (use False in auto)
  with False show ?thesis by simp
qed

lemma item_columns_Nil: "item_columns items = [] \<longleftrightarrow> (\<forall>name. ItemColumn name \<notin> set items)"
  by (induction items rule: item_columns.induct) auto

lemma only_columns_iff:
  "items = map ItemColumn (item_columns items) \<longleftrightarrow>
     ItemWildcard \<notin> set items \<and> ItemComputed \<notin> set items \<and> ItemCountStar \<notin> set items"
  by (induction items rule: item_columns.induct) auto

lemma set_items_iff:
  "set items = {ItemWildcard} \<longleftrightarrow> ItemWildcard \<in> set items \<and> ItemComputed \<notin> set items \<and>
     ItemCountStar \<notin> set items \<and> item_columns items = []"
  "set items = {ItemCountStar} \<longleftrightarrow> ItemCountStar \<in> set items \<and> ItemComputed \<notin> set items \<and>
     ItemWildcard \<notin> set items \<and> item_columns items = []"
  unfolding item_columns_Nil by (auto, (metis projection_item.exhaust)+)

text \<open>The shapes of the code are those of the specification.\<close>

lemma reports_shapes:
  assumes "reports items grouped a" and "cols \<noteq> []"
  shows "positional_shape a cols \<longleftrightarrow> items = map ItemColumn (item_columns items) \<and> length items = length cols"
    and "wildcard_shape a \<longleftrightarrow> set items = {ItemWildcard}"
    and "count_star_only_shape a \<longleftrightarrow> set items = {ItemCountStar} \<and> \<not> grouped"
proof -
  have len: "length items = length (item_columns items)" if "items = map ItemColumn (item_columns items)"
    by (subst that) simp
  then show "positional_shape a cols \<longleftrightarrow> items = map ItemColumn (item_columns items) \<and> length items = length cols"
    using assms unfolding positional_shape_def analyzable_def reports_def only_columns_iff by auto
  show "wildcard_shape a \<longleftrightarrow> set items = {ItemWildcard}"
    and "count_star_only_shape a \<longleftrightarrow> set items = {ItemCountStar} \<and> \<not> grouped"
    using assms unfolding wildcard_shape_def count_star_only_shape_def analyzable_def reports_def set_items_iff
    by auto
qed

lemma classify_column_class:
  "positional_shape a cols \<Longrightarrow> classify_column m a cols i = class_of m (last_component (an_projection_columns a ! i))"
  "wildcard_shape a \<Longrightarrow> classify_column m a cols i = class_of m (ci_name (cols ! i))"
  "count_star_only_shape a \<Longrightarrow> classify_column m a cols i = not_pii"
  using shapes_exclusive(1)[of a cols] shapes_exclusive(2)[of a cols] shapes_exclusive(3)[of a]
  by (auto simp: classify_column_def class_of_def strip_qualifier_last)

lemma classify_attribution:
  assumes a: "reports items grouped a" and cols: "cols \<noteq> []"
  shows "classify m a cols =
    (case attribution m items grouped (map ci_name cols) of
       None \<Rightarrow> \<lparr>cr_columns = replicate (length cols) default_ColumnClassification, cr_fully_attributed = False\<rparr>
     | Some classes \<Rightarrow> \<lparr>cr_columns = classes, cr_fully_attributed = True\<rparr>)"
proof -
  note shapes = reports_shapes[OF a cols]
  have spec: "attribution m items grouped (map ci_name cols) =
      (if positional_shape a cols then Some (map (\<lambda>name. class_of m (last_component name)) (an_projection_columns a))
       else if wildcard_shape a then Some (map (\<lambda>c. class_of m (ci_name c)) cols)
       else if count_star_only_shape a then Some (map (\<lambda>c. not_pii) cols) else None)"
    using a unfolding attribution_def shapes by (simp add: reports_def comp_def)
  have by_columns: "classify m a cols = \<lparr>cr_columns = map f xs, cr_fully_attributed = True\<rparr>"
    if "attributable a cols" "length xs = length cols" "\<And>i. classify_column m a cols i = f (xs ! i)"
    for f :: "'b \<Rightarrow> ColumnClassification" and xs
  proof -
    have "map (classify_column m a cols) [0..<length cols] = map f xs"
      by (rule nth_equalityI) (simp_all add: that)
    with that(1) show ?thesis by (simp add: classify_cases(3)[OF cols])
  qed
  consider (columns) "positional_shape a cols" | (wildcard) "wildcard_shape a" "\<not> positional_shape a cols"
    | (count) "count_star_only_shape a" "\<not> positional_shape a cols" "\<not> wildcard_shape a"
    | (none) "\<not> attributable a cols"
    unfolding attributable_def by blast
  then show ?thesis
  proof cases
    case columns
    then have "length (an_projection_columns a) = length cols" by (simp add: positional_shape_def)
    with columns have "classify m a cols =
        \<lparr>cr_columns = map (\<lambda>name. class_of m (last_component name)) (an_projection_columns a), cr_fully_attributed = True\<rparr>"
      by (intro by_columns) (simp_all add: attributable_def classify_column_class(1))
    with columns show ?thesis by (simp add: spec)
  next
    case wildcard
    then have "classify m a cols = \<lparr>cr_columns = map (\<lambda>c. class_of m (ci_name c)) cols, cr_fully_attributed = True\<rparr>"
      by (intro by_columns) (simp_all add: attributable_def classify_column_class(2))
    with wildcard show ?thesis by (simp add: spec)
  next
    case count
    then have "classify m a cols = \<lparr>cr_columns = map (\<lambda>c. not_pii) cols, cr_fully_attributed = True\<rparr>"
      by (intro by_columns) (simp_all add: attributable_def classify_column_class(3))
    with count show ?thesis by (simp add: spec)
  next
    case none
    then show ?thesis by (simp add: spec classify_cases(2)[OF cols] attributable_def)
  qed
qed

text \<open>Every analysis of a SELECT is the report of some list of items.\<close>

lemma reports_exists:
  assumes "an_status a = AnOk" and "an_statement_class a = ClsSelect"
  shows "\<exists>items. reports items (an_has_group_by a) a"
proof -
  have cols: "item_columns (map ItemColumn names @ items) = names @ item_columns items" for names items
    by (induction names) simp_all
  show ?thesis
    by (rule exI[of _ "map ItemColumn (an_projection_columns a) @
          (if an_has_wildcard_projection a then [ItemWildcard] else []) @
          (if an_has_computed_projection a then [ItemComputed] else []) @
          (if an_has_safe_count_star_projection a then [ItemCountStar] else [])"])
      (use assms in \<open>auto simp: reports_def cols\<close>)
qed

section \<open>Properties\<close>

text \<open>
  C23. How result columns are classified, from what the statement projects: when all items are
  explicit columns, one per result column, each result column has the class of its own item's name
  behind the last dot; when all items are wildcards, it has the class of its own name; when all
  items are canonical counts and there is no grouping, it is not PII. For every other mixture of
  items, for a number of result columns that does not fit, and for every analysis that is not that
  of a SELECT, all columns are unattributed. No result column is the only vacuous case.
\<close>

theorem classify_modes:
  "classify m a [] = \<lparr>cr_columns = [], cr_fully_attributed = True\<rparr> \<and>
   (cols \<noteq> [] \<and> reports items grouped a \<longrightarrow>
      classify m a cols =
        (case attribution m items grouped (map ci_name cols) of
           None \<Rightarrow> \<lparr>cr_columns = replicate (length cols) default_ColumnClassification, cr_fully_attributed = False\<rparr>
         | Some classes \<Rightarrow> \<lparr>cr_columns = classes, cr_fully_attributed = True\<rparr>)) \<and>
   (cols \<noteq> [] \<and> (an_status a \<noteq> AnOk \<or> an_statement_class a \<noteq> ClsSelect) \<longrightarrow>
      classify m a cols =
        \<lparr>cr_columns = replicate (length cols) default_ColumnClassification, cr_fully_attributed = False\<rparr>) \<and>
   (an_status a = AnOk \<and> an_statement_class a = ClsSelect \<longrightarrow> (\<exists>items grouped. reports items grouped a))"
proof (intro conjI impI)
  show "classify m a [] = \<lparr>cr_columns = [], cr_fully_attributed = True\<rparr>" by (simp add: classify_cases(1))
  show "classify m a cols =
        (case attribution m items grouped (map ci_name cols) of
           None \<Rightarrow> \<lparr>cr_columns = replicate (length cols) default_ColumnClassification, cr_fully_attributed = False\<rparr>
         | Some classes \<Rightarrow> \<lparr>cr_columns = classes, cr_fully_attributed = True\<rparr>)"
    if "cols \<noteq> [] \<and> reports items grouped a"
    using that classify_attribution by blast
  show "classify m a cols =
        \<lparr>cr_columns = replicate (length cols) default_ColumnClassification, cr_fully_attributed = False\<rparr>"
    if "cols \<noteq> [] \<and> (an_status a \<noteq> AnOk \<or> an_statement_class a \<noteq> ClsSelect)"
    using that by (intro classify_cases(2))
      (auto simp: attributable_def positional_shape_def wildcard_shape_def count_star_only_shape_def analyzable_def)
  show "\<exists>items grouped. reports items grouped a" if "an_status a = AnOk \<and> an_statement_class a = ClsSelect"
    using that reports_exists by blast
qed

definition demo_select :: "string list \<Rightarrow> SqlAnalysis" where
  "demo_select projection =
     default_SqlAnalysis\<lparr>an_status := AnOk, an_statement_type := StSelect, an_statement_class := ClsSelect,
       an_statement_count := 1, an_projection_columns := projection\<rparr>"

text \<open>The witnesses: an aliased column, and the same column beside an expression.\<close>

theorem classify_modes_witness:
  "classify [''email'' \<mapsto> PiiEmail] (demo_select [''c.Email'']) [\<lparr>ci_name = ''contact'', ci_type = CtText\<rparr>] =
     \<lparr>cr_columns = [pii PiiEmail], cr_fully_attributed = True\<rparr> \<and>
   classify [''email'' \<mapsto> PiiEmail] (demo_select [''c.Email'']\<lparr>an_has_computed_projection := True\<rparr>)
       [\<lparr>ci_name = ''contact'', ci_type = CtText\<rparr>] =
     \<lparr>cr_columns = [default_ColumnClassification], cr_fully_attributed = False\<rparr>"
proof
  let ?cols = "[\<lparr>ci_name = ''contact'', ci_type = CtText\<rparr>]"
  have r: "reports [ItemColumn ''c.Email''] False (demo_select [''c.Email''])"
    "reports [ItemColumn ''c.Email'', ItemComputed] False (demo_select [''c.Email'']\<lparr>an_has_computed_projection := True\<rparr>)"
    by (simp_all add: reports_def demo_select_def default_SqlAnalysis_def)
  have k: "ascii_lower (last_component ''c.Email'') = ''email''" by code_simp
  show "classify [''email'' \<mapsto> PiiEmail] (demo_select [''c.Email'']) ?cols =
     \<lparr>cr_columns = [pii PiiEmail], cr_fully_attributed = True\<rparr>"
    using classify_modes[of "[''email'' \<mapsto> PiiEmail]" "demo_select [''c.Email'']" ?cols "[ItemColumn ''c.Email'']" False] r(1)
    by (simp add: attribution_def class_of_def k)
  show "classify [''email'' \<mapsto> PiiEmail] (demo_select [''c.Email'']\<lparr>an_has_computed_projection := True\<rparr>) ?cols =
     \<lparr>cr_columns = [default_ColumnClassification], cr_fully_attributed = False\<rparr>"
    using classify_modes[of "[''email'' \<mapsto> PiiEmail]" "demo_select [''c.Email'']\<lparr>an_has_computed_projection := True\<rparr>" ?cols
        "[ItemColumn ''c.Email'', ItemComputed]" False] r(2)
    by (simp add: attribution_def)
qed

text \<open>
  C24. An alias cannot change a classification: unless the statement is a bare wildcard, renaming
  and retyping the result columns in any way leaves every classification the same.
\<close>

theorem classify_alias_immune:
  assumes "\<not> wildcard_shape a" and "length cols = length cols'"
  shows "classify m a cols = classify m a cols'"
  using assms by (rule classify_ignores_metadata)

theorem classify_alias_immune_witness:
  "classify [''email'' \<mapsto> PiiEmail] (demo_select [''email'']) [\<lparr>ci_name = ''email'', ci_type = CtText\<rparr>] =
   classify [''email'' \<mapsto> PiiEmail] (demo_select [''email'']) [\<lparr>ci_name = ''id'', ci_type = CtInteger\<rparr>]"
  by (rule classify_alias_immune)
    (simp_all add: wildcard_shape_def demo_select_def default_SqlAnalysis_def)

text \<open>
  The constructor: a configuration whose names stay different after case folding gives exactly
  its normalized map; one with a collision is refused with an invalid-argument exception, and the
  default configuration is accepted.
\<close>

theorem classifier_constructor:
  "(if distinct (map (\<lambda>e. ascii_lower (fst e)) config)
    then DataClassifier_config config = Inr (map_of (normalized_config config))
    else \<exists>msg. DataClassifier_config config = Inl (InvalidArgument msg)) \<and>
   DataClassifier = Inr [''email'' \<mapsto> PiiEmail, ''phone'' \<mapsto> PiiPhone, ''credit_card'' \<mapsto> PiiCreditCard]"
proof -
  have names: "map fst (normalized_config config) = map (\<lambda>e. ascii_lower (fst e)) config"
    by (simp add: normalized_config_def case_prod_unfold)
  then have "collision_free Map.empty config \<longleftrightarrow> distinct (map (\<lambda>e. ascii_lower (fst e)) config)"
    by (simp add: collision_free_def)
  then show ?thesis
    using build_mappings_ok[of Map.empty config] build_mappings_collision[of Map.empty config]
    by (simp add: DataClassifier_config_def DataClassifier_default)
qed

end
