(* ===== verification/Pii_Masker.thy ===== *)
theory Pii_Masker
  imports Data_Classifier
begin

text \<open>
  \<open>PiiMasker\<close>, \<open>src/src/core/pii_masker.cpp\<close>: the three value transformations, the
  validation that comes before any cell is touched, and the column-by-column transformation of
  the rows. The in-place loops over the result are a fold over the column indices; they are shown
  equal to masking every cell by its own column's classification.
\<close>

section \<open>Value transformations\<close>

definition kFullRedaction :: string where
  "kFullRedaction = ''***''"

text \<open>The scan for \<open>@\<close>: index, then (number of occurrences, last position).\<close>

fun at_scan :: "nat \<Rightarrow> nat \<times> nat \<Rightarrow> string \<Rightarrow> nat \<times> nat" where
  "at_scan i (at_count, at_pos) [] = (at_count, at_pos)"
| "at_scan i (at_count, at_pos) (c # cs) =
     at_scan (Suc i) (if c = CHR ''@'' then (Suc at_count, i) else (at_count, at_pos)) cs"

definition mask_email :: "string \<Rightarrow> string" where
  "mask_email value =
     (let (at_count, at_pos) = at_scan 0 (0, 0) value
      in if at_count \<noteq> 1 \<or> at_pos = 0 \<or> at_pos = length value - 1 then kFullRedaction
         else
           let domain = drop (at_pos + 1) value
           in if 0x80 \<le> byte (value ! 0) then ''***@'' @ domain
              else [value ! 0] @ ''***@'' @ domain)"

definition mask_phone :: "string \<Rightarrow> string" where
  "mask_phone value =
     (let digits = filter is_digit value
      in if length digits < 7 then kFullRedaction
         else ''***'' @ drop (length digits - 4) digits)"

text \<open>The digit loop; \<open>None\<close> is the early return of the full redaction.\<close>

fun card_digits :: "string \<Rightarrow> string option" where
  "card_digits [] = Some []"
| "card_digits (c # cs) =
     (if c = CHR '' '' \<or> c = CHR ''-'' then card_digits cs
      else if \<not> is_digit c then None
      else map_option (\<lambda>ds. c # ds) (card_digits cs))"

definition mask_credit_card :: "string \<Rightarrow> string" where
  "mask_credit_card value =
     (case card_digits value of
        None \<Rightarrow> kFullRedaction
      | Some digits \<Rightarrow>
          if length digits < 12 then kFullRedaction
          else ''****'' @ drop (length digits - 4) digits)"

fun mask_value :: "PiiCategory \<Rightarrow> string \<Rightarrow> string" where
  "mask_value PiiEmail value = mask_email value"
| "mask_value PiiPhone value = mask_phone value"
| "mask_value PiiCreditCard value = mask_credit_card value"

section \<open>Masking a result\<close>

datatype MaskingFailureReason = UnattributedColumn | StructuralMismatch | InvalidClassification

fun MaskingFailureReason_to_string :: "MaskingFailureReason \<Rightarrow> string" where
  "MaskingFailureReason_to_string UnattributedColumn = ''UNATTRIBUTED_COLUMN''"
| "MaskingFailureReason_to_string StructuralMismatch = ''STRUCTURAL_MISMATCH''"
| "MaskingFailureReason_to_string InvalidClassification = ''INVALID_CLASSIFICATION''"

datatype MaskingOutcome = MaskSuccess ExecutionResult | MaskFailure MaskingFailureReason

fun masked :: "MaskingOutcome \<Rightarrow> bool" where
  "masked (MaskSuccess r) = True"
| "masked (MaskFailure f) = False"

text \<open>The accessors throw \<open>std::bad_variant_access\<close> in the wrong state.\<close>

fun masked_result :: "MaskingOutcome \<Rightarrow> ExecutionResult throws" where
  "masked_result (MaskSuccess r) = Inr r"
| "masked_result (MaskFailure f) = Inl BadVariantAccess"

fun failure_reason :: "MaskingOutcome \<Rightarrow> MaskingFailureReason throws" where
  "failure_reason (MaskSuccess r) = Inl BadVariantAccess"
| "failure_reason (MaskFailure f) = Inr f"

text \<open>
  The loop over the classified columns: \<open>None\<close> is the early return with
  \<open>InvalidClassification\<close>, otherwise the accumulated \<open>any_unattributed\<close>.
\<close>

fun scan_classification :: "bool \<Rightarrow> ColumnClassification list \<Rightarrow> bool option" where
  "scan_classification any_unattributed [] = Some any_unattributed"
| "scan_classification any_unattributed (c # cs) =
     (if (cc_data_class c = Pii) \<noteq> (cc_pii_category c \<noteq> None) then None
      else scan_classification (any_unattributed \<or> cc_data_class c = Unattributed) cs)"

text \<open>The preflight validation, phase 1: \<open>None\<close> when the input may be transformed.\<close>

definition preflight :: "ExecutionResult \<Rightarrow> ClassificationResult \<Rightarrow> MaskingFailureReason option" where
  "preflight result classification =
     (let column_count = length (ex_columns result) in
      if length (cr_columns classification) \<noteq> column_count then Some StructuralMismatch
      else if list_ex (\<lambda>row. length row \<noteq> column_count) (ex_rows result) then Some StructuralMismatch
      else
        (case scan_classification False (cr_columns classification) of
           None \<Rightarrow> Some InvalidClassification
         | Some any_unattributed \<Rightarrow>
             if cr_fully_attributed classification \<noteq> (\<not> any_unattributed)
               then Some InvalidClassification
             else if any_unattributed then Some UnattributedColumn
             else None))"

text \<open>One cell of a PII column: NULL and the empty string stay.\<close>

definition mask_cell :: "PiiCategory \<Rightarrow> cell \<Rightarrow> cell" where
  "mask_cell category x =
     (case x of
        None \<Rightarrow> None
      | Some value \<Rightarrow> if value = [] then Some value else Some (mask_value category value))"

text \<open>
  One round of the outer loop of phase 2: the column at index \<open>col\<close>, in every row. A column
  that is not PII is skipped; after phase 1 a PII column has a category, and the read
  \<open>*c.pii_category\<close> is the \<open>Some\<close> branch.
\<close>

definition mask_column ::
  "ColumnClassification list \<Rightarrow> nat \<Rightarrow> cell list list \<Rightarrow> cell list list" where
  "mask_column classes col rows =
     (let c = classes ! col in
      if cc_data_class c \<noteq> Pii then rows
      else
        (case cc_pii_category c of
           None \<Rightarrow> rows
         | Some category \<Rightarrow> map (\<lambda>row. row[col := mask_cell category (row ! col)]) rows))"

definition mask_result :: "ExecutionResult \<Rightarrow> ClassificationResult \<Rightarrow> MaskingOutcome" where
  "mask_result result classification =
     (case preflight result classification of
        Some reason \<Rightarrow> MaskFailure reason
      | None \<Rightarrow>
          MaskSuccess (result\<lparr>ex_rows := fold (mask_column (cr_columns classification))
             [0..<length (ex_columns result)] (ex_rows result)\<rparr>))"

section \<open>Lemmas on the value transformations\<close>

lemma at_scan_eq:
  "at_scan i (n, p) s =
     (n + count_list s (CHR ''@''),
      case str_rfind (CHR ''@'') s of None \<Rightarrow> p | Some j \<Rightarrow> i + j)"
proof (induction s arbitrary: i n p)
  case (Cons c s)
  show ?case by (simp add: Cons.IH split: option.split) 
qed simp

lemma count_list_1_split:
  assumes "count_list s c = 1"
  obtains l d where "s = l @ c # d" "c \<notin> set l" "c \<notin> set d"
proof -
  from assms have "c \<in> set s" by (metis count_notin zero_neq_one)
  then obtain l d where s: "s = l @ c # d" "c \<notin> set l" by (auto dest: split_list_first)
  then have "count_list d c = 0" using assms by simp
  then have "c \<notin> set d" by (simp add: count_list_0_iff)
  with s that show ?thesis by blast
qed

lemma mask_email_split:
  assumes "CHR ''@'' \<notin> set l" and "CHR ''@'' \<notin> set d"
  shows "mask_email (l @ CHR ''@'' # d) =
     (if l = [] \<or> d = [] then ''***''
      else if 128 \<le> byte (hd l) then ''***@'' @ d
      else hd l # ''***@'' @ d)"
proof -
  have "at_scan 0 (0, 0) (l @ CHR ''@'' # d) = (1, length l)"
    using assms by (simp add: at_scan_eq str_rfind_last count_notin)
  then show ?thesis
    by (cases l) (auto simp: mask_email_def kFullRedaction_def)
qed

lemma mask_email_other: "count_list v (CHR ''@'') \<noteq> 1 \<Longrightarrow> mask_email v = ''***''"
  by (simp add: mask_email_def at_scan_eq kFullRedaction_def)

text \<open>Case analysis on what an e-mail value looks like.\<close>

lemma mask_email_cases:
  obtains (redacted) "mask_email v = ''***''"
  | (multibyte) l d where "v = l @ CHR ''@'' # d" "l \<noteq> []" "d \<noteq> []" "CHR ''@'' \<notin> set l" "CHR ''@'' \<notin> set d"
      "128 \<le> byte (hd l)" "mask_email v = ''***@'' @ d"
  | (kept) l d where "v = l @ CHR ''@'' # d" "l \<noteq> []" "d \<noteq> []" "CHR ''@'' \<notin> set l" "CHR ''@'' \<notin> set d"
      "byte (hd l) < 128" "mask_email v = hd l # ''***@'' @ d"
proof (cases "count_list v (CHR ''@'') = 1")
  case True
  then obtain l d where v: "v = l @ CHR ''@'' # d" "CHR ''@'' \<notin> set l" "CHR ''@'' \<notin> set d"
    by (rule count_list_1_split)
  show ?thesis
    using mask_email_split[OF v(2,3)] v
    by (cases "l = [] \<or> d = []"; cases "128 \<le> byte (hd l)")
      (auto intro: redacted multibyte kept)
next
  case False
  then show ?thesis by (intro redacted mask_email_other)
qed

lemma card_digits_eq:
  "card_digits v =
     (if \<forall>c \<in> set v. c = CHR '' '' \<or> c = CHR ''-'' \<or> is_digit c then Some (filter is_digit v) else None)"
proof -
  have "\<not> is_digit (CHR '' '')" "\<not> is_digit (CHR ''-'')" by (simp_all add: is_digit_def)
  then show ?thesis by (induction v) auto
qed

lemma last_four_digits:
  assumes "4 \<le> length (filter is_digit v)"
  defines "ds \<equiv> drop (length (filter is_digit v) - 4) (filter is_digit v)"
  shows "length ds = 4" and "\<forall>c \<in> set ds. is_digit c" and "suffix ds (filter is_digit v)"
  using assms by (auto simp: suffix_drop dest: in_set_dropD)

lemma mask_phone_cases:
  obtains (redacted) "mask_phone v = ''***''"
  | (kept) ds where "length ds = 4" "\<forall>c \<in> set ds. is_digit c" "suffix ds (filter is_digit v)"
      "mask_phone v = ''***'' @ ds"
proof (cases "length (filter is_digit v) < 7")
  case True
  then have "mask_phone v = ''***''" by (simp add: mask_phone_def kFullRedaction_def)
  then show ?thesis by (rule redacted)
next
  case False
  then have four: "4 \<le> length (filter is_digit v)" by simp
  from False have "mask_phone v = ''***'' @ drop (length (filter is_digit v) - 4) (filter is_digit v)"
    by (simp add: mask_phone_def Let_def)
  with last_four_digits[OF four] show ?thesis by (rule kept)
qed

lemma mask_credit_card_cases:
  obtains (redacted) "mask_credit_card v = ''***''"
  | (kept) ds where "length ds = 4" "\<forall>c \<in> set ds. is_digit c" "suffix ds (filter is_digit v)"
      "mask_credit_card v = ''****'' @ ds"
proof (cases "card_digits v = Some (filter is_digit v) \<and> 12 \<le> length (filter is_digit v)")
  case True
  then have four: "4 \<le> length (filter is_digit v)" by simp
  from True have "mask_credit_card v = ''****'' @ drop (length (filter is_digit v) - 4) (filter is_digit v)"
    by (simp add: mask_credit_card_def)
  with last_four_digits[OF four] show ?thesis by (rule kept)
next
  case False
  then have "mask_credit_card v = ''***''"
    by (cases "card_digits v")
      (auto simp: mask_credit_card_def kFullRedaction_def card_digits_eq split: if_splits)
  then show ?thesis by (rule redacted)
qed

text \<open>Which values a transformation returns unchanged.\<close>

definition already_masked_email :: "string \<Rightarrow> bool" where
  "already_masked_email v \<longleftrightarrow>
     (\<exists>x d. v = x # ''***@'' @ d \<and> x \<noteq> CHR ''@'' \<and> byte x < 128 \<and> d \<noteq> [] \<and> CHR ''@'' \<notin> set d)"

lemma mask_email_fixpoint: "mask_email v = v \<longleftrightarrow> v = ''***'' \<or> already_masked_email v"
proof
  assume fix_v: "mask_email v = v"
  show "v = ''***'' \<or> already_masked_email v"
  proof (cases v rule: mask_email_cases)
    case (multibyte l d)
    then have "''***'' = l" using fix_v by simp
    then have "byte (hd l) = 42" by auto
    with multibyte show ?thesis by simp
  next
    case (kept l d)
    then have "v = hd l # ''***@'' @ d" using fix_v by simp
    moreover have "hd l \<noteq> CHR ''@''" using kept by (cases l) auto
    ultimately show ?thesis using kept unfolding already_masked_email_def by blast
  qed (use fix_v in simp)
next
  assume "v = ''***'' \<or> already_masked_email v"
  then show "mask_email v = v"
  proof
    assume "already_masked_email v"
    then obtain x d where v: "v = (x # ''***'') @ CHR ''@'' # d" "x \<noteq> CHR ''@''" "byte x < 128"
      "d \<noteq> []" "CHR ''@'' \<notin> set d"
      by (auto simp: already_masked_email_def)
    then have "CHR ''@'' \<notin> set (x # ''***'')" by simp
    from mask_email_split[OF this v(5)] v show ?thesis by simp
  qed (simp add: mask_email_other)
qed

lemma star_not_digit [simp]: "\<not> is_digit (CHR ''*'')"
  by (simp add: is_digit_def)

lemma mask_phone_fixpoint: "mask_phone v = v \<longleftrightarrow> v = ''***''"
proof
  assume "mask_phone v = v"
  then show "v = ''***''"
  proof (cases v rule: mask_phone_cases)
    case (kept ds)
    then have v: "v = ''***'' @ ds" using \<open>mask_phone v = v\<close> by simp
    have "filter is_digit v = ds" unfolding v using kept(2) by simp
    with kept(1) have "mask_phone v = ''***''" by (simp add: mask_phone_def kFullRedaction_def)
    with \<open>mask_phone v = v\<close> show ?thesis by simp
  qed simp
qed (simp add: mask_phone_def kFullRedaction_def)

lemma mask_credit_card_fixpoint: "mask_credit_card v = v \<longleftrightarrow> v = ''***''"
proof
  assume "mask_credit_card v = v"
  then show "v = ''***''"
  proof (cases v rule: mask_credit_card_cases)
    case (kept ds)
    then have v: "v = ''****'' @ ds" using \<open>mask_credit_card v = v\<close> by simp
    have "CHR ''*'' \<in> set v" unfolding v by simp
    then have "\<exists>c \<in> set v. c \<noteq> CHR '' '' \<and> c \<noteq> CHR ''-'' \<and> \<not> is_digit c"
      by (rule bexI[rotated]) simp
    then have "card_digits v = None" unfolding card_digits_eq by simp
    with \<open>mask_credit_card v = v\<close> show ?thesis by (simp add: mask_credit_card_def kFullRedaction_def)
  qed simp
qed (simp add: mask_credit_card_def kFullRedaction_def)

text \<open>How many digits of a phone or card number survive.\<close>

lemma masked_digits_bound:
  "c \<noteq> PiiEmail \<Longrightarrow> length (filter is_digit (mask_value c v)) \<le> 4"
proof (cases c)
  case PiiPhone
  then show ?thesis by (cases v rule: mask_phone_cases) simp_all
next
  case PiiCreditCard
  then show ?thesis by (cases v rule: mask_credit_card_cases) simp_all
qed simp

section \<open>Lemmas on masking a result\<close>

text \<open>A cell masked by the classification of its own column.\<close>

definition mask_by_class :: "ColumnClassification \<Rightarrow> cell \<Rightarrow> cell" where
  "mask_by_class c x =
     (if cc_data_class c \<noteq> Pii then x
      else case cc_pii_category c of None \<Rightarrow> x | Some category \<Rightarrow> mask_cell category x)"

lemma mask_column_eq: "mask_column classes col rows =
    map (\<lambda>row. row[col := mask_by_class (classes ! col) (row ! col)]) rows"
  by (auto simp: mask_column_def mask_by_class_def Let_def split: option.split)

lemma fold_mask_column:
  "fold (mask_column classes) cols rows =
     map (fold (\<lambda>col row. row[col := mask_by_class (classes ! col) (row ! col)]) cols) rows"
  by (induction cols arbitrary: rows) (simp_all add: mask_column_eq)

lemma fold_update_nth:
  assumes "n \<le> length row"
  shows "fold (\<lambda>col row. row[col := f col (row ! col)]) [0..<n] row =
         map (\<lambda>i. f i (row ! i)) [0..<n] @ drop n row"
  using assms
proof (induction n)
  case (Suc n)
  then have "drop n row = row ! n # drop (Suc n) row" by (simp add: Cons_nth_drop_Suc)
  with Suc show ?case by (simp add: nth_append list_update_append)
qed simp

lemma fold_mask_rows:
  assumes "length row = n"
  shows "fold (\<lambda>col row. row[col := mask_by_class (classes ! col) (row ! col)]) [0..<n] row =
         map (\<lambda>i. mask_by_class (classes ! i) (row ! i)) [0..<n]"
  using fold_update_nth[of n row "\<lambda>i. mask_by_class (classes ! i)"] assms by simp

lemma mask_rows_eq:
  assumes "\<forall>row \<in> set rows. length row = n" and "length classes = n"
  shows "fold (mask_column classes) [0..<n] rows = map (map2 mask_by_class classes) rows"
proof -
  have "fold (\<lambda>col row. row[col := mask_by_class (classes ! col) (row ! col)]) [0..<n] row =
      map2 mask_by_class classes row" if "row \<in> set rows" for row
    using that assms by (simp add: fold_mask_rows) (auto intro!: nth_equalityI)
  then show ?thesis by (simp add: fold_mask_column)
qed

lemma scan_classification_eq:
  "scan_classification u cs =
     (if \<forall>c \<in> set cs. cc_data_class c = Pii \<longleftrightarrow> cc_pii_category c \<noteq> None
      then Some (u \<or> (\<exists>c \<in> set cs. cc_data_class c = Unattributed)) else None)"
  by (induction cs arbitrary: u) auto

lemma preflight_well_formed:
  assumes "well_formed_classification (length (ex_columns r)) c" and "rectangular r"
  shows "preflight r c = (if cr_fully_attributed c then None else Some UnattributedColumn)"
proof -
  have rows: "\<not> list_ex (\<lambda>row. length row \<noteq> length (ex_columns r)) (ex_rows r)"
    using assms(2) by (simp add: rectangular_def list_ex_iff)
  show ?thesis using assms(1) rows
    by (auto simp: preflight_def Let_def well_formed_classification_def scan_classification_eq)
qed

lemma preflight_None:
  "preflight r c = None \<longleftrightarrow>
     rectangular r \<and> well_formed_classification (length (ex_columns r)) c \<and> cr_fully_attributed c"
proof
  assume "preflight r c = None"
  then show "rectangular r \<and> well_formed_classification (length (ex_columns r)) c \<and> cr_fully_attributed c"
    by (auto simp: preflight_def Let_def rectangular_def list_ex_iff well_formed_classification_def
        scan_classification_eq split: if_splits option.splits)
qed (simp add: preflight_well_formed)

text \<open>What a successful masking returns: every cell masked by its own column's class.\<close>

lemma mask_success_iff:
  "mask_result r c = MaskSuccess r' \<longleftrightarrow>
     rectangular r \<and> well_formed_classification (length (ex_columns r)) c \<and> cr_fully_attributed c \<and>
     r' = r\<lparr>ex_rows := map (map2 mask_by_class (cr_columns c)) (ex_rows r)\<rparr>"
proof (cases "preflight r c")
  case None
  then have "rectangular r" "length (cr_columns c) = length (ex_columns r)"
    by (simp_all add: preflight_None well_formed_classification_def)
  then have "fold (mask_column (cr_columns c)) [0..<length (ex_columns r)] (ex_rows r) =
      map (map2 mask_by_class (cr_columns c)) (ex_rows r)"
    by (intro mask_rows_eq) (simp_all add: rectangular_def)
  with None preflight_None[of r c] show ?thesis by (auto simp: mask_result_def)
next
  case (Some reason)
  then have "\<not> (rectangular r \<and> well_formed_classification (length (ex_columns r)) c \<and> cr_fully_attributed c)"
    using preflight_None[of r c] by auto
  with Some show ?thesis by (auto simp: mask_result_def)
qed

context classifier_contract
begin

lemma mask_classified:
  assumes "rectangular r"
  shows "mask_result r (classifier a (ex_columns r)) =
    (if cr_fully_attributed (classifier a (ex_columns r))
     then MaskSuccess (r\<lparr>ex_rows := map (map2 mask_by_class (cr_columns (classifier a (ex_columns r)))) (ex_rows r)\<rparr>)
     else MaskFailure UnattributedColumn)"
proof (cases "cr_fully_attributed (classifier a (ex_columns r))")
  case True
  then show ?thesis
    using assms classifier_well_formed mask_success_iff[of r "classifier a (ex_columns r)"] by auto
next
  case False
  then show ?thesis
    using preflight_well_formed[OF classifier_well_formed assms] by (simp add: mask_result_def)
qed

end

section \<open>Properties\<close>

text \<open>
  C25. The mask of an e-mail value: with exactly one at-sign between two non-empty parts it is the
  first byte of the local part, if that is ASCII, then three stars, the at-sign and the domain; in
  every other case it is three stars and nothing of the value.
\<close>

theorem mask_email_spec:
  "(CHR ''@'' \<notin> set l \<and> CHR ''@'' \<notin> set d \<and> l \<noteq> [] \<and> d \<noteq> [] \<longrightarrow>
      mask_email (l @ ''@'' @ d) = (if byte (hd l) < 128 then [hd l] else []) @ ''***@'' @ d) \<and>
   ((\<nexists>l d. v = l @ ''@'' @ d \<and> l \<noteq> [] \<and> d \<noteq> [] \<and> CHR ''@'' \<notin> set l \<and> CHR ''@'' \<notin> set d) \<longrightarrow>
      mask_email v = ''***'')"
proof (intro conjI impI)
  assume "CHR ''@'' \<notin> set l \<and> CHR ''@'' \<notin> set d \<and> l \<noteq> [] \<and> d \<noteq> []"
  then show "mask_email (l @ ''@'' @ d) = (if byte (hd l) < 128 then [hd l] else []) @ ''***@'' @ d"
    using mask_email_split[of l d] by simp
next
  assume none: "\<nexists>l d. v = l @ ''@'' @ d \<and> l \<noteq> [] \<and> d \<noteq> [] \<and> CHR ''@'' \<notin> set l \<and> CHR ''@'' \<notin> set d"
  show "mask_email v = ''***''"
    by (cases v rule: mask_email_cases) (use none in auto)
qed

theorem mask_email_spec_witness:
  "mask_email (''lihi.roas'' @ ''@'' @ ''example.com'') = ''l***@example.com'' \<and> mask_email ''@x'' = ''***''"
proof
  show "mask_email (''lihi.roas'' @ ''@'' @ ''example.com'') = ''l***@example.com''"
    using mask_email_spec[of "''lihi.roas''" "''example.com''" "[]"] by simp
  show "mask_email ''@x'' = ''***''"
    using mask_email_spec[of "[]" "[]" "''@x''"] by (auto simp: Cons_eq_append_conv)
qed

text \<open>
  C26. What a masked phone or card number shows: no digit or the last four digits of the value, no
  other byte of it, in at most eight bytes; and no digit at all when the value has fewer than seven
  (phone) or twelve (card) digits.
\<close>

theorem mask_numbers:
  assumes "c \<noteq> PiiEmail"
  shows "\<exists>shown. suffix shown (filter is_digit v) \<and> length shown \<in> {0, 4} \<and>
    mask_value c v \<in> {''***'' @ shown, ''****'' @ shown} \<and>
    (length (filter is_digit v) < (if c = PiiPhone then 7 else 12) \<longrightarrow> shown = [])"
proof (cases c)
  case PiiPhone
  have short: "length (filter is_digit v) < 7 \<Longrightarrow> mask_phone v = ''***''"
    by (simp add: mask_phone_def kFullRedaction_def)
  show ?thesis
  proof (cases v rule: mask_phone_cases)
    case redacted
    then show ?thesis by (intro exI[of _ "[]"]) (simp add: PiiPhone)
  next
    case (kept ds)
    then show ?thesis using short by (intro exI[of _ ds]) (auto simp: PiiPhone)
  qed
next
  case PiiCreditCard
  have short: "length (filter is_digit v) < 12 \<Longrightarrow> mask_credit_card v = ''***''"
    by (simp add: mask_credit_card_def kFullRedaction_def card_digits_eq)
  show ?thesis
  proof (cases v rule: mask_credit_card_cases)
    case redacted
    then show ?thesis by (intro exI[of _ "[]"]) (simp add: PiiCreditCard)
  next
    case (kept ds)
    then show ?thesis using short by (intro exI[of _ ds]) (auto simp: PiiCreditCard)
  qed
qed (use assms in simp)

theorem mask_numbers_witness:
  "\<exists>shown. suffix shown (filter is_digit ''050-123 01 01'') \<and>
     mask_value PiiPhone ''050-123 01 01'' \<in> {''***'' @ shown, ''****'' @ shown}"
  using mask_numbers[of PiiPhone "''050-123 01 01''"] by blast

text \<open>
  C27. The values masking returns unchanged: the full redaction itself, and in an e-mail column a
  value that already has the masked form with one kept byte. Every other value is changed.
\<close>

theorem mask_fixpoints:
  "mask_value c v = v \<longleftrightarrow> v = ''***'' \<or> c = PiiEmail \<and> already_masked_email v"
  by (cases c) (simp_all add: mask_email_fixpoint mask_phone_fixpoint mask_credit_card_fixpoint)

text \<open>
  C28. The masker, on every input: a shape mismatch, an inconsistent classification and an
  unattributed column are refused in this order and with their own reason; otherwise the result is
  the given one with every cell masked by the class of its own column, although the code masks in
  place, column by column.
\<close>

theorem mask_result_spec:
  "mask_result r c =
    (if \<not> (length (cr_columns c) = length (ex_columns r) \<and> rectangular r) then MaskFailure StructuralMismatch
     else if \<not> well_formed_classification (length (ex_columns r)) c then MaskFailure InvalidClassification
     else if \<not> cr_fully_attributed c then MaskFailure UnattributedColumn
     else MaskSuccess (r\<lparr>ex_rows := map (map2 mask_by_class (cr_columns c)) (ex_rows r)\<rparr>))"
proof (cases "length (cr_columns c) \<noteq> length (ex_columns r) \<or> \<not> rectangular r")
  case True
  then show ?thesis by (auto simp: mask_result_def preflight_def Let_def rectangular_def list_ex_iff)
next
  case False
  then have rows: "\<not> list_ex (\<lambda>row. length row \<noteq> length (ex_columns r)) (ex_rows r)"
    by (simp add: rectangular_def list_ex_iff)
  show ?thesis
  proof (cases "well_formed_classification (length (ex_columns r)) c")
    case wf: True
    show ?thesis
    proof (cases "cr_fully_attributed c")
      case True
      then have "mask_result r c = MaskSuccess (r\<lparr>ex_rows := map (map2 mask_by_class (cr_columns c)) (ex_rows r)\<rparr>)"
        using wf False by (simp add: mask_success_iff)
      with True wf False show ?thesis by simp
    next
      case not_full: False
      then show ?thesis using False wf by (simp add: mask_result_def preflight_well_formed)
    qed
  next
    case nwf: False
    have "preflight r c = Some InvalidClassification"
    proof (cases "\<forall>x \<in> set (cr_columns c). cc_data_class x = Pii \<longleftrightarrow> cc_pii_category x \<noteq> None")
      case True
      with nwf False have "cr_fully_attributed c \<noteq> (\<not> (\<exists>x \<in> set (cr_columns c). cc_data_class x = Unattributed))"
        by (simp add: well_formed_classification_def)
      with True False rows show ?thesis by (simp add: preflight_def scan_classification_eq)
    next
      case bad: False
      then have "scan_classification False (cr_columns c) = None"
        unfolding scan_classification_eq by (rule if_not_P)
      with False rows show ?thesis by (simp add: preflight_def)
    qed
    then show ?thesis using False nwf by (simp add: mask_result_def)
  qed
qed

end
