(* ===== verification/Audit_Record.thy ===== *)
theory Audit_Record
  imports Policy_Engine
begin

text \<open>
  \<open>AuditRecord\<close>, \<open>src/src/core/audit_record.cpp\<close> and \<open>.h\<close>, and the audit
  port \<open>src/src/ports/audit_repository.h\<close>. The \<open>std::variant\<close> of details is the
  datatype \<open>Details\<close>; the factories return the exception they throw on an invalid
  combination; \<open>size_t\<close> counts are \<open>nat\<close> (they are only copied), the request id is a
  64-bit word.
\<close>

section \<open>Data\<close>

datatype AuditOutcome =
  OutSuccess | OutParsingFailure | OutPolicyRejected | OutDatabaseFailure | OutMaskingRefused
| OutInternalFailure

fun AuditOutcome_to_string :: "AuditOutcome \<Rightarrow> string" where
  "AuditOutcome_to_string OutSuccess = ''SUCCESS''"
| "AuditOutcome_to_string OutParsingFailure = ''PARSING_FAILURE''"
| "AuditOutcome_to_string OutPolicyRejected = ''POLICY_REJECTED''"
| "AuditOutcome_to_string OutDatabaseFailure = ''DATABASE_FAILURE''"
| "AuditOutcome_to_string OutMaskingRefused = ''MASKING_REFUSED''"
| "AuditOutcome_to_string OutInternalFailure = ''INTERNAL_FAILURE''"

datatype AuditTableState = TabAbsent | TabPresent | TabOmitted

record AuditTableMetadata =
  tm_state :: AuditTableState
  tm_tables :: "string list"

datatype DbFailureCategory = DbConnectionFailure | DbExecutionFailure

fun DbFailureCategory_to_string :: "DbFailureCategory \<Rightarrow> string" where
  "DbFailureCategory_to_string DbConnectionFailure = ''CONNECTION_FAILURE''"
| "DbFailureCategory_to_string DbExecutionFailure = ''EXECUTION_FAILURE''"

record PiiSummary =
  email_columns :: nat
  phone_columns :: nat
  credit_card_columns :: nat

record SuccessDetails =
  sd_statement_type :: StatementType
  sd_row_count :: nat
  sd_column_count :: nat
  sd_pii :: PiiSummary

record WriteSuccessDetails =
  wd_statement_type :: StatementType
  wd_affected_rows :: nat

record PolicyRejectedDetails =
  pj_reason :: RejectReason
  pj_statement_type :: StatementType
  pj_statement_count :: nat

record DatabaseFailureDetails =
  df_category :: DbFailureCategory
  df_statement_type :: StatementType

record MaskingRefusedDetails =
  mr_statement_type :: StatementType
  mr_column_count :: nat

datatype Details =
  DSuccess SuccessDetails
| DWriteSuccess WriteSuccessDetails
| DParsingFailure
| DPolicyRejected PolicyRejectedDetails
| DDatabaseFailure DatabaseFailureDetails
| DMaskingRefused MaskingRefusedDetails
| DInternalFailure

record AuditRecord =
  ar_timestamp_ms :: int
  ar_request_id :: "64 word"
  ar_referenced_tables :: AuditTableMetadata
  ar_details :: Details

section \<open>Table names\<close>

definition kMaxReferencedTables :: nat where
  "kMaxReferencedTables = 8"

definition kMaxTableNameLength :: nat where
  "kMaxTableNameLength = 63"

definition name_first_ok :: "char \<Rightarrow> bool" where
  "name_first_ok c \<longleftrightarrow> is_upper c \<or> is_lower c \<or> c = CHR ''_''"

definition name_rest_ok :: "char \<Rightarrow> bool" where
  "name_rest_ok c \<longleftrightarrow> is_upper c \<or> is_lower c \<or> is_digit c \<or> c = CHR ''_'' \<or> c = CHR ''$''"

definition is_valid_table_name :: "string \<Rightarrow> bool" where
  "is_valid_table_name name =
     (if name = [] \<or> length name > kMaxTableNameLength then False
      else if \<not> name_first_ok (hd name) then False
      else list_all name_rest_ok (tl name))"

definition classify_tables :: "string list \<Rightarrow> AuditTableMetadata" where
  "classify_tables names =
     (let metadata = \<lparr>tm_state = TabAbsent, tm_tables = []\<rparr> in
      if names = [] then metadata\<lparr>tm_state := TabAbsent\<rparr>
      else if length names > kMaxReferencedTables then metadata\<lparr>tm_state := TabOmitted\<rparr>
      else if list_ex (\<lambda>name. \<not> is_valid_table_name name) names
        then metadata\<lparr>tm_state := TabOmitted\<rparr>
      else metadata\<lparr>tm_state := TabPresent, tm_tables := names\<rparr>)"

section \<open>Construction\<close>

definition require_select :: "StatementType \<Rightarrow> string \<Rightarrow> unit throws" where
  "require_select type factory =
     (if type \<noteq> StSelect
      then Inl (InvalidArgument (factory @
        '' audit records require StatementType::Select: they describe a masked result set''))
      else Inr ())"

definition require_insert :: "StatementType \<Rightarrow> string \<Rightarrow> unit throws" where
  "require_insert type factory =
     (if type \<noteq> StInsert
      then Inl (InvalidArgument (factory @
        '' audit records require StatementType::Insert: it is the only authorized write''))
      else Inr ())"

definition require_select_or_insert :: "StatementType \<Rightarrow> string \<Rightarrow> unit throws" where
  "require_select_or_insert type factory =
     (if type \<noteq> StSelect \<and> type \<noteq> StInsert
      then Inl (InvalidArgument (factory @
        '' audit records require StatementType::Select or StatementType::Insert''))
      else Inr ())"

definition make_AuditRecord :: "int \<Rightarrow> 64 word \<Rightarrow> Details \<Rightarrow> string list \<Rightarrow> AuditRecord" where
  "make_AuditRecord timestamp_ms request_id details referenced_tables =
     \<lparr>ar_timestamp_ms = timestamp_ms, ar_request_id = request_id,
      ar_referenced_tables = classify_tables referenced_tables, ar_details = details\<rparr>"

definition record_success ::
  "int \<Rightarrow> 64 word \<Rightarrow> SuccessDetails \<Rightarrow> string list \<Rightarrow> AuditRecord throws" where
  "record_success ts rid details tables =
     and_then (require_select (sd_statement_type details) ''success'')
       (\<lambda>_. Inr (make_AuditRecord ts rid (DSuccess details) tables))"

definition record_write_success ::
  "int \<Rightarrow> 64 word \<Rightarrow> WriteSuccessDetails \<Rightarrow> string list \<Rightarrow> AuditRecord throws" where
  "record_write_success ts rid details tables =
     and_then (require_insert (wd_statement_type details) ''write_success'')
       (\<lambda>_. Inr (make_AuditRecord ts rid (DWriteSuccess details) tables))"

definition record_parsing_failure :: "int \<Rightarrow> 64 word \<Rightarrow> AuditRecord" where
  "record_parsing_failure ts rid = make_AuditRecord ts rid DParsingFailure []"

definition record_policy_rejected ::
  "int \<Rightarrow> 64 word \<Rightarrow> PolicyRejectedDetails \<Rightarrow> string list \<Rightarrow> AuditRecord throws" where
  "record_policy_rejected ts rid details tables =
     (if pj_reason details = RrNone \<or> pj_reason details = RrNotEvaluated then
        Inl (InvalidArgument ''policy_rejected audit records require a real rejection reason'')
      else if pj_reason details = RrUnparseableSql then
        Inl (InvalidArgument ''parser failures are audited as ParsingFailure, not as PolicyRejected'')
      else Inr (make_AuditRecord ts rid (DPolicyRejected details) tables))"

definition record_database_failure ::
  "int \<Rightarrow> 64 word \<Rightarrow> DatabaseFailureDetails \<Rightarrow> string list \<Rightarrow> AuditRecord throws" where
  "record_database_failure ts rid details tables =
     and_then (require_select_or_insert (df_statement_type details) ''database_failure'')
       (\<lambda>_. Inr (make_AuditRecord ts rid (DDatabaseFailure details) tables))"

definition record_masking_refused ::
  "int \<Rightarrow> 64 word \<Rightarrow> MaskingRefusedDetails \<Rightarrow> string list \<Rightarrow> AuditRecord throws" where
  "record_masking_refused ts rid details tables =
     and_then (require_select (mr_statement_type details) ''masking_refused'')
       (\<lambda>_. Inr (make_AuditRecord ts rid (DMaskingRefused details) tables))"

definition record_internal_failure :: "int \<Rightarrow> 64 word \<Rightarrow> AuditRecord" where
  "record_internal_failure ts rid = make_AuditRecord ts rid DInternalFailure []"

section \<open>Accessors\<close>

definition outcome :: "AuditRecord \<Rightarrow> AuditOutcome" where
  "outcome r =
     (case ar_details r of
        DSuccess _ \<Rightarrow> OutSuccess
      | DWriteSuccess _ \<Rightarrow> OutSuccess
      | DParsingFailure \<Rightarrow> OutParsingFailure
      | DPolicyRejected _ \<Rightarrow> OutPolicyRejected
      | DDatabaseFailure _ \<Rightarrow> OutDatabaseFailure
      | DMaskingRefused _ \<Rightarrow> OutMaskingRefused
      | DInternalFailure \<Rightarrow> OutInternalFailure)"

definition is_write_success :: "AuditRecord \<Rightarrow> bool" where
  "is_write_success r = (case ar_details r of DWriteSuccess _ \<Rightarrow> True | _ \<Rightarrow> False)"

definition success_details :: "AuditRecord \<Rightarrow> SuccessDetails throws" where
  "success_details r = (case ar_details r of DSuccess d \<Rightarrow> Inr d | _ \<Rightarrow> Inl BadVariantAccess)"

definition write_success_details :: "AuditRecord \<Rightarrow> WriteSuccessDetails throws" where
  "write_success_details r =
     (case ar_details r of DWriteSuccess d \<Rightarrow> Inr d | _ \<Rightarrow> Inl BadVariantAccess)"

definition policy_rejected_details :: "AuditRecord \<Rightarrow> PolicyRejectedDetails throws" where
  "policy_rejected_details r =
     (case ar_details r of DPolicyRejected d \<Rightarrow> Inr d | _ \<Rightarrow> Inl BadVariantAccess)"

definition database_failure_details :: "AuditRecord \<Rightarrow> DatabaseFailureDetails throws" where
  "database_failure_details r =
     (case ar_details r of DDatabaseFailure d \<Rightarrow> Inr d | _ \<Rightarrow> Inl BadVariantAccess)"

definition masking_refused_details :: "AuditRecord \<Rightarrow> MaskingRefusedDetails throws" where
  "masking_refused_details r =
     (case ar_details r of DMaskingRefused d \<Rightarrow> Inr d | _ \<Rightarrow> Inl BadVariantAccess)"

section \<open>The audit port\<close>

datatype AuditAppendResult = AppendOk | AppendOpenFailure | AppendWriteFailure

fun AuditAppendResult_to_string :: "AuditAppendResult \<Rightarrow> string" where
  "AuditAppendResult_to_string AppendOk = ''OK''"
| "AuditAppendResult_to_string AppendOpenFailure = ''OPEN_FAILURE''"
| "AuditAppendResult_to_string AppendWriteFailure = ''WRITE_FAILURE''"

type_synonym 'sink audit_repository = "'sink \<Rightarrow> AuditRecord \<Rightarrow> AuditAppendResult throws \<times> 'sink"

text \<open>
  The contract of \<open>IAuditRepository::append\<close>: no exception escapes, what is stored is only
  ever extended, and \<open>Ok\<close> means that the whole rendering of the record was added.
\<close>

locale audit_repository_port =
  fixes append :: "'sink audit_repository"
    and stored :: "'sink \<Rightarrow> 'e list"
    and rendering :: "AuditRecord \<Rightarrow> 'e list"
  assumes append_no_throw: "no_throw (fst (append sink rec))"
    and append_extends: "prefix (stored sink) (stored (snd (append sink rec)))"
    and append_ok:
      "fst (append sink rec) = Inr AppendOk \<Longrightarrow> stored (snd (append sink rec)) = stored sink @ rendering rec"

section \<open>Lemmas\<close>

text \<open>The constraints the factories enforce, as an invariant of a record.\<close>

fun valid_details :: "Details \<Rightarrow> bool" where
  "valid_details (DSuccess d) = (sd_statement_type d = StSelect)"
| "valid_details (DWriteSuccess d) = (wd_statement_type d = StInsert)"
| "valid_details DParsingFailure = True"
| "valid_details (DPolicyRejected d) = (pj_reason d \<notin> {RrNone, RrNotEvaluated, RrUnparseableSql})"
| "valid_details (DDatabaseFailure d) = (df_statement_type d \<in> {StSelect, StInsert})"
| "valid_details (DMaskingRefused d) = (mr_statement_type d = StSelect)"
| "valid_details DInternalFailure = True"

definition valid_tables :: "AuditTableMetadata \<Rightarrow> bool" where
  "valid_tables m \<longleftrightarrow>
     (tm_state m = TabPresent \<longleftrightarrow> tm_tables m \<noteq> []) \<and>
     length (tm_tables m) \<le> kMaxReferencedTables \<and>
     (\<forall>name \<in> set (tm_tables m). is_valid_table_name name)"

definition valid_record :: "AuditRecord \<Rightarrow> bool" where
  "valid_record r \<longleftrightarrow> valid_details (ar_details r) \<and> valid_tables (ar_referenced_tables r) \<and>
     (outcome r \<in> {OutParsingFailure, OutInternalFailure} \<longrightarrow> tm_state (ar_referenced_tables r) = TabAbsent)"

lemma make_AuditRecord_simps [simp]:
  "ar_timestamp_ms (make_AuditRecord ts rid d tabs) = ts"
  "ar_request_id (make_AuditRecord ts rid d tabs) = rid"
  "ar_details (make_AuditRecord ts rid d tabs) = d"
  "ar_referenced_tables (make_AuditRecord ts rid d tabs) = classify_tables tabs"
  by (simp_all add: make_AuditRecord_def)

lemma classify_tables_Nil [simp]: "classify_tables [] = \<lparr>tm_state = TabAbsent, tm_tables = []\<rparr>"
  by (simp add: classify_tables_def)

lemma classify_tables_iff:
  "tm_state (classify_tables names) = TabAbsent \<longleftrightarrow> names = []"
  "tm_state (classify_tables names) = TabPresent \<longleftrightarrow>
     names \<noteq> [] \<and> length names \<le> kMaxReferencedTables \<and> (\<forall>n \<in> set names. is_valid_table_name n)"
  "tm_tables (classify_tables names) = (if tm_state (classify_tables names) = TabPresent then names else [])"
  by (auto simp: classify_tables_def Let_def list_ex_iff)

lemma classify_tables_valid: "valid_tables (classify_tables names)"
  by (auto simp: valid_tables_def classify_tables_def Let_def list_ex_iff)

text \<open>What each factory returns: a record, or an exception exactly on an invalid combination.\<close>

lemma factory_eqs:
  "record_success ts rid d tabs =
     (if sd_statement_type d = StSelect then Inr (make_AuditRecord ts rid (DSuccess d) tabs)
      else Inl (InvalidArgument (''success'' @
        '' audit records require StatementType::Select: they describe a masked result set'')))"
  "record_write_success ts rid w tabs =
     (if wd_statement_type w = StInsert then Inr (make_AuditRecord ts rid (DWriteSuccess w) tabs)
      else Inl (InvalidArgument (''write_success'' @
        '' audit records require StatementType::Insert: it is the only authorized write'')))"
  "record_database_failure ts rid f tabs =
     (if df_statement_type f \<in> {StSelect, StInsert}
      then Inr (make_AuditRecord ts rid (DDatabaseFailure f) tabs)
      else Inl (InvalidArgument (''database_failure'' @
        '' audit records require StatementType::Select or StatementType::Insert'')))"
  "record_masking_refused ts rid m tabs =
     (if mr_statement_type m = StSelect then Inr (make_AuditRecord ts rid (DMaskingRefused m) tabs)
      else Inl (InvalidArgument (''masking_refused'' @
        '' audit records require StatementType::Select: they describe a masked result set'')))"
  by (simp_all add: record_success_def record_write_success_def record_database_failure_def
      record_masking_refused_def require_select_def require_insert_def require_select_or_insert_def
      del: append_Cons append_Nil)

lemma policy_rejected_ok:
  "pj_reason d \<notin> {RrNone, RrNotEvaluated, RrUnparseableSql} \<Longrightarrow>
     record_policy_rejected ts rid d tabs = Inr (make_AuditRecord ts rid (DPolicyRejected d) tabs)"
  by (simp add: record_policy_rejected_def)

lemma make_AuditRecord_valid:
  "valid_details d \<Longrightarrow> (d \<in> {DParsingFailure, DInternalFailure} \<longrightarrow> tabs = []) \<Longrightarrow>
     valid_record (make_AuditRecord ts rid d tabs)"
  by (auto simp: valid_record_def classify_tables_valid outcome_def split: Details.splits)

lemma factories_valid:
  "record_success ts rid d tabs = Inr r \<Longrightarrow> valid_record r"
  "record_write_success ts rid w tabs = Inr r \<Longrightarrow> valid_record r"
  "record_policy_rejected ts rid p tabs = Inr r \<Longrightarrow> valid_record r"
  "record_database_failure ts rid f tabs = Inr r \<Longrightarrow> valid_record r"
  "record_masking_refused ts rid m tabs = Inr r \<Longrightarrow> valid_record r"
  "valid_record (record_parsing_failure ts rid)"
  "valid_record (record_internal_failure ts rid)"
  by (auto simp: factory_eqs record_policy_rejected_def record_parsing_failure_def
      record_internal_failure_def split: if_splits intro!: make_AuditRecord_valid)

text \<open>Every byte of an accepted table name is an ASCII identifier byte.\<close>

lemma valid_table_name_bytes:
  assumes "is_valid_table_name name" and "c \<in> set name"
  shows "name_rest_ok c"
proof (cases name)
  case (Cons x xs)
  then have "name_rest_ok x" "list_all name_rest_ok xs"
    using assms(1) by (auto simp: is_valid_table_name_def name_first_ok_def name_rest_ok_def split: if_splits)
  then show ?thesis using assms(2) Cons by (auto simp: list_all_iff)
qed (use assms in simp)

lemma name_rest_ok_byte: "name_rest_ok c \<Longrightarrow> 36 \<le> byte c \<and> byte c \<le> 122"
  by (auto simp: name_rest_ok_def is_upper_def is_lower_def is_digit_def)

text \<open>An accepted table name, without the special case of its first byte.\<close>

lemma valid_table_name_iff:
  "is_valid_table_name name \<longleftrightarrow>
     length name \<in> {1..63} \<and> list_all name_rest_ok name \<and> \<not> is_digit (hd name) \<and> hd name \<noteq> CHR ''$''"
proof (cases name)
  case (Cons c cs)
  have "name_first_ok c \<longleftrightarrow> name_rest_ok c \<and> \<not> is_digit c \<and> c \<noteq> CHR ''$''"
    by (auto simp: name_first_ok_def name_rest_ok_def is_upper_def is_lower_def is_digit_def)
  then show ?thesis by (auto simp: Cons is_valid_table_name_def kMaxTableNameLength_def)
qed (simp add: is_valid_table_name_def)

section \<open>Properties\<close>

text \<open>
  Table metadata is all or nothing: the list is absent exactly when no table was referenced,
  present with every name exactly when there are at most eight and all are plain ASCII identifiers
  of at most 63 bytes, and otherwise omitted as a whole; a name is never shortened or dropped alone.
\<close>

theorem tables_all_or_nothing:
  "(tm_state (classify_tables names) = TabAbsent \<longleftrightarrow> names = []) \<and>
   (tm_state (classify_tables names) = TabPresent \<longleftrightarrow>
      names \<noteq> [] \<and> length names \<le> 8 \<and> list_all is_valid_table_name names) \<and>
   tm_tables (classify_tables names) = (if tm_state (classify_tables names) = TabPresent then names else []) \<and>
   (is_valid_table_name name \<longleftrightarrow>
      length name \<in> {1..63} \<and> list_all name_rest_ok name \<and> \<not> is_digit (hd name) \<and> hd name \<noteq> CHR ''$'')"
  using classify_tables_iff[of names] by (simp add: valid_table_name_iff kMaxReferencedTables_def list_all_iff)

text \<open>
  What a record says of the tables, written apart from the code: all of at most eight plain
  identifiers of at most 63 bytes, or nothing.
\<close>

definition plain_identifier :: "string \<Rightarrow> bool" where
  "plain_identifier name \<longleftrightarrow>
     length name \<in> {1..63} \<and> \<not> is_digit (hd name) \<and> hd name \<noteq> CHR ''$'' \<and>
     (\<forall>c \<in> set name. is_upper c \<or> is_lower c \<or> is_digit c \<or> c = CHR ''_'' \<or> c = CHR ''$'')"

definition recorded_tables :: "string list \<Rightarrow> AuditTableMetadata" where
  "recorded_tables names =
     (if names = [] then \<lparr>tm_state = TabAbsent, tm_tables = []\<rparr>
      else if length names \<le> 8 \<and> (\<forall>name \<in> set names. plain_identifier name)
        then \<lparr>tm_state = TabPresent, tm_tables = names\<rparr>
      else \<lparr>tm_state = TabOmitted, tm_tables = []\<rparr>)"

lemma plain_identifier_iff: "is_valid_table_name name \<longleftrightarrow> plain_identifier name"
  using valid_table_name_iff[of name] by (auto simp: plain_identifier_def name_rest_ok_def list_all_iff)

lemma classify_tables_recorded: "classify_tables names = recorded_tables names"
  by (auto simp: classify_tables_def recorded_tables_def Let_def list_ex_iff plain_identifier_iff kMaxReferencedTables_def)

text \<open>What the accessors give on a record with these details: its own ones, and an exception otherwise.\<close>

definition reads_back :: "Details \<Rightarrow> AuditRecord \<Rightarrow> bool" where
  "reads_back details rec \<longleftrightarrow>
     success_details rec = (case details of DSuccess d \<Rightarrow> Inr d | _ \<Rightarrow> Inl BadVariantAccess) \<and>
     write_success_details rec = (case details of DWriteSuccess d \<Rightarrow> Inr d | _ \<Rightarrow> Inl BadVariantAccess) \<and>
     policy_rejected_details rec = (case details of DPolicyRejected d \<Rightarrow> Inr d | _ \<Rightarrow> Inl BadVariantAccess) \<and>
     database_failure_details rec = (case details of DDatabaseFailure d \<Rightarrow> Inr d | _ \<Rightarrow> Inl BadVariantAccess) \<and>
     masking_refused_details rec = (case details of DMaskingRefused d \<Rightarrow> Inr d | _ \<Rightarrow> Inl BadVariantAccess)"

text \<open>
  What a factory gives back: on an admissible combination the record with exactly the given time,
  id, details and tables, of the given outcome, and otherwise an invalid-argument exception.
\<close>

definition made ::
  "int \<Rightarrow> 64 word \<Rightarrow> string list \<Rightarrow> Details \<Rightarrow> AuditOutcome \<Rightarrow> bool \<Rightarrow> AuditRecord throws \<Rightarrow> bool" where
  "made ts rid names details oc admissible r =
     (case r of
        Inl e \<Rightarrow> \<not> admissible \<and> (\<exists>msg. e = InvalidArgument msg)
      | Inr rec \<Rightarrow> admissible \<and> valid_record rec \<and> outcome rec = oc \<and> reads_back details rec \<and>
          rec = \<lparr>ar_timestamp_ms = ts, ar_request_id = rid, ar_referenced_tables = recorded_tables names,
                 ar_details = details\<rparr>)"

lemma madeI:
  assumes "valid_details details" and "details \<in> {DParsingFailure, DInternalFailure} \<longrightarrow> names = []"
    and "outcome (make_AuditRecord ts rid details names) = oc"
  shows "made ts rid names details oc True (Inr (make_AuditRecord ts rid details names))"
proof -
  let ?rec = "make_AuditRecord ts rid details names"
  have "reads_back details ?rec"
    by (cases details) (simp_all add: reads_back_def success_details_def write_success_details_def
        policy_rejected_details_def database_failure_details_def masking_refused_details_def)
  moreover have "?rec = \<lparr>ar_timestamp_ms = ts, ar_request_id = rid, ar_referenced_tables = recorded_tables names,
      ar_details = details\<rparr>"
    by (simp add: make_AuditRecord_def classify_tables_recorded)
  ultimately show ?thesis
    using make_AuditRecord_valid[OF assms(1,2), of ts rid] assms(3) by (simp add: made_def)
qed

lemma made_refused: "made ts rid names details oc False (Inl (InvalidArgument msg))"
  by (simp add: made_def)

text \<open>
  C29. The factories are the only way to a record and enforce its constraints: each of them, on an
  admissible combination, returns the record that has the given time and id, the outcome of that
  factory, the given details, which only their own accessor reads back, and the given tables, all of
  them or none; on every other combination it raises an invalid-argument exception. The record of a
  failed execution may be that of a SELECT or of an INSERT.
\<close>

theorem factories_exact:
  "made ts rid tabs (DSuccess d) OutSuccess (sd_statement_type d = StSelect) (record_success ts rid d tabs) \<and>
   made ts rid tabs (DWriteSuccess w) OutSuccess (wd_statement_type w = StInsert) (record_write_success ts rid w tabs) \<and>
   made ts rid tabs (DPolicyRejected p) OutPolicyRejected (pj_reason p \<notin> {RrNone, RrNotEvaluated, RrUnparseableSql})
     (record_policy_rejected ts rid p tabs) \<and>
   made ts rid tabs (DDatabaseFailure f) OutDatabaseFailure (df_statement_type f \<in> {StSelect, StInsert})
     (record_database_failure ts rid f tabs) \<and>
   made ts rid tabs (DMaskingRefused m) OutMaskingRefused (mr_statement_type m = StSelect)
     (record_masking_refused ts rid m tabs) \<and>
   made ts rid [] DParsingFailure OutParsingFailure True (Inr (record_parsing_failure ts rid)) \<and>
   made ts rid [] DInternalFailure OutInternalFailure True (Inr (record_internal_failure ts rid))"
proof (intro conjI)
  show "made ts rid tabs (DSuccess d) OutSuccess (sd_statement_type d = StSelect) (record_success ts rid d tabs)"
    by (auto simp: factory_eqs made_refused outcome_def intro!: madeI)
  show "made ts rid tabs (DWriteSuccess w) OutSuccess (wd_statement_type w = StInsert) (record_write_success ts rid w tabs)"
    by (auto simp: factory_eqs made_refused outcome_def intro!: madeI)
  show "made ts rid tabs (DPolicyRejected p) OutPolicyRejected (pj_reason p \<notin> {RrNone, RrNotEvaluated, RrUnparseableSql})
     (record_policy_rejected ts rid p tabs)"
    by (auto simp: record_policy_rejected_def made_refused outcome_def intro!: madeI)
  show "made ts rid tabs (DDatabaseFailure f) OutDatabaseFailure (df_statement_type f \<in> {StSelect, StInsert})
     (record_database_failure ts rid f tabs)"
    by (auto simp: factory_eqs made_refused outcome_def intro!: madeI)
  show "made ts rid tabs (DMaskingRefused m) OutMaskingRefused (mr_statement_type m = StSelect)
     (record_masking_refused ts rid m tabs)"
    by (auto simp: factory_eqs made_refused outcome_def intro!: madeI)
qed (simp_all add: record_parsing_failure_def record_internal_failure_def outcome_def madeI)

end
