(* ===== verification/Proxy_Service.thy ===== *)
theory Proxy_Service
  imports Pii_Masker Audit_Record
begin

text \<open>
  \<open>ProxyService\<close>, \<open>src/src/core/proxy_service.cpp\<close>: the pipeline and the one audit
  append. The three injected ports are a record of functions; the database behind the executor
  and the sink behind the audit repository are values threaded through the calls, so a theorem can
  say which of them a request may change. Each port function may throw; the pipeline's
  \<open>catch (...)\<close> is the case distinction in \<open>handle\<close>. The clock reading is the
  argument \<open>timestamp_ms\<close>.
\<close>

section \<open>Data\<close>

record MaskedQueryResult =
  mq_column_names :: "string list"
  mq_rows :: "cell list list"

record WriteResult =
  wr_affected_rows :: nat

datatype ServiceFailure =
  SfEmptyInput | SfUnparseableSql | SfPolicyRejected | SfDatabaseUnavailable | SfQueryFailed
| SfMaskingRefused | SfInternalError

fun ServiceFailure_to_string :: "ServiceFailure \<Rightarrow> string" where
  "ServiceFailure_to_string SfEmptyInput = ''empty_sql''"
| "ServiceFailure_to_string SfUnparseableSql = ''invalid_sql''"
| "ServiceFailure_to_string SfPolicyRejected = ''policy_rejected''"
| "ServiceFailure_to_string SfDatabaseUnavailable = ''database_unavailable''"
| "ServiceFailure_to_string SfQueryFailed = ''query_failed''"
| "ServiceFailure_to_string SfMaskingRefused = ''masking_refused''"
| "ServiceFailure_to_string SfInternalError = ''internal_error''"

datatype ServiceResult =
  SrSuccess MaskedQueryResult | SrWriteSuccess WriteResult | SrFailure ServiceFailure

fun succeeded :: "ServiceResult \<Rightarrow> bool" where
  "succeeded (SrFailure f) = False"
| "succeeded (SrSuccess q) = True"
| "succeeded (SrWriteSuccess w) = True"

fun is_write :: "ServiceResult \<Rightarrow> bool" where
  "is_write (SrWriteSuccess w) = True"
| "is_write (SrSuccess q) = False"
| "is_write (SrFailure f) = False"

fun service_result :: "ServiceResult \<Rightarrow> MaskedQueryResult throws" where
  "service_result (SrSuccess q) = Inr q"
| "service_result (SrWriteSuccess w) = Inl BadVariantAccess"
| "service_result (SrFailure f) = Inl BadVariantAccess"

fun service_write_result :: "ServiceResult \<Rightarrow> WriteResult throws" where
  "service_write_result (SrWriteSuccess w) = Inr w"
| "service_write_result (SrSuccess q) = Inl BadVariantAccess"
| "service_write_result (SrFailure f) = Inl BadVariantAccess"

fun service_failure_reason :: "ServiceResult \<Rightarrow> ServiceFailure throws" where
  "service_failure_reason (SrFailure f) = Inr f"
| "service_failure_reason (SrSuccess q) = Inl BadVariantAccess"
| "service_failure_reason (SrWriteSuccess w) = Inl BadVariantAccess"

record Processing =
  pg_result :: ServiceResult
  pg_record :: AuditRecord

record ('db, 'sink) Adapters =
  ad_parse :: parser
  ad_execute :: "'db executor"
  ad_append :: "'sink audit_repository"

text \<open>
  The state of the service: its members, the database and sink its ports reach, and the lines of
  the system log (\<open>None\<close> while \<open>system_log::logger()\<close> is null).
\<close>

record ('db, 'sink) ProxyService =
  sv_classifier :: mappings
  sv_next_request_id :: "64 word"
  sv_db :: 'db
  sv_sink :: 'sink
  sv_syslog :: "string list option"

section \<open>Operations\<close>

definition make_ProxyService :: "'db \<Rightarrow> 'sink \<Rightarrow> string list option \<Rightarrow> ('db, 'sink) ProxyService throws" where
  "make_ProxyService db sink syslog =
     and_then DataClassifier (\<lambda>classifier.
       Inr \<lparr>sv_classifier = classifier, sv_next_request_id = 1, sv_db = db, sv_sink = sink,
            sv_syslog = syslog\<rparr>)"

definition checked_count :: "int \<Rightarrow> string \<Rightarrow> nat throws" where
  "checked_count value what =
     (if value < 0 then Inl (InvalidArgument (what @ '' must not be negative''))
      else Inr (nat value))"

fun summarize_loop :: "PiiSummary \<Rightarrow> ColumnClassification list \<Rightarrow> PiiSummary" where
  "summarize_loop summary [] = summary"
| "summarize_loop summary (column # rest) =
     (if cc_data_class column \<noteq> Pii then summarize_loop summary rest
      else
        (case cc_pii_category column of
           None \<Rightarrow> summarize_loop summary rest
         | Some PiiEmail \<Rightarrow>
             summarize_loop (summary\<lparr>email_columns := Suc (email_columns summary)\<rparr>) rest
         | Some PiiPhone \<Rightarrow>
             summarize_loop (summary\<lparr>phone_columns := Suc (phone_columns summary)\<rparr>) rest
         | Some PiiCreditCard \<Rightarrow>
             summarize_loop (summary\<lparr>credit_card_columns := Suc (credit_card_columns summary)\<rparr>) rest))"

definition summarize :: "ClassificationResult \<Rightarrow> PiiSummary" where
  "summarize classification =
     summarize_loop \<lparr>email_columns = 0, phone_columns = 0, credit_card_columns = 0\<rparr>
       (cr_columns classification)"

definition to_masked_result :: "ExecutionResult \<Rightarrow> MaskedQueryResult" where
  "to_masked_result m = \<lparr>mq_column_names = map ci_name (ex_columns m), mq_rows = ex_rows m\<rparr>"

fun client_failure_for :: "RejectReason \<Rightarrow> ServiceFailure" where
  "client_failure_for RrEmptyInput = SfEmptyInput"
| "client_failure_for _ = SfPolicyRejected"

text \<open>\<open>process\<close> from the denial branch, the execution-failure branch, the write branch and
  the read branch.\<close>

definition process_denied ::
  "SqlAnalysis \<Rightarrow> PolicyDecision \<Rightarrow> int \<Rightarrow> 64 word \<Rightarrow> Processing throws" where
  "process_denied analysis decision timestamp_ms request_id =
     (if pd_reason decision = RrUnparseableSql then
        Inr \<lparr>pg_result = SrFailure SfUnparseableSql,
             pg_record = record_parsing_failure timestamp_ms request_id\<rparr>
      else
        and_then (checked_count (an_statement_count analysis) ''statement_count'') (\<lambda>count.
        and_then (record_policy_rejected timestamp_ms request_id
                    \<lparr>pj_reason = pd_reason decision, pj_statement_type = an_statement_type analysis,
                     pj_statement_count = count\<rparr> (an_tables analysis)) (\<lambda>rec.
          Inr \<lparr>pg_result = SrFailure (client_failure_for (pd_reason decision)), pg_record = rec\<rparr>)))"

definition process_db_failure ::
  "SqlAnalysis \<Rightarrow> ExecutionResult \<Rightarrow> int \<Rightarrow> 64 word \<Rightarrow> Processing throws" where
  "process_db_failure analysis execution timestamp_ms request_id =
     (let connection = (ex_status execution = ExConnectionFailure) in
      and_then (record_database_failure timestamp_ms request_id
                  \<lparr>df_category = (if connection then DbConnectionFailure else DbExecutionFailure),
                   df_statement_type = an_statement_type analysis\<rparr> (an_tables analysis)) (\<lambda>rec.
        Inr \<lparr>pg_result = SrFailure (if connection then SfDatabaseUnavailable else SfQueryFailed),
             pg_record = rec\<rparr>))"

definition process_write ::
  "SqlAnalysis \<Rightarrow> ExecutionResult \<Rightarrow> int \<Rightarrow> 64 word \<Rightarrow> Processing throws" where
  "process_write analysis execution timestamp_ms request_id =
     and_then (checked_count (ex_affected_rows execution) ''affected_rows'') (\<lambda>affected.
       if affected \<noteq> 1 then
         Inr \<lparr>pg_result = SrFailure SfInternalError,
              pg_record = record_internal_failure timestamp_ms request_id\<rparr>
       else
         and_then (record_write_success timestamp_ms request_id
                     \<lparr>wd_statement_type = an_statement_type analysis, wd_affected_rows = affected\<rparr>
                     (an_tables analysis)) (\<lambda>rec.
           Inr \<lparr>pg_result = SrWriteSuccess \<lparr>wr_affected_rows = affected\<rparr>, pg_record = rec\<rparr>))"

definition process_read ::
  "mappings \<Rightarrow> SqlAnalysis \<Rightarrow> ExecutionResult \<Rightarrow> int \<Rightarrow> 64 word \<Rightarrow> Processing throws" where
  "process_read classifier analysis execution timestamp_ms request_id =
     and_then (checked_count (ex_row_count execution) ''row_count'') (\<lambda>row_count.
       let column_count = length (ex_columns execution);
           classification = classify classifier analysis (ex_columns execution);
           outcome = mask_result execution classification
       in if \<not> masked outcome then
            and_then (failure_reason outcome) (\<lambda>reason.
              if reason = UnattributedColumn then
                and_then (record_masking_refused timestamp_ms request_id
                            \<lparr>mr_statement_type = an_statement_type analysis,
                             mr_column_count = column_count\<rparr> (an_tables analysis)) (\<lambda>rec.
                  Inr \<lparr>pg_result = SrFailure SfMaskingRefused, pg_record = rec\<rparr>)
              else Inr \<lparr>pg_result = SrFailure SfInternalError,
                        pg_record = record_internal_failure timestamp_ms request_id\<rparr>)
          else
            and_then (masked_result outcome) (\<lambda>result.
            and_then (record_success timestamp_ms request_id
                        \<lparr>sd_statement_type = an_statement_type analysis, sd_row_count = row_count,
                         sd_column_count = column_count, sd_pii = summarize classification\<rparr>
                        (an_tables analysis)) (\<lambda>rec.
              Inr \<lparr>pg_result = SrSuccess (to_masked_result result), pg_record = rec\<rparr>)))"

definition process_executed ::
  "mappings \<Rightarrow> SqlAnalysis \<Rightarrow> ExecutionResult \<Rightarrow> int \<Rightarrow> 64 word \<Rightarrow> Processing throws" where
  "process_executed classifier analysis execution timestamp_ms request_id =
     (if ex_status execution \<noteq> ExOk then process_db_failure analysis execution timestamp_ms request_id
      else if an_statement_type analysis = StInsert
        then process_write analysis execution timestamp_ms request_id
      else process_read classifier analysis execution timestamp_ms request_id)"

definition process ::
  "('db, 'sink) Adapters \<Rightarrow> mappings \<Rightarrow> 'db \<Rightarrow> string \<Rightarrow> int \<Rightarrow> 64 word \<Rightarrow> Processing throws \<times> 'db" where
  "process ad classifier db sql timestamp_ms request_id =
     (case analyze (ad_parse ad) sql of
        Inl e \<Rightarrow> (Inl e, db)
      | Inr analysis \<Rightarrow>
          let decision = evaluate analysis in
          if \<not> pd_allowed decision
            then (process_denied analysis decision timestamp_ms request_id, db)
          else
            (case ad_execute ad db sql of
               (Inl e, db') \<Rightarrow> (Inl e, db')
             | (Inr execution, db') \<Rightarrow>
                 (process_executed classifier analysis execution timestamp_ms request_id, db')))"

definition append_safely ::
  "('db, 'sink) Adapters \<Rightarrow> 'sink \<Rightarrow> AuditRecord \<Rightarrow> AuditAppendResult \<times> 'sink" where
  "append_safely ad sink rec =
     (case ad_append ad sink rec of
        (Inl e, sink') \<Rightarrow> (AppendWriteFailure, sink')
      | (Inr result, sink') \<Rightarrow> (result, sink'))"

text \<open>The lambda of \<open>handle\<close>: any exception of the pipeline becomes one outcome.\<close>

definition recover :: "int \<Rightarrow> 64 word \<Rightarrow> Processing throws \<Rightarrow> Processing" where
  "recover timestamp_ms request_id r =
     (case r of
        Inl e \<Rightarrow> \<lparr>pg_result = SrFailure SfInternalError,
                  pg_record = record_internal_failure timestamp_ms request_id\<rparr>
      | Inr processing \<Rightarrow> processing)"

definition handle ::
  "('db, 'sink) Adapters \<Rightarrow> int \<Rightarrow> string \<Rightarrow> ('db, 'sink) ProxyService
     \<Rightarrow> ServiceResult \<times> ('db, 'sink) ProxyService" where
  "handle ad timestamp_ms sql s =
     (let request_id = sv_next_request_id s;
          s = s\<lparr>sv_next_request_id := request_id + 1\<rparr>;
          (r, db') = process ad (sv_classifier s) (sv_db s) sql timestamp_ms request_id;
          processing = recover timestamp_ms request_id r;
          (appended, sink') = append_safely ad (sv_sink s) (pg_record processing);
          s = s\<lparr>sv_db := db', sv_sink := sink'\<rparr>
      in if appended \<noteq> AppendOk then
           let s = s\<lparr>sv_syslog := map_option
                 (\<lambda>ls. ls @ [''audit persistence failed ('' @ AuditAppendResult_to_string appended @ '')''])
                 (sv_syslog s)\<rparr>
           in if succeeded (pg_result processing) then (SrFailure SfInternalError, s)
              else (pg_result processing, s)
         else (pg_result processing, s))"

section \<open>Lemmas on the stages\<close>

lemma checked_count_simps:
  "0 \<le> v \<Longrightarrow> checked_count v what = Inr (nat v)"
  "checked_count v what = Inr n \<longleftrightarrow> 0 \<le> v \<and> n = nat v"
  by (auto simp: checked_count_def)

lemma client_failure_for_eq:
  "client_failure_for r = (if r = RrEmptyInput then SfEmptyInput else SfPolicyRejected)"
  by (cases r) simp_all

text \<open>\<open>summarize\<close> counts the PII columns of each category.\<close>

definition pii_columns :: "PiiCategory \<Rightarrow> ColumnClassification list \<Rightarrow> nat" where
  "pii_columns category cols =
     length (filter (\<lambda>c. cc_data_class c = Pii \<and> cc_pii_category c = Some category) cols)"

lemma summarize_loop_eq:
  "summarize_loop s cols =
     \<lparr>email_columns = email_columns s + pii_columns PiiEmail cols,
      phone_columns = phone_columns s + pii_columns PiiPhone cols,
      credit_card_columns = credit_card_columns s + pii_columns PiiCreditCard cols\<rparr>"
proof (induction cols arbitrary: s)
  case (Cons c cols)
  show ?case
    by (simp add: Cons.IH pii_columns_def split: option.split PiiCategory.split)
qed (simp add: pii_columns_def)

lemma summarize_eq:
  "summarize c =
     \<lparr>email_columns = pii_columns PiiEmail (cr_columns c),
      phone_columns = pii_columns PiiPhone (cr_columns c),
      credit_card_columns = pii_columns PiiCreditCard (cr_columns c)\<rparr>"
  by (simp add: summarize_def summarize_loop_eq)

text \<open>
  The correspondence between what the client gets and what the audit trail records: one kind of
  record per kind of outcome.
\<close>

fun describes :: "Details \<Rightarrow> ServiceResult \<Rightarrow> bool" where
  "describes (DSuccess d) r =
     (\<exists>q. r = SrSuccess q \<and> sd_column_count d = length (mq_column_names q))"
| "describes (DWriteSuccess d) r = (r = SrWriteSuccess \<lparr>wr_affected_rows = wd_affected_rows d\<rparr>)"
| "describes DParsingFailure r = (r = SrFailure SfUnparseableSql)"
| "describes (DPolicyRejected d) r = (r = SrFailure (client_failure_for (pj_reason d)))"
| "describes (DDatabaseFailure d) r =
     (r = SrFailure (if df_category d = DbConnectionFailure then SfDatabaseUnavailable else SfQueryFailed))"
| "describes (DMaskingRefused d) r = (r = SrFailure SfMaskingRefused)"
| "describes DInternalFailure r = (r = SrFailure SfInternalError)"

definition well_recorded :: "int \<Rightarrow> 64 word \<Rightarrow> Processing \<Rightarrow> bool" where
  "well_recorded ts rid p \<longleftrightarrow>
     describes (ar_details (pg_record p)) (pg_result p) \<and> valid_record (pg_record p) \<and>
     ar_timestamp_ms (pg_record p) = ts \<and> ar_request_id (pg_record p) = rid"

lemma describes_succeeded:
  "describes (ar_details rec) r \<Longrightarrow> succeeded r \<longleftrightarrow> outcome rec = OutSuccess"
  by (cases "ar_details rec") (auto simp: outcome_def)

lemma internal_failure_recorded [recorded]:
  "well_recorded ts rid \<lparr>pg_result = SrFailure SfInternalError, pg_record = record_internal_failure ts rid\<rparr>"
  by (simp add: well_recorded_def factories_valid) (simp add: record_internal_failure_def)

lemma process_denied_recorded [recorded]:
  "process_denied a d ts rid = Inr p \<Longrightarrow> well_recorded ts rid p"
  by (auto simp: process_denied_def well_recorded_def and_then_eq_Inr factories_valid
        record_policy_rejected_def make_AuditRecord_valid record_parsing_failure_def split: if_splits)

lemma process_db_failure_recorded [recorded]:
  "process_db_failure a r ts rid = Inr p \<Longrightarrow> well_recorded ts rid p"
  by (auto simp: process_db_failure_def Let_def well_recorded_def and_then_eq_Inr factory_eqs
        make_AuditRecord_valid split: if_splits)

lemma process_write_recorded [recorded]:
  "process_write a r ts rid = Inr p \<Longrightarrow> well_recorded ts rid p"
  by (auto simp: process_write_def and_then_eq_Inr internal_failure_recorded factory_eqs
        well_recorded_def[of _ _ "\<lparr>pg_result = SrWriteSuccess _, pg_record = _\<rparr>"]
        make_AuditRecord_valid split: if_splits)

text \<open>The read branch, once its row count is known to be non-negative.\<close>

lemma process_read_eq:
  assumes "0 \<le> ex_row_count r"
  shows "process_read m a r ts rid =
    (case mask_result r (classify m a (ex_columns r)) of
       MaskSuccess r' \<Rightarrow>
         and_then (record_success ts rid
            \<lparr>sd_statement_type = an_statement_type a, sd_row_count = nat (ex_row_count r),
             sd_column_count = length (ex_columns r), sd_pii = summarize (classify m a (ex_columns r))\<rparr>
            (an_tables a)) (\<lambda>rec. Inr \<lparr>pg_result = SrSuccess (to_masked_result r'), pg_record = rec\<rparr>)
     | MaskFailure UnattributedColumn \<Rightarrow>
         and_then (record_masking_refused ts rid
            \<lparr>mr_statement_type = an_statement_type a, mr_column_count = length (ex_columns r)\<rparr> (an_tables a))
           (\<lambda>rec. Inr \<lparr>pg_result = SrFailure SfMaskingRefused, pg_record = rec\<rparr>)
     | MaskFailure _ \<Rightarrow>
         Inr \<lparr>pg_result = SrFailure SfInternalError, pg_record = record_internal_failure ts rid\<rparr>)"
  using assms
  by (simp add: process_read_def checked_count_simps Let_def
      split: MaskingOutcome.split MaskingFailureReason.split)

lemma process_read_negative:
  "process_read m a r ts rid = Inr p \<Longrightarrow> 0 \<le> ex_row_count r"
  by (auto simp: process_read_def and_then_eq_Inr checked_count_simps)

lemma process_read_recorded [recorded]:
  assumes "process_read m a r ts rid = Inr p"
  shows "well_recorded ts rid p"
proof -
  have nonneg: "0 \<le> ex_row_count r" using assms by (rule process_read_negative)
  show ?thesis
  proof (cases "mask_result r (classify m a (ex_columns r))")
    case (MaskSuccess r')
    then have "ex_columns r' = ex_columns r" by (simp add: mask_success_iff)
    with MaskSuccess assms nonneg show ?thesis
      by (auto simp: process_read_eq and_then_eq_Inr factory_eqs well_recorded_def
          make_AuditRecord_valid to_masked_result_def split: if_splits)
  next
    case (MaskFailure f)
    with assms nonneg show ?thesis
      by (cases f) (auto simp: process_read_eq and_then_eq_Inr factory_eqs internal_failure_recorded
          well_recorded_def[of _ _ "\<lparr>pg_result = SrFailure SfMaskingRefused, pg_record = _\<rparr>"]
          make_AuditRecord_valid split: if_splits)
  qed
qed

lemma process_recorded:
  "fst (process ad m db sql ts rid) = Inr p \<Longrightarrow> well_recorded ts rid p"
  by (auto simp: process_def process_executed_def Let_def
      split: sum.splits if_splits prod.splits intro: recorded)

lemma recover_recorded:
  "well_recorded ts rid (recover ts rid (fst (process ad m db sql ts rid)))"
  by (auto simp: recover_def internal_failure_recorded split: sum.split intro: process_recorded)

section \<open>Lemmas on a request\<close>

text \<open>What the pipeline hands to the append, and the parts of the state after a request.\<close>

definition handle_processing ::
  "('db, 'sink) Adapters \<Rightarrow> int \<Rightarrow> string \<Rightarrow> ('db, 'sink) ProxyService \<Rightarrow> Processing" where
  "handle_processing ad ts sql s =
     recover ts (sv_next_request_id s)
       (fst (process ad (sv_classifier s) (sv_db s) sql ts (sv_next_request_id s)))"

definition handle_append ::
  "('db, 'sink) Adapters \<Rightarrow> int \<Rightarrow> string \<Rightarrow> ('db, 'sink) ProxyService \<Rightarrow> AuditAppendResult \<times> 'sink" where
  "handle_append ad ts sql s =
     append_safely ad (sv_sink s) (pg_record (handle_processing ad ts sql s))"

lemma handle_result:
  "fst (handle ad ts sql s) =
     (if fst (handle_append ad ts sql s) \<noteq> AppendOk \<and> succeeded (pg_result (handle_processing ad ts sql s))
      then SrFailure SfInternalError else pg_result (handle_processing ad ts sql s))"
  by (simp add: handle_def handle_processing_def handle_append_def Let_def case_prod_unfold)

lemma handle_state [simp]:
  "sv_classifier (snd (handle ad ts sql s)) = sv_classifier s"
  "sv_next_request_id (snd (handle ad ts sql s)) = sv_next_request_id s + 1"
  "sv_db (snd (handle ad ts sql s)) =
     snd (process ad (sv_classifier s) (sv_db s) sql ts (sv_next_request_id s))"
  "sv_sink (snd (handle ad ts sql s)) = snd (handle_append ad ts sql s)"
  by (simp_all add: handle_def handle_processing_def handle_append_def Let_def case_prod_unfold)

lemma handle_syslog:
  "sv_syslog (snd (handle ad ts sql s)) =
     (if fst (handle_append ad ts sql s) = AppendOk then sv_syslog s
      else map_option (\<lambda>ls. ls @ [''audit persistence failed ('' @
        AuditAppendResult_to_string (fst (handle_append ad ts sql s)) @ '')'']) (sv_syslog s))"
  by (simp add: handle_def handle_processing_def handle_append_def Let_def case_prod_unfold)

lemma handle_recorded:
  "well_recorded ts (sv_next_request_id s) (handle_processing ad ts sql s)"
  unfolding handle_processing_def by (rule recover_recorded)

text \<open>The executor is reached exactly by an allowed analysis, with the text that was analyzed.\<close>

definition authorized_sql :: "parser \<Rightarrow> string \<Rightarrow> bool" where
  "authorized_sql parse sql \<longleftrightarrow>
     (case analyze parse sql of Inl _ \<Rightarrow> False | Inr a \<Rightarrow> pd_allowed (evaluate a))"

lemma process_db:
  "snd (process ad m db sql ts rid) =
     (if authorized_sql (ad_parse ad) sql then snd (ad_execute ad db sql) else db)"
  by (auto simp: process_def authorized_sql_def Let_def split: sum.split prod.split)

text \<open>Where a success comes from.\<close>

lemma process_executed_success:
  assumes "process_executed m a r ts rid = Inr p" and "pg_result p = SrSuccess q"
  shows "ex_status r = ExOk \<and> an_statement_type a \<noteq> StInsert \<and>
    mask_result r (classify m a (ex_columns r)) =
      MaskSuccess (r\<lparr>ex_rows := mq_rows q\<rparr>) \<and> mq_column_names q = map ci_name (ex_columns r)"
proof -
  have ok: "ex_status r = ExOk" and read: "an_statement_type a \<noteq> StInsert"
    using assms by (auto simp: process_executed_def process_db_failure_def process_write_def Let_def
        and_then_eq_Inr split: if_splits)
  with assms have rd: "process_read m a r ts rid = Inr p" by (simp add: process_executed_def)
  have nonneg: "0 \<le> ex_row_count r" using rd by (rule process_read_negative)
  show ?thesis
  proof (cases "mask_result r (classify m a (ex_columns r))")
    case (MaskSuccess r')
    then have r': "r' = r\<lparr>ex_rows := map (map2 mask_by_class (cr_columns (classify m a (ex_columns r)))) (ex_rows r)\<rparr>"
      by (simp add: mask_success_iff)
    have "q = to_masked_result r'"
      using rd nonneg MaskSuccess assms(2) by (auto simp: process_read_eq and_then_eq_Inr)
    then show ?thesis using ok read MaskSuccess r' by (simp add: to_masked_result_def)
  next
    case (MaskFailure f)
    then show ?thesis using rd nonneg assms(2) by (cases f) (auto simp: process_read_eq and_then_eq_Inr)
  qed
qed

text \<open>What the record of a read says of the statement and of the executor's result.\<close>

definition records_read :: "mappings \<Rightarrow> SqlAnalysis \<Rightarrow> ExecutionResult \<Rightarrow> AuditRecord \<Rightarrow> bool" where
  "records_read m a r rec \<longleftrightarrow>
     ar_details rec =
       DSuccess \<lparr>sd_statement_type = StSelect, sd_row_count = nat (ex_row_count r),
         sd_column_count = length (ex_columns r),
         sd_pii = (let classes = cr_columns (classify m a (ex_columns r)) in
           \<lparr>email_columns = pii_columns PiiEmail classes, phone_columns = pii_columns PiiPhone classes,
            credit_card_columns = pii_columns PiiCreditCard classes\<rparr>)\<rparr> \<and>
     ar_referenced_tables rec = recorded_tables (an_tables a)"

lemma process_executed_records:
  assumes "process_executed m a r ts rid = Inr p" and "pg_result p = SrSuccess q"
  shows "records_read m a r (pg_record p)"
proof -
  from process_executed_success[OF assms] have ok: "ex_status r = ExOk" "an_statement_type a \<noteq> StInsert"
    and m: "mask_result r (classify m a (ex_columns r)) = MaskSuccess (r\<lparr>ex_rows := mq_rows q\<rparr>)" by simp_all
  with assms(1) have rd: "process_read m a r ts rid = Inr p" by (simp add: process_executed_def)
  from process_read_negative[OF rd] rd m show ?thesis
    by (auto simp: process_read_eq and_then_eq_Inr factory_eqs records_read_def summarize_eq Let_def
        classify_tables_recorded split: if_splits)
qed

lemma handle_success_origin:
  assumes "fst (handle ad ts sql s) = SrSuccess q"
  obtains a r where
    "analyze (ad_parse ad) sql = Inr a" "pd_allowed (evaluate a)"
    "fst (ad_execute ad (sv_db s) sql) = Inr r"
    "process_executed (sv_classifier s) a r ts (sv_next_request_id s) = Inr (handle_processing ad ts sql s)"
    "pg_result (handle_processing ad ts sql s) = SrSuccess q"
    "fst (handle_append ad ts sql s) = AppendOk"
proof -
  let ?p = "process ad (sv_classifier s) (sv_db s) sql ts (sv_next_request_id s)"
  have res: "pg_result (handle_processing ad ts sql s) = SrSuccess q"
    and app: "fst (handle_append ad ts sql s) = AppendOk"
    using assms by (auto simp: handle_result split: if_splits)
  from res have p: "fst ?p = Inr (handle_processing ad ts sql s)"
    by (auto simp: handle_processing_def recover_def split: sum.splits)
  have denied: "process_denied a d ts rid = Inr x \<Longrightarrow> pg_result x \<noteq> SrSuccess q" for a d rid x
    by (auto simp: process_denied_def and_then_eq_Inr split: if_splits)
  from p res denied show thesis
    by (auto simp: process_def Let_def split: sum.splits if_splits prod.splits
        intro!: that[OF _ _ _ _ res app])
qed

section \<open>The service over ports that keep their contracts\<close>

locale proxy_ports = sql_parser_port "ad_parse ad" + query_executor_port "ad_execute ad"
  for ad :: "('db, 'sink) Adapters"
begin

text \<open>A denial always has its record: the counts are real and the reason is one to record.\<close>

lemma process_denied_total:
  assumes a: "analyze (ad_parse ad) sql = Inr a" and "\<not> pd_allowed (evaluate a)"
    and count: "0 \<le> an_statement_count a"
  shows "\<exists>p f. process_denied a (evaluate a) ts rid = Inr p \<and> pg_result p = SrFailure f \<and>
    f \<in> {SfUnparseableSql, SfEmptyInput, SfPolicyRejected}"
proof (cases "pd_reason (evaluate a) = RrUnparseableSql")
  case True
  then show ?thesis by (simp add: process_denied_def)
next
  case False
  then have "an_status a \<noteq> AnParseError" by (simp add: evaluate_unparseable)
  from engine.denied_reason[OF assms(2) this] False count show ?thesis
    by (simp add: process_denied_def checked_count_simps policy_rejected_ok client_failure_for_eq)
qed

lemma process_executed_total:
  assumes a: "analyze (ad_parse ad) sql = Inr a" and ok: "pd_allowed (evaluate a)"
    and r: "fst (ad_execute ad db sql) = Inr r"
  shows "\<exists>p. process_executed m a r ts rid = Inr p \<and>
    (pg_result p = SrFailure SfInternalError \<longleftrightarrow>
       ex_status r = ExOk \<and> an_statement_type a = StInsert \<and> ex_affected_rows r \<noteq> 1)"
proof -
  have type: "an_statement_type a \<in> {StSelect, StInsert}"
    using engine.allowed_statement_type[OF ok analyze_consistent[OF a]] by auto
  show ?thesis
  proof (cases "ex_status r = ExOk")
    case False
    with type show ?thesis by (simp add: process_executed_def process_db_failure_def Let_def factory_eqs)
  next
    case True
    note port = execute_ok_rectangular[OF r True]
    show ?thesis
    proof (cases "an_statement_type a = StInsert")
      case insert: True
      then have w: "process_executed m a r ts rid = process_write a r ts rid"
        by (simp add: process_executed_def True)
      show ?thesis unfolding w
        using port insert True by (auto simp: process_write_def checked_count_simps factory_eqs)
    next
      case select: False
      then have rd: "process_executed m a r ts rid = process_read m a r ts rid" "an_statement_type a = StSelect"
        using type by (simp_all add: process_executed_def True)
      show ?thesis unfolding rd(1)
        using port rd(2) by (simp add: process_read_eq name_classifier.mask_classified factory_eqs)
    qed
  qed
qed

lemma analyze_count_nonneg:
  assumes "analyze (ad_parse ad) sql = Inr a"
    and "\<And>r. ad_parse ad sql = Inr r \<Longrightarrow> length (pr_statements r) < 2 ^ 31"
  shows "0 \<le> an_statement_count a"
  using assms by (auto simp: analyze_def Let_def and_then_eq_Inr default_SqlAnalysis_def size_to_int_small
      split: if_splits list.splits)

text \<open>The pipeline returns, and its only internal error is a write that changed another number of rows.\<close>

lemma process_total:
  assumes count: "\<And>r. ad_parse ad sql = Inr r \<Longrightarrow> length (pr_statements r) < 2 ^ 31"
  shows "\<exists>p. fst (process ad m db sql ts rid) = Inr p \<and>
    (pg_result p = SrFailure SfInternalError \<longleftrightarrow>
       (\<exists>a r. analyze (ad_parse ad) sql = Inr a \<and> pd_allowed (evaluate a) \<and>
          fst (ad_execute ad db sql) = Inr r \<and> ex_status r = ExOk \<and>
          an_statement_type a = StInsert \<and> ex_affected_rows r \<noteq> 1))"
proof -
  obtain a where a: "analyze (ad_parse ad) sql = Inr a" using analyze_total by blast
  have nonneg: "0 \<le> an_statement_count a" using analyze_count_nonneg[OF a] count by blast
  show ?thesis
  proof (cases "pd_allowed (evaluate a)")
    case False
    with process_denied_total[OF a False nonneg, of ts rid] a show ?thesis
      by (auto simp: process_def Let_def)
  next
    case True
    obtain r db' where e: "ad_execute ad db sql = (Inr r, db')"
      using execute_no_throw[of db sql] by (cases "ad_execute ad db sql") auto
    then have r: "fst (ad_execute ad db sql) = Inr r" by simp
    from process_executed_total[OF a True r, of m ts rid] a True e show ?thesis
      by (auto simp: process_def Let_def)
  qed
qed

lemma internal_error_cause:
  assumes "\<And>r. ad_parse ad sql = Inr r \<Longrightarrow> length (pr_statements r) < 2 ^ 31"
    and "fst (handle ad ts sql s) = SrFailure SfInternalError"
  shows "(\<exists>a r. analyze (ad_parse ad) sql = Inr a \<and> pd_allowed (evaluate a) \<and>
            fst (ad_execute ad (sv_db s) sql) = Inr r \<and> ex_status r = ExOk \<and>
            an_statement_type a = StInsert \<and> ex_affected_rows r \<noteq> 1) \<or>
         fst (handle_append ad ts sql s) \<noteq> AppendOk"
  using process_total[OF assms(1), of sql "sv_classifier s" "sv_db s" ts "sv_next_request_id s"] assms(2)
  by (auto simp: handle_result handle_processing_def recover_def split: if_splits)

end

locale audited_ports = audit_repository_port "ad_append ad" stored rendering
  for ad :: "('db, 'sink) Adapters" and stored :: "'sink \<Rightarrow> 'e list" and rendering :: "AuditRecord \<Rightarrow> 'e list"
begin

lemma handle_append_ok:
  assumes "fst (handle_append ad ts sql s) = AppendOk"
  shows "fst (ad_append ad (sv_sink s) (pg_record (handle_processing ad ts sql s))) = Inr AppendOk"
  using assms by (auto simp: handle_append_def append_safely_def split: sum.splits prod.splits)

lemma handle_append_sink:
  "snd (handle_append ad ts sql s) = snd (ad_append ad (sv_sink s) (pg_record (handle_processing ad ts sql s)))"
  by (simp add: handle_append_def append_safely_def split: sum.split prod.split)

lemma stored_extends: "prefix (stored (sv_sink s)) (stored (sv_sink (snd (handle ad ts sql s))))"
  by (simp add: handle_append_sink append_extends)

lemma stored_success:
  assumes "succeeded (fst (handle ad ts sql s))"
  shows "stored (sv_sink (snd (handle ad ts sql s))) =
    stored (sv_sink s) @ rendering (pg_record (handle_processing ad ts sql s))"
proof -
  from assms have "fst (handle_append ad ts sql s) = AppendOk"
    by (auto simp: handle_result split: if_splits)
  from append_ok[OF handle_append_ok[OF this]] show ?thesis by (simp add: handle_append_sink)
qed

end

end
