(* ===== verification/Hyrise_Policy.thy ===== *)
theory Hyrise_Policy
  imports Hyrise_Adapter Proxy_Service
begin

text \<open>
  The parser adapter, the analyzer and the policy engine together: which parsed statements are
  authorized, read off the library's syntax tree. Nothing of the pipeline between the tree and the
  decision appears in the specification.
\<close>

section \<open>The authorized trees\<close>

definition select_tree_ok :: "'f SelectStatement \<Rightarrow> bool" where
  "select_tree_ok stmt \<longleftrightarrow>
     from_subqueries (sel_fromTable stmt) = 0 \<and>
     \<not> has_items (sel_withDescriptions stmt) \<and> \<not> has_items (sel_setOperations stmt) \<and>
     (\<forall>t \<in> set (from_tables (sel_fromTable stmt)). \<not> is_system_table (qualified_name t)) \<and>
     \<not> ((\<exists>e \<in> set (select_entries stmt). ex_type e = kExprStar) \<and>
        (\<exists>e \<in> set (select_entries stmt). ex_type e = kExprColumnRef))"

definition positive_int :: "'f Expr \<Rightarrow> bool" where
  "positive_int e \<longleftrightarrow> ex_type e = kExprLiteralInt \<and> 0 < ex_ival e"

definition positive_decimal :: "('f \<Rightarrow> bool) \<Rightarrow> 'f Expr \<Rightarrow> bool" where
  "positive_decimal fpos e \<longleftrightarrow> ex_type e = kExprLiteralFloat \<and> fpos (ex_fval e)"

definition insert_tree_ok :: "('f \<Rightarrow> bool) \<Rightarrow> 'f InsertStatement \<Rightarrow> bool" where
  "insert_tree_ok fpos stmt \<longleftrightarrow>
     ins_type stmt = kInsertValues \<and>
     ins_schema stmt \<in> {None, Some []} \<and> ins_tableName stmt = Some ''orders'' \<and>
     ins_columns stmt = Some [Some ''customer_id'', Some ''amount''] \<and>
     (\<exists>customer amount. ins_values stmt = Some [Some customer, Some amount] \<and> positive_int customer \<and>
        (positive_int amount \<or> positive_decimal fpos amount))"

fun tree_ok :: "('f \<Rightarrow> bool) \<Rightarrow> 'f SQLStatement \<Rightarrow> bool" where
  "tree_ok fpos (kStmtSelect stmt) = select_tree_ok stmt"
| "tree_ok fpos (kStmtInsert stmt) = insert_tree_ok fpos stmt"
| "tree_ok fpos _ = False"

section \<open>Lemmas\<close>

text \<open>The analysis of one parsed statement.\<close>

definition analysis_of :: "ParsedStatement \<Rightarrow> SqlAnalysis" where
  "analysis_of p =
     default_SqlAnalysis\<lparr>an_statement_count := 1, an_status := AnOk, an_statement_type := ps_type p,
       an_statement_class := statement_class_of (ps_type p), an_tables := normalized_tables (ps_tables p),
       an_projection_columns := ps_projection_columns p,
       an_has_wildcard_projection := ps_has_wildcard_projection p,
       an_has_computed_projection := ps_has_computed_projection p,
       an_has_safe_count_star_projection := ps_has_safe_count_star_projection p,
       an_has_group_by := ps_has_group_by p, an_affected_columns := ps_affected_columns p,
       an_insert_source := ps_insert_source p, an_insert_value_kinds := ps_insert_value_kinds p,
       an_unsupported_features := ps_unsupported_features p\<rparr>"

lemma analysis_of_simps [simp]:
  "an_statement_count (analysis_of p) = 1" "an_status (analysis_of p) = AnOk"
  "an_statement_type (analysis_of p) = ps_type p"
  "an_statement_class (analysis_of p) = statement_class_of (ps_type p)"
  "an_tables (analysis_of p) = normalized_tables (ps_tables p)"
  "an_projection_columns (analysis_of p) = ps_projection_columns p"
  "an_has_wildcard_projection (analysis_of p) = ps_has_wildcard_projection p"
  "an_affected_columns (analysis_of p) = ps_affected_columns p"
  "an_insert_source (analysis_of p) = ps_insert_source p"
  "an_insert_value_kinds (analysis_of p) = ps_insert_value_kinds p"
  "an_unsupported_features (analysis_of p) = ps_unsupported_features p"
  by (simp_all add: analysis_of_def)

lemma analyze_statement:
  assumes "\<not> is_blank sql" and "parse sql = Inr r" and "pr_success r" and "pr_statements r = [p]"
  shows "analyze parse sql = Inr (analysis_of p)"
  using assms by (simp add: analyze_def analysis_of_def default_SqlAnalysis_def)

lemma analyze_not_ok:
  assumes "analyze parse sql = Inr a"
    and "\<not> (\<not> is_blank sql \<and> (\<exists>r p. parse sql = Inr r \<and> pr_success r \<and> pr_statements r = [p]))"
  shows "an_status a \<noteq> AnOk"
proof (cases "is_blank sql")
  case False
  then obtain r where r: "parse sql = Inr r" using assms(1) by (auto simp: analyze_def Let_def and_then_eq_Inr)
  with assms(2) False have "\<not> pr_success r \<or> (\<forall>p. pr_statements r \<noteq> [p])" by auto
  with r False assms(1) show ?thesis
    by (cases "pr_statements r") (auto simp: analyze_def Let_def default_SqlAnalysis_def split: if_splits)
qed (use assms(1) in \<open>auto simp: analyze_def\<close>)

lemma authorized_sql_iff:
  "authorized_sql parse sql \<longleftrightarrow>
     \<not> is_blank sql \<and> (\<exists>r p. parse sql = Inr r \<and> pr_success r \<and> pr_statements r = [p] \<and>
       pd_allowed (evaluate (analysis_of p)))"
proof (cases "\<not> is_blank sql \<and> (\<exists>r p. parse sql = Inr r \<and> pr_success r \<and> pr_statements r = [p])")
  case True
  then obtain r p where "parse sql = Inr r" "pr_success r" "pr_statements r = [p]" "\<not> is_blank sql" by blast
  with analyze_statement[of sql parse r p] show ?thesis by (simp add: authorized_sql_def)
next
  case False
  then have "\<not> authorized_sql parse sql"
    using analyze_not_ok[of parse sql] by (auto simp: authorized_sql_def evaluate_allowed_iff split: sum.splits)
  with False show ?thesis by blast
qed

lemma normalized_single: "normalized_tables [t] = [qualified_name t]"
  by (simp add: normalized_tables_def)

text \<open>
  The analysis of a SELECT reports the entries of its select list, so the classification of its
  result is that of the specification on these entries.
\<close>

definition item_of :: "'f Expr \<Rightarrow> projection_item" where
  "item_of e =
     (if ex_type e = kExprStar then ItemWildcard
      else if ex_type e = kExprColumnRef then ItemColumn (column_text e)
      else if is_count_star e then ItemCountStar else ItemComputed)"

lemma item_of_iff:
  "item_of e = ItemWildcard \<longleftrightarrow> ex_type e = kExprStar" "item_of e = ItemComputed \<longleftrightarrow> is_computed e"
  "item_of e = ItemCountStar \<longleftrightarrow> is_count_star e"
  by (auto simp: item_of_def is_computed_def dest: is_count_star_type)

lemma item_columns_entries: "item_columns (map item_of es) = map column_text (plain_columns es)"
  by (induction es) (auto simp: item_of_def plain_columns_def)

lemma select_reports:
  "reports (map item_of (select_entries stmt)) (sel_has_groupBy stmt)
     (analysis_of (translate_statement fpos (kStmtSelect stmt)))"
proof -
  have "x \<in> set (map item_of es) \<longleftrightarrow> (\<exists>e \<in> set es. item_of e = x)" for x and es :: "'a Expr list" by auto
  then show ?thesis
    by (simp add: reports_def translate_select_eq analysis_of_def item_columns_entries item_of_iff)
qed

lemma select_tree_policy:
  "pd_allowed (evaluate (analysis_of (translate_statement fpos (kStmtSelect stmt)))) \<longleftrightarrow> select_tree_ok stmt"
proof -
  have cols: "plain_columns es = [] \<longleftrightarrow> (\<forall>e \<in> set es. ex_type e \<noteq> kExprColumnRef)" for es :: "'a Expr list"
    by (simp add: plain_columns_def filter_empty_conv)
  have no_notes: "replicate n x @ (if b then [y] else []) @ (if c then [z] else []) = [] \<longleftrightarrow> n = 0 \<and> \<not> b \<and> \<not> c"
    for n b c and x y z :: string
    by simp
  show ?thesis
    unfolding evaluate_allowed_iff authorized_select_def authorized_insert_def select_tree_ok_def
    by (simp add: translate_select_eq no_notes cols normalized_tables_eq)
qed

lemma qualified_orders:
  "qualified_name t = ''orders'' \<longleftrightarrow> tr_schema t = [] \<and> tr_name t = ''orders''"
proof -
  have "CHR ''.'' \<notin> set ''orders''" by simp
  then have "tr_schema t @ ''.'' @ tr_name t \<noteq> ''orders''"
    by (metis in_set_conv_decomp append_Cons append_Nil)
  then show ?thesis by (auto simp: qualified_name_def)
qed

lemma insert_value_kind_iff:
  "insert_value_kind fpos v = PositiveIntegerLiteral \<longleftrightarrow> (\<exists>e. v = Some e \<and> positive_int e)"
  "insert_value_kind fpos v = PositiveDecimalLiteral \<longleftrightarrow> (\<exists>e. v = Some e \<and> positive_decimal fpos e)"
  by (auto simp: insert_value_kind_def classify_insert_value_def positive_int_def positive_decimal_def
      split: option.splits ExprType.splits)

lemma copy_or_empty_iff:
  "copy_or_empty x = [] \<longleftrightarrow> x \<in> {None, Some []}"
  "s \<noteq> [] \<Longrightarrow> copy_or_empty x = s \<longleftrightarrow> x = Some s"
  by (auto simp: copy_or_empty_def split: option.splits)

lemma insert_columns_iff:
  "map copy_or_empty cs = [''customer_id'', ''amount''] \<longleftrightarrow> cs = [Some ''customer_id'', Some ''amount'']"
  by (auto simp: copy_or_empty_iff(2))

lemma insert_kinds_iff:
  "(\<exists>k. map (insert_value_kind fpos) vs = [PositiveIntegerLiteral, k] \<and>
        k \<in> {PositiveIntegerLiteral, PositiveDecimalLiteral}) \<longleftrightarrow>
   (\<exists>x y. vs = [Some x, Some y] \<and> positive_int x \<and> (positive_int y \<or> positive_decimal fpos y))"
  by (auto simp: insert_value_kind_iff map_eq_Cons_conv)

lemma insert_tree_policy:
  "pd_allowed (evaluate (analysis_of (translate_statement fpos (kStmtInsert stmt)))) \<longleftrightarrow> insert_tree_ok fpos stmt"
proof (cases "ins_type stmt")
  case kInsertSelect
  then show ?thesis
    by (simp add: evaluate_allowed_iff authorized_select_def authorized_insert_def order_insert_shape_def
        insert_tree_ok_def translate_insert_eq)
next
  case kInsertValues
  show ?thesis
  proof (cases "ins_columns stmt")
    case None
    then show ?thesis
      by (simp add: evaluate_allowed_iff authorized_select_def authorized_insert_def order_insert_shape_def
          insert_tree_ok_def translate_insert_eq)
  next
    case (Some cs)
    show ?thesis
    proof (cases "ins_values stmt")
      case None
      then show ?thesis
        by (simp add: evaluate_allowed_iff authorized_select_def authorized_insert_def order_insert_shape_def
            insert_tree_ok_def translate_insert_eq kInsertValues)
    next
      case vs: (Some vs)
      show ?thesis
        unfolding evaluate_allowed_iff authorized_select_def authorized_insert_def order_insert_shape_def
          insert_tree_ok_def
        using insert_kinds_iff[of fpos vs]
        by (simp add: translate_insert_eq kInsertValues Some vs normalized_single qualified_orders
            insert_columns_iff copy_or_empty_iff statement_class_of_Dml)
    qed
  qed
qed

lemma other_tree_policy:
  "ps_type p \<notin> {StSelect, StInsert} \<Longrightarrow> \<not> pd_allowed (evaluate (analysis_of p))"
  by (auto simp: evaluate_allowed_iff authorized_select_def authorized_insert_def)

lemma tree_policy: "pd_allowed (evaluate (analysis_of (translate_statement fpos stmt))) \<longleftrightarrow> tree_ok fpos stmt"
proof (cases stmt)
  case (kStmtUpdate u)
  then show ?thesis using translate_update_eq[of u] by (auto intro!: other_tree_policy)
qed (simp_all add: select_tree_policy insert_tree_policy translate_delete_def translate_create_def
    translate_drop_def translate_alter_def push_table_def push_note_def Let_def other_tree_policy
    del: translate_statement.simps(1,2) flip: translate_statement.simps(1,2))

section \<open>Property\<close>

text \<open>
  C3. The authorization of a statement, read off the syntax tree: with the production parser
  adapter, a text is authorized exactly when it is not blank, the library accepts it as one
  statement, and that statement is a SELECT without a FROM subquery, a WITH clause, a set
  operation, a system table or a mix of star and plain columns, or is the one INSERT of positive
  literals into the unqualified orders table with the columns customer_id and amount in this order.
  UPDATE, DELETE, DDL and every other statement is never authorized.
\<close>

theorem hyrise_authorized_iff:
  "authorized_sql (hyrise_parse fpos hsql_parse) sql \<longleftrightarrow>
     \<not> is_blank sql \<and>
     (\<exists>result stmt. hsql_parse sql = Some result \<and> spr_isValid result \<and>
        non_null (spr_statements result) = [stmt] \<and> tree_ok fpos stmt)"
proof (cases "hsql_parse sql")
  case None
  then show ?thesis by (simp add: authorized_sql_iff hyrise_parse_def)
next
  case (Some result)
  then show ?thesis
    by (auto simp: authorized_sql_iff hyrise_parse_def map_eq_Cons_conv tree_policy split: if_splits)
qed

end
