(* ===== verification/Fakes.thy ===== *)
theory Fakes
  imports Proxy_Service
begin

text \<open>
  The port fakes of the repository's own tests, \<open>src/tests/fakes/\<close> and the helpers of
  \<open>src/tests/core/proxy_service_test.cpp\<close>: the concrete ports at which the properties of the
  service are instantiated. The state of the fake executor is the list of SQL texts it received;
  the state of the fake repository is the list of records appended to it.
\<close>

definition fake_parse :: "ParseResult \<Rightarrow> parser" where
  "fake_parse result_to_return sql = Inr result_to_return"

definition fake_execute :: "ExecutionResult \<Rightarrow> bool \<Rightarrow> (string list) executor" where
  "fake_execute result_to_return throw_on_execute received_sql sql =
     (if throw_on_execute then Inl ForeignException else Inr result_to_return, received_sql @ [sql])"

definition fake_append :: "AuditAppendResult \<Rightarrow> (AuditRecord list) audit_repository" where
  "fake_append result_to_return appended rec = (Inr result_to_return, appended @ [rec])"

definition parsed_select :: "string list \<Rightarrow> bool \<Rightarrow> ParseResult" where
  "parsed_select projection wildcard =
     \<lparr>pr_success = True,
      pr_statements = [default_ParsedStatement\<lparr>ps_type := StSelect,
         ps_tables := [\<lparr>tr_schema = [], tr_name = ''customers''\<rparr>],
         ps_projection_columns := projection,
         ps_has_wildcard_projection := wildcard\<rparr>],
      pr_error = []\<rparr>"

definition ok_result :: "string list \<Rightarrow> cell list list \<Rightarrow> ExecutionResult" where
  "ok_result column_names rows =
     default_ExecutionResult\<lparr>ex_status := ExOk,
       ex_columns := map (\<lambda>name. \<lparr>ci_name = name, ci_type = CtOther\<rparr>) column_names,
       ex_rows := rows, ex_row_count := int (length rows),
       ex_has_result_set := column_names \<noteq> []\<rparr>"

text \<open>The harness: a service over the three fakes.\<close>

definition fake_adapters ::
  "ParseResult \<Rightarrow> ExecutionResult \<Rightarrow> AuditAppendResult \<Rightarrow> (string list, AuditRecord list) Adapters" where
  "fake_adapters parse result append_result =
     \<lparr>ad_parse = fake_parse parse, ad_execute = fake_execute result False,
      ad_append = fake_append append_result\<rparr>"

definition fresh_service :: "(string list, AuditRecord list) ProxyService" where
  "fresh_service =
     \<lparr>sv_classifier = [''email'' \<mapsto> PiiEmail, ''phone'' \<mapsto> PiiPhone, ''credit_card'' \<mapsto> PiiCreditCard],
      sv_next_request_id = 1, sv_db = [], sv_sink = [], sv_syslog = Some []\<rparr>"

lemma fresh_service_made: "make_ProxyService [] [] (Some []) = Inr fresh_service"
  by (simp add: make_ProxyService_def DataClassifier_default fresh_service_def)

lemma fake_parse_simp [simp]: "fake_parse r sql = Inr r"
  by (simp add: fake_parse_def)

lemma fake_adapters_simps [simp]:
  "ad_parse (fake_adapters p r x) = fake_parse p"
  "ad_execute (fake_adapters p r x) = fake_execute r False"
  "ad_append (fake_adapters p r x) = fake_append x"
  by (simp_all add: fake_adapters_def)

lemma fresh_service_simps [simp]:
  "sv_next_request_id fresh_service = 1" "sv_db fresh_service = []" "sv_sink fresh_service = []"
  by (simp_all add: fresh_service_def)

text \<open>
  The request the witnesses run: \<open>SELECT id, email FROM customers\<close> with one row.
\<close>

definition demo_sql :: string where
  "demo_sql = ''SELECT id, email FROM customers''"

definition demo_result :: ExecutionResult where
  "demo_result = ok_result [''id'', ''email''] [[Some ''1'', Some ''lihi.roas@example.com'']]"

definition demo_adapters :: "(string list, AuditRecord list) Adapters" where
  "demo_adapters = fake_adapters (parsed_select [''id'', ''email''] False) demo_result AppendOk"

end
