(* ===== verification/Mutex.thy ===== *)
theory Mutex
  imports Main
begin

text \<open>
  Operations under one lock, once for all the program's mutexes. \<open>serial\<close> runs a list of
  operations one after another. The locale states what a client's threads look like (the request
  a thread still has to answer, the answer it gave, whether it is in the critical section, and what
  the shared state is while it is there) and keeps the invariant under the kinds of step a thread
  can take: a local one, taking the lock, a step under the lock, returning with it, and answering
  without it. A program of such threads runs them in parallel, any thread at any time; its runs are
  serializable and end with every request answered.
\<close>

section \<open>Serial execution\<close>

fun serial :: "('e \<Rightarrow> 's \<Rightarrow> 'r \<times> 's) \<Rightarrow> 's \<Rightarrow> 'e list \<Rightarrow> 'r list \<times> 's" where
  "serial f s [] = ([], s)"
| "serial f s (e # es) = (fst (f e s) # fst (serial f (snd (f e s)) es), snd (serial f (snd (f e s)) es))"

lemma serial_append:
  "serial f s (es @ es') =
     (fst (serial f s es) @ fst (serial f (snd (serial f s es)) es'), snd (serial f (snd (serial f s es)) es'))"
  by (induction es arbitrary: s) simp_all

lemma length_serial [simp]: "length (fst (serial f s es)) = length es"
  by (induction es arbitrary: s) simp_all

lemma serial_invariant:
  assumes "P s" and "\<And>e s. P s \<Longrightarrow> P (snd (f e s))"
  shows "P (snd (serial f s es))"
  using assms(1) by (induction es arbitrary: s) (simp_all add: assms(2))

text \<open>A simulation of the operations is one of their serial executions.\<close>

lemma serial_simulation:
  assumes "R s t" and "\<And>e s t. R s t \<Longrightarrow> fst (f e s) = fst (g e t) \<and> R (snd (f e s)) (snd (g e t))"
  shows "fst (serial f s es) = fst (serial g t es) \<and> R (snd (serial f s es)) (snd (serial g t es))"
  using assms(1) by (induction es arbitrary: s t) (simp_all add: assms(2))

section \<open>Threads around a lock\<close>

locale mutex_protocol =
  fixes operation :: "'e \<Rightarrow> 's \<Rightarrow> 'r \<times> 's"
    and event_request :: "'e \<Rightarrow> 'q"
    and request :: "'p \<Rightarrow> 'q option"
    and answer :: "'p \<Rightarrow> 'r option"
    and critical :: "'p \<Rightarrow> bool"
    and inside :: "'s \<Rightarrow> 'p \<Rightarrow> 's \<Rightarrow> bool"
  assumes critical_unanswered: "critical p \<Longrightarrow> answer p = None"
begin

text \<open>A thread has the answer of its turn in the order, or still its request.\<close>

definition thread_ok :: "'q list \<Rightarrow> (nat \<times> 'e) list \<Rightarrow> 'r list \<Rightarrow> nat \<Rightarrow> 'p \<Rightarrow> bool" where
  "thread_ok reqs order results i p =
     (case answer p of
        Some r \<Rightarrow> \<exists>k < length order. fst (order ! k) = i \<and> r = results ! k
      | None \<Rightarrow> i \<notin> fst ` set order \<and> request p = Some (reqs ! i))"

abbreviation results_of :: "'s \<Rightarrow> (nat \<times> 'e) list \<Rightarrow> 'r list" where
  "results_of s order \<equiv> fst (serial operation s (map snd order))"

abbreviation state_of :: "'s \<Rightarrow> (nat \<times> 'e) list \<Rightarrow> 's" where
  "state_of s order \<equiv> snd (serial operation s (map snd order))"

definition consistent :: "'s \<Rightarrow> 'q list \<Rightarrow> (nat \<times> 'e) list \<Rightarrow> nat option \<Rightarrow> 'p list \<Rightarrow> 's \<Rightarrow> bool" where
  "consistent s reqs order owner threads shared \<longleftrightarrow>
     length threads = length reqs \<and> distinct (map fst order) \<and>
     (\<forall>(i, e) \<in> set order. i < length reqs \<and> event_request e = reqs ! i) \<and>
     (\<forall>i < length reqs. thread_ok reqs order (results_of s order) i (threads ! i)) \<and>
     (\<forall>i < length reqs. critical (threads ! i) \<longleftrightarrow> owner = Some i) \<and>
     (case owner of
        None \<Rightarrow> shared = state_of s order
      | Some i \<Rightarrow> i < length reqs \<and> inside (state_of s order) (threads ! i) shared)"

lemma consistent_start:
  assumes "length threads = length reqs"
    and "\<And>i. i < length reqs \<Longrightarrow>
      answer (threads ! i) = None \<and> request (threads ! i) = Some (reqs ! i) \<and> \<not> critical (threads ! i)"
  shows "consistent s reqs [] None threads s"
  using assms by (simp add: consistent_def thread_ok_def)

lemma consistentD:
  assumes "consistent s reqs order owner threads shared" and "i < length threads"
  shows "i < length reqs" "length threads = length reqs"
    "thread_ok reqs order (results_of s order) i (threads ! i)"
    "critical (threads ! i) \<longleftrightarrow> owner = Some i"
    "critical (threads ! i) \<Longrightarrow> inside (state_of s order) (threads ! i) shared"
proof -
  show n: "i < length reqs" "length threads = length reqs"
    using assms by (simp_all add: consistent_def)
  then show "thread_ok reqs order (results_of s order) i (threads ! i)"
    and c: "critical (threads ! i) \<longleftrightarrow> owner = Some i"
    using assms(1) by (simp_all add: consistent_def)
  show "inside (state_of s order) (threads ! i) shared" if "critical (threads ! i)"
    using assms(1) that c by (simp add: consistent_def)
qed

lemma consistent_request:
  "consistent s reqs order owner threads shared \<Longrightarrow> i < length threads \<Longrightarrow> answer (threads ! i) = None \<Longrightarrow>
     request (threads ! i) = Some q \<Longrightarrow> reqs ! i = q"
  using consistentD(3) by (fastforce simp: thread_ok_def)

text \<open>Steps that answer nothing.\<close>

lemma consistent_local:
  assumes "consistent s reqs order owner threads shared" and "i < length threads"
    and "answer (threads ! i) = None" "\<not> critical (threads ! i)"
    and "answer p = None" "request p = request (threads ! i)" "\<not> critical p"
  shows "consistent s reqs order owner (threads[i := p]) shared"
  using assms consistentD[OF assms(1,2)]
  by (auto simp: consistent_def thread_ok_def nth_list_update split: option.splits)

lemma consistent_enter:
  assumes "consistent s reqs order None threads shared" and "i < length threads"
    and "answer (threads ! i) = None" "critical p" "request p = request (threads ! i)"
    and "inside shared p shared"
  shows "consistent s reqs order (Some i) (threads[i := p]) shared"
  using assms consistentD[OF assms(1,2)] critical_unanswered[OF assms(4)]
  by (auto simp: consistent_def thread_ok_def nth_list_update)

lemma consistent_within:
  assumes "consistent s reqs order owner threads shared" and "i < length threads"
    and "critical (threads ! i)" "critical p" "request p = request (threads ! i)"
    and "inside (state_of s order) p shared'"
  shows "consistent s reqs order owner (threads[i := p]) shared'"
  using assms consistentD[OF assms(1,2)] critical_unanswered[OF assms(3)] critical_unanswered[OF assms(4)]
  by (auto simp: consistent_def thread_ok_def nth_list_update)

text \<open>The other threads, when a thread answers.\<close>

lemma thread_ok_snoc:
  assumes "thread_ok reqs order rs j p" and "length rs = length order" and "j \<noteq> i"
  shows "thread_ok reqs (order @ [(i, e)]) (rs @ [r]) j p"
proof (cases "answer p")
  case (Some r')
  then obtain k where "k < length order" "fst (order ! k) = j" "r' = rs ! k"
    using assms(1) by (auto simp: thread_ok_def)
  then show ?thesis
    using assms(2) Some by (auto simp: thread_ok_def nth_append intro!: exI[of _ k])
qed (use assms in \<open>auto simp: thread_ok_def\<close>)

lemma thread_ok_last:
  assumes "answer p = Some r" and "length rs = length order"
  shows "thread_ok reqs (order @ [(i, e)]) (rs @ [r]) i p"
  unfolding thread_ok_def using assms by (auto simp: nth_append intro!: exI[of _ "length order"])

lemma answered_threads:
  assumes c: "consistent s reqs order owner threads shared" and i: "i < length threads"
    and p: "answer p = Some r" and j: "j < length reqs"
    and op: "fst (operation e (state_of s order)) = r"
  shows "thread_ok reqs (order @ [(i, e)]) (results_of s (order @ [(i, e)])) j (threads[i := p] ! j)"
proof -
  have rs: "results_of s (order @ [(i, e)]) = results_of s order @ [r]"
    using op by (simp add: serial_append)
  show ?thesis
  proof (cases "j = i")
    case True
    then show ?thesis unfolding rs using p i by (simp add: thread_ok_last)
  next
    case False
    then show ?thesis unfolding rs using c j by (simp add: thread_ok_snoc consistent_def)
  qed
qed

lemma answered_order:
  assumes c: "consistent s reqs order owner threads shared" and i: "i < length threads"
    and "answer (threads ! i) = None" and "event_request e = reqs ! i"
  shows "distinct (map fst (order @ [(i, e)]))"
    and "\<forall>(j, f) \<in> set (order @ [(i, e)]). j < length reqs \<and> event_request f = reqs ! j"
  using c consistentD(1,3)[OF c i] assms(3,4) by (auto simp: consistent_def thread_ok_def)

lemma consistent_leave:
  assumes c: "consistent s reqs order owner threads shared" and i: "i < length threads"
    and crit: "critical (threads ! i)"
    and p: "answer p = Some r" "event_request e = reqs ! i" "operation e (state_of s order) = (r, shared')"
  shows "consistent s reqs (order @ [(i, e)]) None (threads[i := p]) shared'"
proof -
  note d = consistentD[OF c i]
  have "\<not> critical (threads[i := p] ! j)" if "j < length reqs" for j
    using that c d(2,4) crit p(1) i critical_unanswered[of p]
    by (cases "j = i") (auto simp: consistent_def)
  moreover have "thread_ok reqs (order @ [(i, e)]) (results_of s (order @ [(i, e)])) j (threads[i := p] ! j)"
    if "j < length reqs" for j
    using answered_threads[OF c i p(1) that] p(3) by simp
  moreover have "state_of s (order @ [(i, e)]) = shared'"
    using p(3) by (simp add: serial_append)
  ultimately show ?thesis
    using d(2) answered_order[OF c i critical_unanswered[OF crit] p(2)]
    unfolding consistent_def by simp
qed

text \<open>An answer given without the lock has no effect, so it may be put last in the order.\<close>

lemma consistent_answer:
  assumes c: "consistent s reqs order owner threads shared" and i: "i < length threads"
    and open_i: "answer (threads ! i) = None" "\<not> critical (threads ! i)"
    and p: "answer p = Some r" "event_request e = reqs ! i" "\<And>s. operation e s = (r, s)"
  shows "consistent s reqs (order @ [(i, e)]) owner (threads[i := p]) shared"
proof -
  note d = consistentD[OF c i]
  have "critical (threads[i := p] ! j) \<longleftrightarrow> owner = Some j" if "j < length reqs" for j
    using that c d(2,4) open_i p(1) i critical_unanswered[of p]
    by (cases "j = i") (auto simp: consistent_def)
  moreover have "thread_ok reqs (order @ [(i, e)]) (results_of s (order @ [(i, e)])) j (threads[i := p] ! j)"
    if "j < length reqs" for j
    using answered_threads[OF c i p(1) that] p(3) by simp
  moreover have "state_of s (order @ [(i, e)]) = state_of s order"
    using p(3) by (simp add: serial_append)
  moreover have "threads[i := p] ! j = threads ! j" if "owner = Some j" for j
    using that d(4) open_i(2) by (cases "j = i") auto
  ultimately show ?thesis
    using c d(2) answered_order[OF c i open_i(1) p(2)]
    unfolding consistent_def by (auto split: option.splits)
qed

text \<open>What the invariant says of the answers.\<close>

lemma consistent_answered_iff:
  assumes c: "consistent s reqs order owner threads shared" and "i < length reqs"
  shows "(\<exists>r. answer (threads ! i) = Some r) \<longleftrightarrow> i \<in> fst ` set order"
proof -
  have "thread_ok reqs order (results_of s order) i (threads ! i)"
    using assms by (simp add: consistent_def)
  then show ?thesis by (force simp: thread_ok_def split: option.splits)
qed

lemma consistent_result:
  assumes c: "consistent s reqs order owner threads shared" and k: "k < length order"
  shows "answer (threads ! fst (order ! k)) = Some (results_of s order ! k)"
proof -
  let ?i = "fst (order ! k)"
  have "order ! k \<in> set order" using k by simp
  then have i: "?i < length reqs" "?i \<in> fst ` set order"
    using c by (cases "order ! k", auto simp: consistent_def)+
  then obtain r where r: "answer (threads ! ?i) = Some r" using consistent_answered_iff[OF c] by blast
  have "thread_ok reqs order (results_of s order) ?i (threads ! ?i)"
    using c i by (simp add: consistent_def)
  then obtain k' where k': "k' < length order" "fst (order ! k') = ?i" "r = results_of s order ! k'"
    using r by (auto simp: thread_ok_def)
  from c have "distinct (map fst order)" by (simp add: consistent_def)
  with k k' have "k' = k" by (metis length_map nth_eq_iff_index_eq nth_map)
  with r k' show ?thesis by simp
qed

lemma consistent_serial:
  assumes c: "consistent s reqs order owner threads shared"
  shows "distinct (map fst order) \<and> (\<forall>(i, e) \<in> set order. i < length reqs \<and> event_request e = reqs ! i) \<and>
    (\<forall>i < length reqs. (\<exists>r. answer (threads ! i) = Some r) \<longleftrightarrow> i \<in> fst ` set order) \<and>
    (\<forall>k < length order. answer (threads ! fst (order ! k)) = Some (results_of s order ! k)) \<and>
    (owner = None \<longrightarrow> shared = state_of s order)"
proof -
  have "distinct (map fst order)" "\<forall>(i, e) \<in> set order. i < length reqs \<and> event_request e = reqs ! i"
    "owner = None \<longrightarrow> shared = state_of s order"
    using c by (auto simp: consistent_def)
  then show ?thesis using consistent_answered_iff[OF c] consistent_result[OF c] by blast
qed

lemma consistent_exclusive:
  assumes "consistent s reqs order owner threads shared"
    and "i < length threads" "critical (threads ! i)" "j < length threads" "critical (threads ! j)"
  shows "i = j \<and> owner = Some i"
  using consistentD(4)[OF assms(1,2)] consistentD(4)[OF assms(1,4)] assms(3,5) by simp

end

section \<open>Runs that end\<close>

lemma sum_list_update_less:
  assumes "i < length xs" and "f p < f (xs ! i)"
  shows "sum_list (map f (xs[i := p])) < (sum_list (map f xs) :: nat)"
  using assms by (induction xs arbitrary: i) (auto split: nat.split simp: nth_Cons)

text \<open>A relation whose steps decrease a measure and that is stuck only when done reaches the end.\<close>

lemma run_to_end:
  assumes "reach c" and "\<And>c c'. reach c \<Longrightarrow> R c c' \<Longrightarrow> reach c' \<and> m c' < (m c :: nat)"
    and "\<And>c. reach c \<Longrightarrow> \<not> done c \<Longrightarrow> \<exists>c'. R c c'"
  shows "\<exists>c'. R\<^sup>*\<^sup>* c c' \<and> done c'"
  using assms(1)
proof (induction "m c" arbitrary: c rule: less_induct)
  case less
  show ?case
  proof (cases "done c")
    case False
    with assms(3) less.prems obtain c' where "R c c'" by blast
    with assms(2) less show ?thesis by (meson converse_rtranclp_into_rtranclp)
  qed blast
qed

section \<open>Threads in parallel\<close>

text \<open>
  A configuration is the holder of the lock, where each thread is, and the shared state. An action
  is what the thread of a number may do next: from the holder, its own position and the shared
  state to the ones afterwards. Any thread may act at any time.
\<close>

record ('p, 's) config =
  cf_owner :: "nat option"
  cf_threads :: "'p list"
  cf_shared :: 's

type_synonym ('p, 's) action = "nat \<Rightarrow> nat option \<Rightarrow> 'p \<Rightarrow> 's \<Rightarrow> nat option \<Rightarrow> 'p \<Rightarrow> 's \<Rightarrow> bool"

inductive par_step :: "('p, 's) action \<Rightarrow> ('p, 's) config \<Rightarrow> ('p, 's) config \<Rightarrow> bool" for act where
  par_step: "i < length (cf_threads c) \<Longrightarrow> act i (cf_owner c) (cf_threads c ! i) (cf_shared c) owner p shared \<Longrightarrow>
     par_step act c \<lparr>cf_owner = owner, cf_threads = (cf_threads c)[i := p], cf_shared = shared\<rparr>"

inductive reachable :: "('p, 's) action \<Rightarrow> ('p, 's) config \<Rightarrow> ('p, 's) config \<Rightarrow> bool" for act c\<^sub>0 where
  start: "reachable act c\<^sub>0 c\<^sub>0"
| more: "reachable act c\<^sub>0 c \<Longrightarrow> par_step act c c' \<Longrightarrow> reachable act c\<^sub>0 c'"

definition launch :: "('q \<Rightarrow> 'p) \<Rightarrow> 's \<Rightarrow> 'q list \<Rightarrow> ('p, 's) config" where
  "launch first s reqs = \<lparr>cf_owner = None, cf_threads = map first reqs, cf_shared = s\<rparr>"

definition all_answered :: "('p \<Rightarrow> 'r option) \<Rightarrow> ('p, 's) config \<Rightarrow> bool" where
  "all_answered answer c \<longleftrightarrow> list_all (\<lambda>p. answer p \<noteq> None) (cf_threads c)"

definition work :: "('p \<Rightarrow> nat) \<Rightarrow> ('p, 's) config \<Rightarrow> nat" where
  "work rank c = sum_list (map rank (cf_threads c))"

text \<open>A run, with the threads that took the lock in the order in which they took it.\<close>

definition holder :: "nat option \<Rightarrow> nat list" where
  "holder owner = (case owner of None \<Rightarrow> [] | Some i \<Rightarrow> [i])"

definition takes :: "nat option \<Rightarrow> nat option \<Rightarrow> nat list" where
  "takes owner owner' = (if owner' = owner then [] else holder owner')"

inductive lock_run :: "('p, 's) action \<Rightarrow> ('p, 's) config \<Rightarrow> nat list \<Rightarrow> ('p, 's) config \<Rightarrow> bool" for act c\<^sub>0 where
  start: "lock_run act c\<^sub>0 [] c\<^sub>0"
| more: "lock_run act c\<^sub>0 taken c \<Longrightarrow> par_step act c c' \<Longrightarrow>
     lock_run act c\<^sub>0 (taken @ takes (cf_owner c) (cf_owner c')) c'"

lemma holder_simps [simp]: "holder None = []" "holder (Some i) = [i]" "takes owner owner = []"
  by (simp_all add: holder_def takes_def)

text \<open>The record of the lock restricts nothing: every reachable state is at the end of a run.\<close>

lemma reachable_lock_run: "reachable act c\<^sub>0 c \<longleftrightarrow> (\<exists>taken. lock_run act c\<^sub>0 taken c)"
proof
  show "reachable act c\<^sub>0 c \<Longrightarrow> \<exists>taken. lock_run act c\<^sub>0 taken c"
    by (induction rule: reachable.induct) (blast intro: lock_run.intros)+
  have "lock_run act c\<^sub>0 taken c \<Longrightarrow> reachable act c\<^sub>0 c" for taken
    by (induction rule: lock_run.induct) (blast intro: reachable.intros)+
  then show "\<exists>taken. lock_run act c\<^sub>0 taken c \<Longrightarrow> reachable act c\<^sub>0 c" by blast
qed

lemma reachable_steps: "(par_step act)\<^sup>*\<^sup>* c c' \<Longrightarrow> reachable act c\<^sub>0 c \<Longrightarrow> reachable act c\<^sub>0 c'"
  by (induction rule: rtranclp_induct) (blast intro: reachable.more)+

text \<open>
  A program of threads around one lock: its actions keep an invariant of each thread and the
  protocol's invariant, they bring their thread closer to its answer, and a thread that holds the
  lock, or finds it free, can act.
\<close>

locale lock_program = mutex_protocol operation event_request request answer critical inside
  for operation :: "'e \<Rightarrow> 's \<Rightarrow> 'r \<times> 's" and event_request :: "'e \<Rightarrow> 'q" and request :: "'p \<Rightarrow> 'q option"
    and answer :: "'p \<Rightarrow> 'r option" and critical :: "'p \<Rightarrow> bool" and inside :: "'s \<Rightarrow> 'p \<Rightarrow> 's \<Rightarrow> bool" +
  fixes act :: "('p, 's) action" and first :: "'q \<Rightarrow> 'p" and thread_inv :: "'p \<Rightarrow> bool"
    and rank :: "'p \<Rightarrow> nat" and start_ok :: "'s \<Rightarrow> bool"
  assumes first: "answer (first q) = None" "request (first q) = Some q" "\<not> critical (first q)" "thread_inv (first q)"
    and act_inv: "act i owner p sh owner' p' sh' \<Longrightarrow> thread_inv p \<Longrightarrow> thread_inv p'"
    and act_rank: "act i owner p sh owner' p' sh' \<Longrightarrow> rank p' < rank p"
    and act_consistent: "start_ok s \<Longrightarrow> consistent s reqs order owner threads sh \<Longrightarrow> i < length threads \<Longrightarrow>
      thread_inv (threads ! i) \<Longrightarrow> act i owner (threads ! i) sh owner' p' sh' \<Longrightarrow>
      \<exists>order'. consistent s reqs order' owner' (threads[i := p']) sh'"
    and act_enabled: "start_ok s \<Longrightarrow> consistent s reqs order owner threads sh \<Longrightarrow> i < length threads \<Longrightarrow>
      answer (threads ! i) = None \<Longrightarrow> critical (threads ! i) \<or> owner = None \<Longrightarrow>
      \<exists>owner' p' sh'. act i owner (threads ! i) sh owner' p' sh'"
begin

definition config_ok :: "'s \<Rightarrow> 'q list \<Rightarrow> (nat \<times> 'e) list \<Rightarrow> ('p, 's) config \<Rightarrow> bool" where
  "config_ok s reqs order c \<longleftrightarrow>
     consistent s reqs order (cf_owner c) (cf_threads c) (cf_shared c) \<and> list_all thread_inv (cf_threads c)"

lemma config_ok_launch: "config_ok s reqs [] (launch first s reqs)"
  by (simp add: config_ok_def launch_def first consistent_start list_all_iff)

lemma config_ok_step:
  assumes "start_ok s" and "par_step act c c'" and "config_ok s reqs order c"
  shows "\<exists>order'. config_ok s reqs order' c'"
  using assms(2)
proof cases
  case (par_step i owner p shared)
  then have inv: "thread_inv (cf_threads c ! i)" using assms(3) by (simp add: config_ok_def list_all_length)
  then have "list_all thread_inv (cf_threads c')"
    using par_step act_inv assms(3) by (auto simp: config_ok_def list_all_length nth_list_update)
  moreover have "consistent s reqs order (cf_owner c) (cf_threads c) (cf_shared c)"
    using assms(3) by (simp add: config_ok_def)
  ultimately show ?thesis
    using par_step act_consistent[OF assms(1) _ par_step(2) inv par_step(3)] by (auto simp: config_ok_def)
qed

lemma reachable_ok: "reachable act (launch first s reqs) c \<Longrightarrow> start_ok s \<Longrightarrow> \<exists>order. config_ok s reqs order c"
  by (induction rule: reachable.induct) (blast intro: config_ok_launch config_ok_step)+

text \<open>In every reachable state the answers are those of a serial execution.\<close>

lemma serializable:
  assumes "reachable act (launch first s reqs) c" and "start_ok s"
  shows "\<exists>order. distinct (map fst order) \<and>
    (\<forall>(i, e) \<in> set order. i < length reqs \<and> event_request e = reqs ! i) \<and>
    (\<forall>i < length reqs. (\<exists>r. answer (cf_threads c ! i) = Some r) \<longleftrightarrow> i \<in> fst ` set order) \<and>
    (\<forall>k < length order. answer (cf_threads c ! fst (order ! k)) = Some (results_of s order ! k)) \<and>
    (cf_owner c = None \<longrightarrow> cf_shared c = state_of s order)"
  using reachable_ok[OF assms] consistent_serial unfolding config_ok_def by blast

lemma reachable_length:
  "reachable act (launch first s reqs) c \<Longrightarrow> start_ok s \<Longrightarrow> length (cf_threads c) = length reqs"
  using reachable_ok by (fastforce simp: config_ok_def consistent_def)

lemma exclusive:
  assumes "reachable act (launch first s reqs) c" and "start_ok s"
    and "i < length (cf_threads c)" "critical (cf_threads c ! i)" "j < length (cf_threads c)" "critical (cf_threads c ! j)"
  shows "i = j \<and> cf_owner c = Some i"
  using reachable_ok[OF assms(1,2)] consistent_exclusive[OF _ assms(3-6)] unfolding config_ok_def by blast

text \<open>Runs end, and only when every request is answered.\<close>

lemma step_work: "par_step act c c' \<Longrightarrow> work rank c' < work rank c"
  by (induction rule: par_step.induct) (simp add: work_def sum_list_update_less act_rank)

lemma unanswered_step:
  assumes "reachable act (launch first s reqs) c" and "start_ok s" and "\<not> all_answered answer c"
  shows "\<exists>c'. par_step act c c'"
proof -
  obtain order where c: "consistent s reqs order (cf_owner c) (cf_threads c) (cf_shared c)"
    using reachable_ok[OF assms(1,2)] by (auto simp: config_ok_def)
  obtain i where i: "i < length (cf_threads c)" "answer (cf_threads c ! i) = None"
    using assms(3) by (auto simp: all_answered_def list_all_length)
  obtain j where j: "j < length (cf_threads c)" "answer (cf_threads c ! j) = None"
    "critical (cf_threads c ! j) \<or> cf_owner c = None"
  proof (cases "cf_owner c")
    case (Some k)
    then have "k < length (cf_threads c)" using c by (simp add: consistent_def)
    with consistentD(4)[OF c this] Some show ?thesis using that[of k] critical_unanswered by simp
  qed (use i that in blast)
  from act_enabled[OF assms(2) c j] par_step.par_step[OF j(1), of act] show ?thesis by blast
qed

lemma completes:
  assumes "reachable act (launch first s reqs) c" and "start_ok s"
  shows "\<exists>c'. (par_step act)\<^sup>*\<^sup>* c c' \<and> all_answered answer c'"
  using run_to_end[of "reachable act (launch first s reqs)" c "par_step act" "work rank" "all_answered answer", OF assms(1)]
    reachable.more step_work unanswered_step assms(2) by blast

lemma completed_run:
  "start_ok s \<Longrightarrow> \<exists>c. reachable act (launch first s reqs) c \<and> all_answered answer c"
  using completes reachable.start reachable_steps by blast

end

end
