(* ===== verification/Serving.thy ===== *)
theory Serving
  imports Fakes Mutex
begin

text \<open>
  Requests one after another and requests in parallel. \<open>serve\<close> is the serial execution of a
  list of requests. The step relation is the parallel one: the HTTP library may call
  \<open>ProxyService::handle\<close> from several threads, and the body of \<open>handle\<close> is cut at its
  effects on shared state, with the \<open>lock_guard\<close> taken first and released on return. The
  parallel execution is shown to be a serial one in the order in which the lock was taken.
\<close>

section \<open>Serial execution\<close>

type_synonym event = "int \<times> string"

fun serve ::
  "('db, 'sink) Adapters \<Rightarrow> ('db, 'sink) ProxyService \<Rightarrow> event list
     \<Rightarrow> ServiceResult list \<times> ('db, 'sink) ProxyService" where
  "serve ad s [] = ([], s)"
| "serve ad s ((ts, sql) # rest) =
     (let (r, s) = handle ad ts sql s; (rs, s) = serve ad s rest in (r # rs, s))"

lemma serve_Cons [simp]:
  "serve ad s (e # es) =
     (fst (handle ad (fst e) (snd e) s) # fst (serve ad (snd (handle ad (fst e) (snd e) s)) es),
      snd (serve ad (snd (handle ad (fst e) (snd e) s)) es))"
  by (cases e) (simp add: case_prod_unfold Let_def)

declare serve.simps(2) [simp del]

lemma serve_append:
  "serve ad s (es @ es') =
     (fst (serve ad s es) @ fst (serve ad (snd (serve ad s es)) es'),
      snd (serve ad (snd (serve ad s es)) es'))"
  by (induction es arbitrary: s) simp_all

lemma serve_snoc:
  "serve ad s (es @ [(ts, sql)]) =
     (fst (serve ad s es) @ [fst (handle ad ts sql (snd (serve ad s es)))],
      snd (handle ad ts sql (snd (serve ad s es))))"
  by (simp add: serve_append)

lemma length_serve [simp]: "length (fst (serve ad s es)) = length es"
  by (induction es arbitrary: s) simp_all

lemma serve_next_id: "sv_next_request_id (snd (serve ad s es)) = sv_next_request_id s + of_nat (length es)"
  by (induction es arbitrary: s) (simp_all add: add.assoc)

lemma serve_serial: "serve ad s es = serial (\<lambda>(ts, sql). handle ad ts sql) s es"
  by (induction es arbitrary: s) (simp_all add: case_prod_unfold)

text \<open>The records a sequence of requests hands to the audit repository.\<close>

fun trail :: "('db, 'sink) Adapters \<Rightarrow> ('db, 'sink) ProxyService \<Rightarrow> event list \<Rightarrow> AuditRecord list" where
  "trail ad s [] = []"
| "trail ad s (e # es) =
     pg_record (handle_processing ad (fst e) (snd e) s) # trail ad (snd (handle ad (fst e) (snd e) s)) es"

lemma trail_length [simp]: "length (trail ad s es) = length es"
  by (induction es arbitrary: s) simp_all

lemma trail_ids: "map ar_request_id (trail ad s es) = map (\<lambda>k. sv_next_request_id s + of_nat k) [0..<length es]"
proof (induction es arbitrary: s)
  case (Cons e es)
  have "ar_request_id (pg_record (handle_processing ad (fst e) (snd e) s)) = sv_next_request_id s"
    using handle_recorded by (fastforce simp: well_recorded_def)
  with Cons show ?case
    by (simp add: map_upt_Suc add.assoc del: upt_Suc)
qed simp

lemma trail_times: "map ar_timestamp_ms (trail ad s es) = map fst es"
proof (induction es arbitrary: s)
  case (Cons e es)
  have "ar_timestamp_ms (pg_record (handle_processing ad (fst e) (snd e) s)) = fst e"
    using handle_recorded by (fastforce simp: well_recorded_def)
  with Cons show ?case by simp
qed simp

lemma trail_sink:
  "sv_sink (snd (serve ad s es)) = fold (\<lambda>rec sink. snd (append_safely ad sink rec)) (trail ad s es) (sv_sink s)"
  by (induction es arbitrary: s) (simp_all add: handle_append_def)

section \<open>Parallel execution\<close>

text \<open>Where a thread is inside \<open>handle\<close>, with its local variables.\<close>

datatype pc =
  Ready string
| Locked string
| Stamped string int "64 word"
| Processed int string Processing
| Appended int string Processing AuditAppendResult
| Returned ServiceResult

text \<open>The tail of \<open>handle\<close>: the log line and the result that is returned.\<close>

definition finish ::
  "Processing \<Rightarrow> AuditAppendResult \<Rightarrow> ('db, 'sink) ProxyService \<Rightarrow> ServiceResult \<times> ('db, 'sink) ProxyService" where
  "finish processing appended s =
     (if appended \<noteq> AppendOk then
        (if succeeded (pg_result processing) then SrFailure SfInternalError else pg_result processing,
         s\<lparr>sv_syslog := map_option
             (\<lambda>ls. ls @ [''audit persistence failed ('' @ AuditAppendResult_to_string appended @ '')''])
             (sv_syslog s)\<rparr>)
      else (pg_result processing, s))"

inductive handle_action :: "('db, 'sink) Adapters \<Rightarrow> (pc, ('db, 'sink) ProxyService) action" for ad i where
  lock: "handle_action ad i None (Ready sql) s (Some i) (Locked sql) s"
| stamp: "rid = sv_next_request_id s \<Longrightarrow>
     handle_action ad i owner (Locked sql) s owner (Stamped sql ts rid) (s\<lparr>sv_next_request_id := rid + 1\<rparr>)"
| process: "process ad (sv_classifier s) (sv_db s) sql ts rid = (r, db') \<Longrightarrow>
     handle_action ad i owner (Stamped sql ts rid) s owner (Processed ts sql (recover ts rid r)) (s\<lparr>sv_db := db'\<rparr>)"
| append: "append_safely ad (sv_sink s) (pg_record p) = (appended, sink') \<Longrightarrow>
     handle_action ad i owner (Processed ts sql p) s owner (Appended ts sql p appended) (s\<lparr>sv_sink := sink'\<rparr>)"
| return: "finish p appended s = (result, s') \<Longrightarrow>
     handle_action ad i owner (Appended ts sql p appended) s None (Returned result) s'"

text \<open>One thread per request calls \<open>handle\<close>.\<close>

abbreviation serving ::
  "('db, 'sink) Adapters \<Rightarrow> ('db, 'sink) ProxyService \<Rightarrow> string list \<Rightarrow> (pc, ('db, 'sink) ProxyService) config \<Rightarrow> bool" where
  "serving ad s sqls \<equiv> reachable (handle_action ad) (launch Ready s sqls)"

section \<open>Lemmas\<close>

text \<open>The cut points put together are \<open>handle\<close>.\<close>

lemma handle_finish:
  "handle ad ts sql s =
     (let rid = sv_next_request_id s;
          (r, db') = process ad (sv_classifier s) (sv_db s) sql ts rid;
          (appended, sink') = append_safely ad (sv_sink s) (pg_record (recover ts rid r))
      in finish (recover ts rid r) appended
           (s\<lparr>sv_next_request_id := rid + 1, sv_db := db', sv_sink := sink'\<rparr>))"
  by (simp add: handle_def finish_def Let_def case_prod_unfold)

text \<open>What the shared state is while a thread holds the lock, from the state before.\<close>

fun inside :: "('db, 'sink) Adapters \<Rightarrow> ('db, 'sink) ProxyService \<Rightarrow> pc \<Rightarrow> ('db, 'sink) ProxyService \<Rightarrow> bool" where
  "inside ad s (Ready sql) s' = False"
| "inside ad s (Locked sql) s' = (s' = s)"
| "inside ad s (Stamped sql ts rid) s' =
     (rid = sv_next_request_id s \<and> s' = s\<lparr>sv_next_request_id := rid + 1\<rparr>)"
| "inside ad s (Processed ts sql p) s' =
     (\<exists>r db'. process ad (sv_classifier s) (sv_db s) sql ts (sv_next_request_id s) = (r, db') \<and>
        p = recover ts (sv_next_request_id s) r \<and>
        s' = s\<lparr>sv_next_request_id := sv_next_request_id s + 1, sv_db := db'\<rparr>)"
| "inside ad s (Appended ts sql p appended) s' =
     (\<exists>r db' sink'. process ad (sv_classifier s) (sv_db s) sql ts (sv_next_request_id s) = (r, db') \<and>
        p = recover ts (sv_next_request_id s) r \<and>
        append_safely ad (sv_sink s) (pg_record p) = (appended, sink') \<and>
        s' = s\<lparr>sv_next_request_id := sv_next_request_id s + 1, sv_db := db', sv_sink := sink'\<rparr>)"
| "inside ad s (Returned r) s' = False"

fun critical :: "pc \<Rightarrow> bool" where
  "critical (Ready sql) = False"
| "critical (Returned r) = False"
| "critical _ = True"

fun sql_of :: "pc \<Rightarrow> string option" where
  "sql_of (Ready sql) = Some sql"
| "sql_of (Locked sql) = Some sql"
| "sql_of (Stamped sql ts rid) = Some sql"
| "sql_of (Processed ts sql p) = Some sql"
| "sql_of (Appended ts sql p a) = Some sql"
| "sql_of (Returned r) = None"

lemma inside_finish:
  "inside ad s (Appended ts sql p appended) s' \<Longrightarrow> finish p appended s' = handle ad ts sql s"
  by (auto simp: handle_finish Let_def)

fun answer_of :: "pc \<Rightarrow> ServiceResult option" where
  "answer_of (Returned r) = Some r"
| "answer_of _ = None"

text \<open>The service's lock: a request is one call of \<open>handle\<close> with a clock reading.\<close>

interpretation lock: mutex_protocol "\<lambda>(ts, sql). handle ad ts sql" snd sql_of answer_of critical "inside ad" for ad
proof unfold_locales
  show "critical p \<Longrightarrow> answer_of p = None" for p by (cases p) simp_all
qed

text \<open>
  The order of the answers, with the thread that holds the lock last, is the order in which the lock
  was taken.
\<close>

lemma serving_action_order:
  assumes c: "lock.consistent ad s sqls order owner threads sh" and i: "i < length threads"
    and "handle_action ad i owner (threads ! i) sh owner' p' sh'"
  shows "\<exists>order'. lock.consistent ad s sqls order' owner' (threads[i := p']) sh' \<and>
    map fst order' @ holder owner' = map fst order @ holder owner @ takes owner owner'"
proof -
  note inside = lock.consistentD(5)[OF c i]
  note within = lock.consistent_within[OF c i, of p' sh']
  from assms(3) show ?thesis
  proof cases
    case (lock sql)
    then show ?thesis
      using lock.consistent_enter[of ad s sqls order threads sh i p'] c i by (intro exI[of _ order]) (auto simp: takes_def)
  next
    case (stamp rid sql ts)
    then show ?thesis using inside within by (intro exI[of _ order]) auto
  next
    case (process sql ts rid r db')
    then show ?thesis using inside within by (intro exI[of _ order]) fastforce
  next
    case (append p appended sink' ts sql)
    then show ?thesis using inside within by (intro exI[of _ order]) fastforce
  next
    case (return p appended result ts sql)
    let ?s = "snd (serial (\<lambda>(ts, sql). handle ad ts sql) s (map snd order))"
    have "sqls ! i = sql" "inside ad ?s (Appended ts sql p appended) sh"
      using lock.consistent_request[OF c i] inside return(1) by simp_all
    moreover from this(2) return have "handle ad ts sql ?s = (result, sh')"
      using inside_finish by metis
    moreover have "owner = Some i" using lock.consistentD(4)[OF c i] return(1) by simp
    ultimately show ?thesis
      using lock.consistent_leave[OF c i, of "Returned result" result "(ts, sql)" sh'] return
      by (intro exI[of _ "order @ [(i, (ts, sql))]"]) (auto simp: takes_def)
  qed
qed

lemma serving_action:
  assumes "lock.consistent ad s sqls order owner threads sh" and "i < length threads"
    and "handle_action ad i owner (threads ! i) sh owner' p' sh'"
  shows "\<exists>order'. lock.consistent ad s sqls order' owner' (threads[i := p']) sh'"
  using serving_action_order[OF assms] by blast

lemma serving_run:
  assumes "lock_run (handle_action ad) (launch Ready s sqls) taken c"
  shows "\<exists>order. lock.consistent ad s sqls order (cf_owner c) (cf_threads c) (cf_shared c) \<and>
    map fst order @ holder (cf_owner c) = taken"
  using assms
proof (induction rule: lock_run.induct)
  case start
  then show ?case by (intro exI[of _ "[]"]) (simp add: launch_def lock.consistent_start)
next
  case (more taken c c')
  then obtain order where c: "lock.consistent ad s sqls order (cf_owner c) (cf_threads c) (cf_shared c)"
    and taken: "map fst order @ holder (cf_owner c) = taken" by blast
  from more(2) show ?case
  proof cases
    case (par_step i owner p shared)
    from serving_action_order[OF c par_step(2,3)] show ?thesis
      by (simp add: par_step(1) taken[symmetric])
  qed
qed

text \<open>Every action is progress, and one is possible under the lock and when the lock is free.\<close>

fun rank :: "pc \<Rightarrow> nat" where
  "rank (Ready sql) = 5"
| "rank (Locked sql) = 4"
| "rank (Stamped sql ts rid) = 3"
| "rank (Processed ts sql p) = 2"
| "rank (Appended ts sql p a) = 1"
| "rank (Returned r) = 0"

lemma handle_action_possible:
  assumes "answer_of p = None" and "critical p \<or> owner = None"
  shows "\<exists>owner' p' s'. handle_action ad i owner p s owner' p' s'"
proof (cases p)
  case (Ready sql)
  with assms show ?thesis by (metis critical.simps(1) handle_action.lock)
next
  case (Locked sql)
  then show ?thesis by (metis handle_action.stamp)
next
  case (Stamped sql ts rid)
  then show ?thesis by (metis handle_action.process prod.collapse)
next
  case (Processed ts sql p)
  then show ?thesis by (metis handle_action.append prod.collapse)
next
  case (Appended ts sql p a)
  then show ?thesis by (metis handle_action.return prod.collapse)
qed (use assms in simp)

interpretation service: lock_program "\<lambda>(ts, sql). handle ad ts sql" snd sql_of answer_of critical "inside ad"
  "handle_action ad" Ready "\<lambda>_. True" rank "\<lambda>_. True" for ad
proof unfold_locales
  show "handle_action ad i owner p sh owner' p' sh' \<Longrightarrow> rank p' < rank p" for i owner p sh owner' p' sh'
    by (induction rule: handle_action.induct) simp_all
qed (simp_all add: serving_action handle_action_possible)

lemma answer_of_Some [simp]: "answer_of p = Some r \<longleftrightarrow> p = Returned r"
  by (cases p) auto

text \<open>An order of calls of \<open>handle\<close>, as the threads in their turns with their clock readings.\<close>

lemma clock_turns:
  assumes "\<forall>(i, e) \<in> set order. i < length sqls \<and> snd e = sqls ! i"
  shows "\<exists>turns. map (\<lambda>(i, ts). (ts, sqls ! i)) turns = map snd order \<and> map fst turns = map fst order \<and>
    length turns = length order \<and> fst ` set turns = fst ` set order \<and>
    (\<forall>k < length order. fst (turns ! k) = fst (order ! k))"
proof -
  let ?turns = "map (\<lambda>(i, ts, sql). (i, ts)) order"
  have "map (\<lambda>(i, ts). (ts, sqls ! i)) ?turns = map snd order" using assms by auto
  moreover have fst_turns: "map fst ?turns = map fst order" by (simp add: case_prod_unfold)
  moreover have "fst ` set ?turns = fst ` set order" using fst_turns by (metis set_map)
  moreover have "\<forall>k < length order. fst (?turns ! k) = fst (order ! k)" by (simp add: case_prod_unfold)
  ultimately show ?thesis using length_map by (intro exI[of _ ?turns] conjI)
qed

text \<open>Runs for the witnesses: one thread that has just taken the lock, and a finished run.\<close>

definition demo_locked :: "(pc, (string list, AuditRecord list) ProxyService) config" where
  "demo_locked = \<lparr>cf_owner = Some 0, cf_threads = [Locked demo_sql], cf_shared = fresh_service\<rparr>"

lemma demo_locked_reachable: "serving demo_adapters fresh_service [demo_sql] demo_locked"
proof -
  let ?c = "launch Ready fresh_service [demo_sql] :: (pc, (string list, AuditRecord list) ProxyService) config"
  have "par_step (handle_action demo_adapters) ?c
      \<lparr>cf_owner = Some 0, cf_threads = (cf_threads ?c)[0 := Locked demo_sql], cf_shared = fresh_service\<rparr>"
    by (rule par_step.par_step) (simp_all add: launch_def handle_action.lock)
  from reachable.more[OF reachable.start this] show ?thesis by (simp add: launch_def demo_locked_def)
qed

text \<open>A thread that finds the lock free can run to its end by itself.\<close>

lemma solo_run:
  assumes "lock_run (handle_action ad) c\<^sub>0 taken c" and "cf_owner c = None"
    and "i < length (cf_threads c)" "cf_threads c ! i = Ready sql"
  shows "\<exists>c' r. lock_run (handle_action ad) c\<^sub>0 (taken @ [i]) c' \<and> cf_owner c' = None \<and>
    cf_threads c' = (cf_threads c)[i := Returned r]"
proof -
  let ?c = "\<lambda>owner p s. \<lparr>cf_owner = owner, cf_threads = (cf_threads c)[i := p], cf_shared = s\<rparr>"
  have step: "lock_run (handle_action ad) c\<^sub>0 (taken' @ takes owner owner') (?c owner' p' s')"
    if "lock_run (handle_action ad) c\<^sub>0 taken' (?c owner p s)" "handle_action ad i owner p s owner' p' s'"
    for taken' owner p s owner' p' s'
  proof -
    have "par_step (handle_action ad) (?c owner p s) (?c owner' p' s')"
      using par_step.par_step[of i "?c owner p s" "handle_action ad" owner' p' s'] that(2) assms(3) by simp
    from lock_run.more[OF that(1) this] show ?thesis by simp
  qed
  let ?s = "cf_shared c" and ?rid = "sv_next_request_id (cf_shared c)"
  have "(cf_threads c)[i := Ready sql] = cf_threads c" using assms(4) by (metis list_update_id)
  then have "c = ?c None (Ready sql) ?s" using assms(2) by (cases c) simp
  with assms(1) have "lock_run (handle_action ad) c\<^sub>0 taken (?c None (Ready sql) ?s)" by metis
  from step[OF this handle_action.lock]
  have 1: "lock_run (handle_action ad) c\<^sub>0 (taken @ [i]) (?c (Some i) (Locked sql) ?s)" by (simp add: takes_def)
  from step[OF 1 handle_action.stamp[OF refl, where ts = 0]]
  have 2: "lock_run (handle_action ad) c\<^sub>0 (taken @ [i])
      (?c (Some i) (Stamped sql 0 ?rid) (?s\<lparr>sv_next_request_id := ?rid + 1\<rparr>))" by simp
  from step[OF 2 handle_action.process[OF prod.collapse[symmetric]]]
  obtain p s' where 3: "lock_run (handle_action ad) c\<^sub>0 (taken @ [i]) (?c (Some i) (Processed 0 sql p) s')" by simp
  from step[OF 3 handle_action.append[OF prod.collapse[symmetric]]]
  obtain x s'' where 4: "lock_run (handle_action ad) c\<^sub>0 (taken @ [i]) (?c (Some i) (Appended 0 sql p x) s'')" by simp
  obtain r t where "finish p x s'' = (r, t)" by fastforce
  from step[OF 4 handle_action.return[OF this]]
  have "lock_run (handle_action ad) c\<^sub>0 (taken @ [i]) (?c None (Returned r) t)" by (simp add: takes_def)
  then show ?thesis by (intro exI[of _ "?c None (Returned r) t"] exI[of _ r]) simp
qed

lemma demo_two_threads:
  "\<exists>c. lock_run (handle_action demo_adapters) (launch Ready fresh_service [demo_sql, demo_sql]) [1, 0] c \<and> cf_owner c = None"
proof -
  let ?c\<^sub>0 = "launch Ready fresh_service [demo_sql, demo_sql]"
  let ?run = "lock_run (handle_action demo_adapters) ?c\<^sub>0"
  have "?run [] ?c\<^sub>0" by (rule lock_run.start)
  from solo_run[OF this, of 1 demo_sql] obtain c r where c: "?run [1] c" "cf_owner c = None"
    "cf_threads c = [Ready demo_sql, Returned r]"
    by (auto simp: launch_def)
  from solo_run[OF c(1,2), of 0 demo_sql] show ?thesis by (auto simp: c(3))
qed

section \<open>Properties\<close>

text \<open>
  C7. Parallel requests are answered in the order of the lock: at every moment of every run of
  threads inside the service, the threads that took the lock so far are, in the order in which they
  took it, those that have answered and then the one that holds the lock, if any. Each answer is the
  one the request has in the serial execution in that order, with clock readings of the requests'
  own; and whenever nobody holds the lock, the database, the audit sink, the request counter and the
  system log are those of that serial execution. No thread takes the lock twice.
\<close>

theorem concurrent_is_serial:
  assumes "lock_run (handle_action ad) (launch Ready s sqls) taken c"
  shows "\<exists>order. map fst order @ holder (cf_owner c) = taken \<and> distinct (map fst order) \<and>
    (\<forall>i < length sqls. (\<exists>r. cf_threads c ! i = Returned r) \<longleftrightarrow> i \<in> fst ` set order) \<and>
    (\<forall>k < length order. cf_threads c ! fst (order ! k) =
       Returned (fst (serve ad s (map (\<lambda>(i, ts). (ts, sqls ! i)) order)) ! k)) \<and>
    (cf_owner c = None \<longrightarrow> cf_shared c = snd (serve ad s (map (\<lambda>(i, ts). (ts, sqls ! i)) order)))"
proof -
  from serving_run[OF assms] obtain order where taken: "map fst order @ holder (cf_owner c) = taken"
    and c: "lock.consistent ad s sqls order (cf_owner c) (cf_threads c) (cf_shared c)" by blast
  have serial: "distinct (map fst order) \<and> (\<forall>(i, e) \<in> set order. i < length sqls \<and> snd e = sqls ! i) \<and>
    (\<forall>i < length sqls. (\<exists>r. cf_threads c ! i = Returned r) \<longleftrightarrow> i \<in> fst ` set order) \<and>
    (\<forall>k < length order. cf_threads c ! fst (order ! k) = Returned (fst (serve ad s (map snd order)) ! k)) \<and>
    (cf_owner c = None \<longrightarrow> cf_shared c = snd (serve ad s (map snd order)))"
    using lock.consistent_serial[OF c] unfolding answer_of_Some serve_serial .
  then have ev: "\<forall>(i, e) \<in> set order. i < length sqls \<and> snd e = sqls ! i" by (elim conjE)
  obtain turns where ev_turns: "map (\<lambda>(i, ts). (ts, sqls ! i)) turns = map snd order"
    and fst_turns: "map fst turns = map fst order" "length turns = length order" "fst ` set turns = fst ` set order"
      "\<forall>k < length order. fst (turns ! k) = fst (order ! k)"
    using clock_turns[OF ev] by blast
  show ?thesis
    using taken serial by (intro exI[of _ turns]) (simp add: ev_turns fst_turns)
qed

text \<open>Two threads, of which the second takes the lock first.\<close>

theorem concurrent_is_serial_witness:
  "\<exists>c order. lock_run (handle_action demo_adapters) (launch Ready fresh_service [demo_sql, demo_sql]) [1, 0] c \<and>
     map fst order = [1, 0] \<and>
     (\<forall>k < 2. cf_threads c ! fst (order ! k) =
        Returned (fst (serve demo_adapters fresh_service (map (\<lambda>(i, ts). (ts, [demo_sql, demo_sql] ! i)) order)) ! k))"
proof -
  obtain c where c: "lock_run (handle_action demo_adapters) (launch Ready fresh_service [demo_sql, demo_sql]) [1, 0] c"
    "cf_owner c = None"
    using demo_two_threads by blast
  from concurrent_is_serial[OF c(1)] obtain order where o: "map fst order = [1, 0]"
      "\<forall>k < length order. cf_threads c ! fst (order ! k) =
        Returned (fst (serve demo_adapters fresh_service (map (\<lambda>(i, ts). (ts, [demo_sql, demo_sql] ! i)) order)) ! k)"
    unfolding c(2) holder_simps append_Nil2 by (elim exE conjE)
  from arg_cong[OF o(1), of length] have "length order = 2" by simp
  with o(2) c(1) o(1) show ?thesis by (intro exI[of _ c] exI[of _ order]) simp
qed

text \<open>
  Mutual exclusion: at most one thread is between taking the lock and returning, and it is the
  one that holds the lock.
\<close>

theorem mutual_exclusion:
  assumes "serving ad s sqls c"
    and "i < length (cf_threads c)" "critical (cf_threads c ! i)"
    and "j < length (cf_threads c)" "critical (cf_threads c ! j)"
  shows "i = j \<and> cf_owner c = Some i"
  by (rule service.exclusive[OF assms(1) TrueI assms(2-5)])

theorem mutual_exclusion_witness:
  "critical (cf_threads demo_locked ! 0) \<and> cf_owner demo_locked = Some 0"
proof -
  have "0 < length (cf_threads demo_locked)" "critical (cf_threads demo_locked ! 0)"
    by (simp_all add: demo_locked_def)
  with mutual_exclusion[OF demo_locked_reachable, of 0 0] show ?thesis by blast
qed

text \<open>
  C37. Every request is answered: from each reachable state some continuation answers all requests,
  each step brings a run closer to its end, and as long as a request is unanswered a step is
  possible, so no run stops early and none goes on forever.
\<close>

theorem requests_complete:
  assumes "serving ad s sqls c"
  shows "(\<exists>c'. (par_step (handle_action ad))\<^sup>*\<^sup>* c c' \<and> all_answered answer_of c') \<and>
    (\<forall>c'. par_step (handle_action ad) c c' \<longrightarrow> work rank c' < work rank c) \<and>
    (all_answered answer_of c \<or> (\<exists>c'. par_step (handle_action ad) c c'))"
  using service.completes[OF assms TrueI] service.step_work service.unanswered_step[OF assms TrueI] by blast

theorem requests_complete_witness:
  "\<exists>c. (par_step (handle_action demo_adapters))\<^sup>*\<^sup>* demo_locked c \<and> all_answered answer_of c"
  using requests_complete[OF demo_locked_reachable] by blast

text \<open>
  C35. Request ids: a sequence of requests hands one record per request to the audit repository, in
  order and nothing else, with the clock readings of the requests and consecutive ids. The id is a
  64-bit counter that wraps around, so the ids of a run are all different exactly as long as it has
  at most 2 to the 64 requests.
\<close>

theorem request_ids:
  "sv_sink (snd (serve ad s es)) = fold (\<lambda>rec sink. snd (append_safely ad sink rec)) (trail ad s es) (sv_sink s) \<and>
   length (trail ad s es) = length es \<and> map ar_timestamp_ms (trail ad s es) = map fst es \<and>
   map ar_request_id (trail ad s es) = map (\<lambda>k. sv_next_request_id s + of_nat k) [0..<length es] \<and>
   (distinct (map ar_request_id (trail ad s es)) \<longleftrightarrow> length es \<le> 2 ^ 64)"
  using counter_distinct[of "sv_next_request_id s" "length es"] by (simp add: trail_sink trail_times trail_ids)

end
