(* ===== verification/Config.thy ===== *)
theory Config
  imports Prelude
begin

text \<open>
  \<open>src/src/config/config.cpp\<close>: the two groups of settings, resolved from environment values
  (\<open>None\<close> is an unset variable). A port is a 16-bit word, as in the source.
\<close>

section \<open>Definitions\<close>

datatype PortSource = SourceDefault | SourceEnvironment

record PortResolution =
  po_valid :: bool
  po_port :: "16 word"
  po_source :: PortSource
  po_error :: string

definition kMinPort :: int where
  "kMinPort = 1"

definition kMaxPort :: int where
  "kMaxPort = 65535"

definition quoted :: "string \<Rightarrow> string" where
  "quoted raw = [CHR 0x27] @ raw @ [CHR 0x27]"

definition resolve_port :: "string option \<Rightarrow> 16 word \<Rightarrow> PortResolution" where
  "resolve_port port_env_value default_port =
     (case port_env_value of
        None \<Rightarrow> \<lparr>po_valid = True, po_port = default_port, po_source = SourceDefault, po_error = []\<rparr>
      | Some raw \<Rightarrow>
          if raw = [] then
            \<lparr>po_valid = False, po_port = 0, po_source = SourceEnvironment,
             po_error = ''PORT environment variable is set but empty''\<rparr>
          else
            (case from_chars_int raw of (ec, ptr, parsed) \<Rightarrow>
               if ec \<noteq> ErrcNone \<or> ptr \<noteq> [] then
                 \<lparr>po_valid = False, po_port = 0, po_source = SourceEnvironment,
                  po_error = ''PORT value '' @ quoted raw @ '' is not a valid integer''\<rparr>
               else if parsed < kMinPort \<or> parsed > kMaxPort then
                 \<lparr>po_valid = False, po_port = 0, po_source = SourceEnvironment,
                  po_error = ''PORT value '' @ quoted raw @ '' is out of range ('' @
                    string_of_int kMinPort @ ''-'' @ string_of_int kMaxPort @ '')''\<rparr>
               else
                 \<lparr>po_valid = True, po_port = word_of_int parsed, po_source = SourceEnvironment,
                  po_error = []\<rparr>))"

definition kDefaultStatementTimeoutMs :: int where
  "kDefaultStatementTimeoutMs = 5000"

definition kMaxStatementTimeoutMs :: int where
  "kMaxStatementTimeoutMs = 600000"

record DatabaseConfig =
  db_connection_string :: string
  db_statement_timeout_ms :: int

record DatabaseConfigResolution =
  dr_valid :: bool
  dr_config :: DatabaseConfig
  dr_error :: string

definition default_DatabaseConfigResolution :: DatabaseConfigResolution where
  "default_DatabaseConfigResolution =
     \<lparr>dr_valid = False, dr_config = \<lparr>db_connection_string = [], db_statement_timeout_ms = 5000\<rparr>,
      dr_error = []\<rparr>"

definition resolve_database_config :: "string option \<Rightarrow> string option \<Rightarrow> DatabaseConfigResolution" where
  "resolve_database_config database_url statement_timeout_ms =
     (let out = default_DatabaseConfigResolution in
      case database_url of
        None \<Rightarrow> out\<lparr>dr_valid := False,
                  dr_error := ''DATABASE_URL environment variable is required but not set''\<rparr>
      | Some url \<Rightarrow>
          if url = [] then
            out\<lparr>dr_valid := False,
                dr_error := ''DATABASE_URL environment variable is required but not set''\<rparr>
          else
            let out = out\<lparr>dr_config := (dr_config out)\<lparr>db_connection_string := url\<rparr>\<rparr> in
            case statement_timeout_ms of
              None \<Rightarrow> out\<lparr>dr_config := (dr_config out)\<lparr>db_statement_timeout_ms := kDefaultStatementTimeoutMs\<rparr>,
                        dr_valid := True\<rparr>
            | Some raw \<Rightarrow>
                if raw = [] then
                  out\<lparr>dr_valid := False, dr_error := ''DB_STATEMENT_TIMEOUT_MS is set but empty''\<rparr>
                else
                  (case from_chars_int raw of (ec, ptr, parsed) \<Rightarrow>
                     if ec \<noteq> ErrcNone \<or> ptr \<noteq> [] then
                       out\<lparr>dr_valid := False, dr_error := ''DB_STATEMENT_TIMEOUT_MS is not a valid integer''\<rparr>
                     else if parsed \<le> 0 \<or> parsed > kMaxStatementTimeoutMs then
                       out\<lparr>dr_valid := False,
                           dr_error := ''DB_STATEMENT_TIMEOUT_MS is out of range (1-'' @
                             string_of_int kMaxStatementTimeoutMs @ '')''\<rparr>
                     else
                       out\<lparr>dr_config := (dr_config out)\<lparr>db_statement_timeout_ms := parsed\<rparr>,
                           dr_valid := True\<rparr>))"

section \<open>Properties\<close>

lemma resolve_port_env:
  "raw \<noteq> [] \<Longrightarrow> po_valid (resolve_port (Some raw) d) \<longleftrightarrow> (\<exists>v. decimal_int raw = Some v \<and> 1 \<le> v \<and> v \<le> 65535)"
  "decimal_int raw = Some v \<Longrightarrow> 1 \<le> v \<Longrightarrow> v \<le> 65535 \<Longrightarrow> raw \<noteq> [] \<Longrightarrow>
     resolve_port (Some raw) d =
       \<lparr>po_valid = True, po_port = word_of_int v, po_source = SourceEnvironment, po_error = []\<rparr>"
  by (auto simp: resolve_port_def decimal_int_def kMinPort_def kMaxPort_def split: prod.splits if_splits)

lemma decimal_port_iff:
  "(\<exists>v. decimal_int raw = Some v \<and> 1 \<le> v \<and> v \<le> 65535) \<longleftrightarrow>
     raw \<noteq> [] \<and> (\<forall>c \<in> set raw. is_digit c) \<and> 1 \<le> digits_value raw \<and> digits_value raw \<le> 65535"
proof -
  have "(\<exists>v. decimal_int raw = Some v \<and> 1 \<le> v \<and> v \<le> 65535) \<longleftrightarrow>
      (\<exists>v. (decimal_int raw = Some v \<and> 0 < v) \<and> v \<le> 65535)"
    by (metis int_one_le_iff_zero_less)
  also have "\<dots> \<longleftrightarrow> raw \<noteq> [] \<and> (\<forall>c \<in> set raw. is_digit c) \<and> 1 \<le> digits_value raw \<and> digits_value raw \<le> 65535"
    unfolding decimal_int_nonneg by auto
  finally show ?thesis .
qed

text \<open>
  A set PORT is accepted exactly when it is a non-empty run of decimal digits with a value from
  1 to 65535, and then the port is that value: the cast to 16 bits loses nothing, and a sign, white
  space or trailing text is refused.
\<close>

theorem resolve_port_accepts:
  "(po_valid (resolve_port (Some raw) d) \<longleftrightarrow>
      raw \<noteq> [] \<and> (\<forall>c \<in> set raw. is_digit c) \<and> 1 \<le> digits_value raw \<and> digits_value raw \<le> 65535) \<and>
   (po_valid (resolve_port (Some raw) d) \<longrightarrow> unat (po_port (resolve_port (Some raw) d)) = digits_value raw)"
proof (cases "raw = []")
  case True
  then show ?thesis by (simp add: resolve_port_def)
next
  case False
  have valid: "po_valid (resolve_port (Some raw) d) \<longleftrightarrow>
      raw \<noteq> [] \<and> (\<forall>c \<in> set raw. is_digit c) \<and> 1 \<le> digits_value raw \<and> digits_value raw \<le> 65535"
    using False by (simp add: resolve_port_env(1) decimal_port_iff)
  moreover have "unat (po_port (resolve_port (Some raw) d)) = digits_value raw"
    if "po_valid (resolve_port (Some raw) d)"
  proof -
    from that valid have b: "1 \<le> digits_value raw" "digits_value raw \<le> 65535"
      and "decimal_int raw = Some (int (digits_value raw))"
      using decimal_int_nonneg[of raw "int (digits_value raw)"] by auto
    with False show ?thesis
      by (simp add: resolve_port_env(2) unat_of_nat take_bit_eq_mod)
  qed
  ultimately show ?thesis by blast
qed

theorem resolve_port_accepts_witness:
  "po_valid (resolve_port (Some ''8081'') 1) \<and> unat (po_port (resolve_port (Some ''8081'') 1)) = 8081"
proof -
  have "\<forall>c \<in> set ''8081''. is_digit c" by (simp add: is_digit_def)
  moreover have "digits_value ''8081'' = 8081" by (simp add: digits_value_def)
  ultimately show ?thesis using resolve_port_accepts[of "''8081''" 1] by simp
qed

text \<open>
  Every port a user can write in decimal is understood: printing a port from 1 to 65535 and
  resolving the text gives that port back.
\<close>

lemma resolve_port_roundtrip:
  assumes "1 \<le> n" and "n \<le> 65535"
  shows "resolve_port (Some (string_of_nat n)) d =
    \<lparr>po_valid = True, po_port = of_nat n, po_source = SourceEnvironment, po_error = []\<rparr>"
proof -
  have "decimal_int (string_of_nat n) = Some (int n)"
    using decimal_int_nonneg[of "string_of_nat n" "int n"] assms string_of_nat_digits[of n] by simp
  from resolve_port_env(2)[OF this] assms show ?thesis by simp
qed

text \<open>The two forms a resolution of the database settings has.\<close>

definition config_errors :: "string set" where
  "config_errors =
     {''DATABASE_URL environment variable is required but not set'',
      ''DB_STATEMENT_TIMEOUT_MS is set but empty'', ''DB_STATEMENT_TIMEOUT_MS is not a valid integer'',
      ''DB_STATEMENT_TIMEOUT_MS is out of range (1-600000)''}"

definition resolved_config :: "string option \<Rightarrow> DatabaseConfigResolution \<Rightarrow> bool" where
  "resolved_config url r \<longleftrightarrow>
     (\<exists>c. \<exists>e \<in> config_errors. r = \<lparr>dr_valid = False, dr_config = c, dr_error = e\<rparr>) \<or>
     (\<exists>u t. url = Some u \<and> u \<noteq> [] \<and> 1 \<le> t \<and> t \<le> 600000 \<and>
        r = \<lparr>dr_valid = True, dr_config = \<lparr>db_connection_string = u, db_statement_timeout_ms = t\<rparr>, dr_error = []\<rparr>)"

lemma resolve_database_config_cases: "resolved_config url (resolve_database_config url timeout)"
proof -
  have s: "string_of_int kMaxStatementTimeoutMs = ''600000''"
    by (simp add: kMaxStatementTimeoutMs_def string_of_int_def string_of_nat.simps)
  note defs = resolve_database_config_def default_DatabaseConfigResolution_def resolved_config_def
    config_errors_def kDefaultStatementTimeoutMs_def
  show ?thesis
  proof (cases "url = None \<or> url = Some []")
    case True
    then show ?thesis by (elim disjE) (simp_all add: defs)
  next
    case False
    then obtain u where u: "url = Some u" "u \<noteq> []" by auto
    show ?thesis
    proof (cases timeout)
      case (Some raw)
      obtain ec rest v where fc: "from_chars_int raw = (ec, rest, v)" by (cases "from_chars_int raw")
      have max: "kMaxStatementTimeoutMs = 600000" by (simp add: kMaxStatementTimeoutMs_def)
      show ?thesis
        by (cases "raw = []"; cases "ec \<noteq> ErrcNone \<or> rest \<noteq> []"; cases "v \<le> 0 \<or> v > 600000")
          (simp_all add: u Some fc defs s max[symmetric])
    qed (use u in \<open>simp add: defs\<close>)
  qed
qed

text \<open>
  The database settings never leak a value: whatever the two variables hold, the error is empty
  or one of four fixed texts, so neither the connection string nor the timeout text can reach the
  system log through it; and a valid result has a timeout from 1 to 600000 and the given
  connection string.
\<close>

theorem database_config_no_leak:
  "let r = resolve_database_config url timeout in
     dr_error r \<in> {[], ''DATABASE_URL environment variable is required but not set'',
        ''DB_STATEMENT_TIMEOUT_MS is set but empty'', ''DB_STATEMENT_TIMEOUT_MS is not a valid integer'',
        ''DB_STATEMENT_TIMEOUT_MS is out of range (1-600000)''} \<and>
     (dr_valid r \<longleftrightarrow> dr_error r = []) \<and>
     (dr_valid r \<longrightarrow> Some (db_connection_string (dr_config r)) = url \<and> url \<noteq> Some [] \<and>
        1 \<le> db_statement_timeout_ms (dr_config r) \<and> db_statement_timeout_ms (dr_config r) \<le> 600000)"
proof -
  have "resolved_config url (resolve_database_config url timeout)"
    by (rule resolve_database_config_cases)
  then show ?thesis
    unfolding resolved_config_def Let_def by (elim disjE exE conjE bexE) (auto simp: config_errors_def)
qed

theorem database_config_no_leak_witness:
  "dr_valid (resolve_database_config (Some ''postgresql://u:p@h/d'') None) \<and>
   db_connection_string (dr_config (resolve_database_config (Some ''postgresql://u:p@h/d'') None)) = ''postgresql://u:p@h/d''"
proof -
  have "dr_valid (resolve_database_config (Some ''postgresql://u:p@h/d'') None)"
    by (simp add: resolve_database_config_def)
  with database_config_no_leak[of "Some ''postgresql://u:p@h/d''" None] show ?thesis
    unfolding Let_def by auto
qed

end
