(* ===== verification/Postgres_Executor.thy ===== *)
theory Postgres_Executor
  imports Ports Config
begin

text \<open>
  \<open>PostgresQueryExecutor\<close>, \<open>src/src/postgres/postgres_query_executor.cpp\<close>. libpqxx is
  a library: a record of functions \<open>Pqxx\<close> gives what the adapter calls of it, and a
  \<open>pqxx::result\<close> is the accessors the adapter reads. Connecting, opening the transaction,
  executing and committing may throw one of the exception classes the adapter's handlers
  distinguish. Only \<open>px_commit\<close> publishes a transaction; unwinding a transaction that was not
  committed is \<open>px_abort\<close>, whatever that leaves behind in the database.
\<close>

section \<open>The driver as the adapter sees it\<close>

datatype pqxx_exn = BrokenConnection | SqlError string | PqxxFailure | OtherException

record PqxxResult =
  px_columns :: nat
  px_column_name :: "nat \<Rightarrow> string"
  px_column_type :: "nat \<Rightarrow> nat"
  px_size :: nat
  px_field :: "nat \<Rightarrow> nat \<Rightarrow> cell"
  px_affected_rows :: nat

record ('db, 'txn) Pqxx =
  px_connect :: "string \<Rightarrow> 'db \<Rightarrow> pqxx_exn option"
  px_begin :: "'db \<Rightarrow> pqxx_exn + 'txn"
  px_exec :: "'txn \<Rightarrow> string \<Rightarrow> (pqxx_exn + PqxxResult) \<times> 'txn"
  px_commit :: "'txn \<Rightarrow> 'db \<Rightarrow> pqxx_exn option \<times> 'db"
  px_abort :: "'txn \<Rightarrow> 'db \<Rightarrow> 'db"

section \<open>Definitions\<close>

definition column_type_from_oid :: "nat \<Rightarrow> ColumnType" where
  "column_type_from_oid oid =
     (if oid = 25 \<or> oid = 1043 \<or> oid = 1042 then CtText
      else if oid = 20 \<or> oid = 21 \<or> oid = 23 then CtInteger
      else if oid = 700 \<or> oid = 701 then CtFloat
      else if oid = 1700 then CtNumeric
      else if oid = 16 then CtBoolean
      else if oid = 1114 \<or> oid = 1184 then CtTimestamp
      else if oid = 1082 then CtDate
      else CtOther)"

definition translate :: "PqxxResult \<Rightarrow> ExecutionResult" where
  "translate result =
     (let column_count = px_columns result in
      default_ExecutionResult\<lparr>
        ex_status := ExOk,
        ex_has_result_set := column_count > 0,
        ex_columns := map (\<lambda>c. \<lparr>ci_name = px_column_name result c,
                               ci_type = column_type_from_oid (px_column_type result c)\<rparr>)
                        [0..<column_count],
        ex_rows := map (\<lambda>row. map (\<lambda>c. px_field result row c) [0..<column_count]) [0..<px_size result],
        ex_row_count := int (px_size result),
        ex_affected_rows := int (px_affected_rows result)\<rparr>)"

definition failure :: "ExecutionStatus \<Rightarrow> string \<Rightarrow> ExecutionResult" where
  "failure status error = default_ExecutionResult\<lparr>ex_status := status, ex_error := error\<rparr>"

text \<open>The handlers, in order: each exception class has one.\<close>

fun handle_pqxx :: "pqxx_exn \<Rightarrow> ExecutionResult" where
  "handle_pqxx BrokenConnection = failure ExConnectionFailure ''connection failed''"
| "handle_pqxx (SqlError sqlstate) =
     failure ExExecutionFailure (''statement failed (SQLSTATE '' @ sqlstate @ '')'')"
| "handle_pqxx PqxxFailure = failure ExExecutionFailure ''statement failed''"
| "handle_pqxx OtherException = failure ExExecutionFailure ''executor failure''"

definition set_timeout_sql :: "DatabaseConfig \<Rightarrow> string" where
  "set_timeout_sql config =
     ''SET LOCAL statement_timeout = '' @ string_of_int (db_statement_timeout_ms config)"

definition postgres_execute :: "('db, 'txn) Pqxx \<Rightarrow> DatabaseConfig \<Rightarrow> 'db executor" where
  "postgres_execute px config db sql =
     (case px_connect px (db_connection_string config) db of
        Some e \<Rightarrow> (Inr (handle_pqxx e), db)
      | None \<Rightarrow>
          (case px_begin px db of
             Inl e \<Rightarrow> (Inr (handle_pqxx e), db)
           | Inr txn \<Rightarrow>
               (case px_exec px txn (set_timeout_sql config) of
                  (Inl e, txn) \<Rightarrow> (Inr (handle_pqxx e), px_abort px txn db)
                | (Inr _, txn) \<Rightarrow>
                    (case px_exec px txn sql of
                       (Inl e, txn) \<Rightarrow> (Inr (handle_pqxx e), px_abort px txn db)
                     | (Inr result, txn) \<Rightarrow>
                         let out = translate result in
                         (case px_commit px txn db of
                            (Some e, db') \<Rightarrow> (Inr (handle_pqxx e), db')
                          | (None, db') \<Rightarrow> (Inr out, db'))))))"

section \<open>Lemmas\<close>

lemma default_ExecutionResult_simps [simp]:
  "ex_status default_ExecutionResult = ExExecutionFailure" "ex_error default_ExecutionResult = []"
  "\<not> ex_has_result_set default_ExecutionResult" "ex_columns default_ExecutionResult = []"
  "ex_rows default_ExecutionResult = []" "ex_row_count default_ExecutionResult = 0"
  "ex_affected_rows default_ExecutionResult = 0"
  by (simp_all add: default_ExecutionResult_def)

lemma failure_simps [simp]:
  "ex_status (failure st e) = st" "ex_error (failure st e) = e"
  "ex_columns (failure st e) = []" "ex_rows (failure st e) = []"
  by (simp_all add: failure_def)

lemma handle_pqxx_simps [simp]:
  "ex_status (handle_pqxx e) \<noteq> ExOk" "ex_columns (handle_pqxx e) = []" "ex_rows (handle_pqxx e) = []"
  by (cases e; simp)+

lemma translate_simps [simp]:
  "ex_status (translate r) = ExOk" "ex_error (translate r) = []"
  "rectangular (translate r)" "ex_row_count (translate r) = int (px_size r)"
  "ex_affected_rows (translate r) = int (px_affected_rows r)"
  "length (ex_columns (translate r)) = px_columns r" "length (ex_rows (translate r)) = px_size r"
  by (auto simp: translate_def Let_def rectangular_def)

text \<open>A result is either an exception's fixed failure or the translation of what was executed.\<close>

lemma postgres_execute_result:
  "(\<exists>e. fst (postgres_execute px config db sql) = Inr (handle_pqxx e)) \<or>
   (\<exists>txn txn1 txn2 r1 r. px_connect px (db_connection_string config) db = None \<and>
      px_begin px db = Inr txn \<and> px_exec px txn (set_timeout_sql config) = (Inr r1, txn1) \<and>
      px_exec px txn1 sql = (Inr r, txn2) \<and> fst (px_commit px txn2 db) = None \<and>
      postgres_execute px config db sql = (Inr (translate r), snd (px_commit px txn2 db)))"
  by (simp add: postgres_execute_def Let_def split: option.split sum.split prod.split) blast

interpretation postgres: query_executor_port "postgres_execute px config" for px config
proof unfold_locales
  fix db sql
  show "no_throw (fst (postgres_execute px config db sql))"
    using postgres_execute_result[of px config db sql] by auto
  fix r
  assume r: "fst (postgres_execute px config db sql) = Inr r"
  show "ex_columns r = [] \<and> ex_rows r = []" if "ex_status r \<noteq> ExOk"
    using that r postgres_execute_result[of px config db sql] by auto
  show "rectangular r \<and> 0 \<le> ex_row_count r \<and> 0 \<le> ex_affected_rows r" if "ex_status r = ExOk"
    using that r postgres_execute_result[of px config db sql] by auto
qed

section \<open>Properties\<close>

text \<open>
  C36. How a successful execution comes about: the connection was opened with the configured
  string, one transaction was begun, its first statement set the configured timeout, its second was
  exactly the given text, it was committed without an error, and the result is the translation of
  what the second statement returned. Otherwise the result is one of the adapter's fixed failures,
  with no rows, and its text is fixed but for the SQLSTATE code.
\<close>

theorem postgres_commit_protocol:
  "(\<exists>txn txn1 txn2 r1 r. px_connect px (db_connection_string config) db = None \<and>
      px_begin px db = Inr txn \<and>
      px_exec px txn (''SET LOCAL statement_timeout = '' @ string_of_int (db_statement_timeout_ms config)) = (Inr r1, txn1) \<and>
      px_exec px txn1 sql = (Inr r, txn2) \<and> fst (px_commit px txn2 db) = None \<and>
      postgres_execute px config db sql = (Inr (translate r), snd (px_commit px txn2 db))) \<or>
   (\<exists>out. fst (postgres_execute px config db sql) = Inr out \<and> ex_status out \<noteq> ExOk \<and>
      ex_columns out = [] \<and> ex_rows out = [] \<and>
      (ex_error out \<in> {''connection failed'', ''statement failed'', ''executor failure''} \<or>
       (\<exists>sqlstate. ex_error out = ''statement failed (SQLSTATE '' @ sqlstate @ '')'')))"
proof (cases "\<exists>e. fst (postgres_execute px config db sql) = Inr (handle_pqxx e)")
  case True
  then obtain e where e: "fst (postgres_execute px config db sql) = Inr (handle_pqxx e)" ..
  have "ex_error (handle_pqxx e) \<in> {''connection failed'', ''statement failed'', ''executor failure''} \<or>
      (\<exists>sqlstate. ex_error (handle_pqxx e) = ''statement failed (SQLSTATE '' @ sqlstate @ '')'')"
    by (cases e) simp_all
  with e show ?thesis by (intro disjI2 exI[of _ "handle_pqxx e"]) simp
next
  case False
  then show ?thesis
    using postgres_execute_result[of px config db sql] unfolding set_timeout_sql_def by blast
qed

text \<open>
  The translation of a database result keeps it: as many columns, rows and cells as the driver
  reports, each cell at its place with NULL kept apart from the empty string, each name in order,
  and the driver's counts.
\<close>

theorem postgres_result_faithful:
  assumes "row < px_size r" and "col < px_columns r"
  shows "ex_rows (translate r) ! row ! col = px_field r row col \<and>
    ci_name (ex_columns (translate r) ! col) = px_column_name r col \<and>
    ci_type (ex_columns (translate r) ! col) = column_type_from_oid (px_column_type r col) \<and>
    length (ex_rows (translate r)) = px_size r \<and> length (ex_rows (translate r) ! row) = px_columns r \<and>
    length (ex_columns (translate r)) = px_columns r \<and>
    ex_row_count (translate r) = int (px_size r) \<and> ex_affected_rows (translate r) = int (px_affected_rows r)"
  using assms by (simp add: translate_def Let_def)

definition demo_pqxx_result :: PqxxResult where
  "demo_pqxx_result =
     \<lparr>px_columns = 2, px_column_name = (\<lambda>c. if c = 0 then ''id'' else ''email''),
      px_column_type = (\<lambda>c. if c = 0 then 23 else 25), px_size = 1,
      px_field = (\<lambda>r c. if c = 0 then Some ''1'' else None), px_affected_rows = 1\<rparr>"

theorem postgres_result_faithful_witness:
  "ex_rows (translate demo_pqxx_result) ! 0 ! 1 = None \<and>
   ci_type (ex_columns (translate demo_pqxx_result) ! 1) = CtText"
  using postgres_result_faithful[of 0 demo_pqxx_result 1]
  by (simp add: demo_pqxx_result_def column_type_from_oid_def)

end
