(* ===== verification/Audit_Timestamp.thy ===== *)
theory Audit_Timestamp
  imports Prelude
begin

text \<open>
  \<open>format_utc_timestamp\<close>, \<open>src/src/audit/jsonl_audit_repository.cpp\<close>. The C library's
  \<open>gmtime_r\<close> is modelled by its meaning: a count of seconds since 1970 split along the
  Gregorian calendar, walking whole years and then whole months from the epoch. The division by
  1000 and the remainder truncate, as in C++. The text is shown to denote the instant it was made
  from, by an independent reading of the text through the closed formula for the days before a
  year.
\<close>

section \<open>Definitions\<close>

definition is_leap :: "int \<Rightarrow> bool" where
  "is_leap y \<longleftrightarrow> 4 dvd y \<and> (\<not> 100 dvd y \<or> 400 dvd y)"

definition days_in_year :: "int \<Rightarrow> int" where
  "days_in_year y = (if is_leap y then 366 else 365)"

definition month_lengths :: "int \<Rightarrow> int list" where
  "month_lengths y = [31, if is_leap y then 29 else 28, 31, 30, 31, 30, 31, 31, 30, 31, 30, 31]"

lemma days_in_year_pos: "0 < days_in_year y"
  by (simp add: days_in_year_def)

text \<open>The year a day falls in, and the day within it, from a day counted from the start of \<open>y\<close>.\<close>

function year_of_day :: "int \<Rightarrow> int \<Rightarrow> int \<times> int" where
  "year_of_day y d =
     (if d < 0 then year_of_day (y - 1) (d + days_in_year (y - 1))
      else if days_in_year y \<le> d then year_of_day (y + 1) (d - days_in_year y)
      else (y, d))"
  by pat_completeness auto
termination
proof (relation "measures [\<lambda>(y, d). nat (- d), \<lambda>(y, d). nat d]")
  fix y d :: int
  show "((y - 1, d + days_in_year (y - 1)), y, d) \<in> measures [\<lambda>(y, d). nat (- d), \<lambda>(y, d). nat d]" if "d < 0"
    using that days_in_year_pos[of "y - 1"] by simp
  show "((y + 1, d - days_in_year y), y, d) \<in> measures [\<lambda>(y, d). nat (- d), \<lambda>(y, d). nat d]"
    if "\<not> d < 0" "days_in_year y \<le> d"
    using that days_in_year_pos[of y] by simp
qed simp

declare year_of_day.simps [simp del]

fun month_of_day :: "nat \<Rightarrow> int list \<Rightarrow> int \<Rightarrow> nat \<times> int" where
  "month_of_day m [] d = (m, d)"
| "month_of_day m (l # ls) d = (if d < l then (m, d) else month_of_day (Suc m) ls (d - l))"

record tm =
  tm_year :: int
  tm_mon :: int
  tm_mday :: int
  tm_hour :: int
  tm_min :: int
  tm_sec :: int

definition gmtime :: "int \<Rightarrow> tm" where
  "gmtime seconds =
     (let days = seconds div 86400;
          rest = seconds mod 86400;
          (year, yday) = year_of_day 1970 days;
          (mon, mday) = month_of_day 0 (month_lengths year) yday
      in \<lparr>tm_year = year - 1900, tm_mon = int mon, tm_mday = mday + 1,
          tm_hour = rest div 3600, tm_min = rest mod 3600 div 60, tm_sec = rest mod 60\<rparr>)"

text \<open>The conversion \<open>%0Nd\<close>: zero padding to the width, the sign included in it.\<close>

definition pad :: "nat \<Rightarrow> string \<Rightarrow> string" where
  "pad width s = replicate (width - length s) (CHR ''0'') @ s"

definition fmt_d :: "nat \<Rightarrow> int \<Rightarrow> string" where
  "fmt_d width i =
     (if i < 0 then CHR ''-'' # pad (width - 1) (string_of_nat (nat (- i)))
      else pad width (string_of_nat (nat i)))"

text \<open>\<open>snprintf\<close> keeps at most 63 characters of the 64-byte buffer.\<close>

definition format_utc_timestamp :: "int \<Rightarrow> string" where
  "format_utc_timestamp epoch_ms =
     (let seconds = epoch_ms sdiv 1000;
          millis = epoch_ms smod 1000;
          utc = gmtime seconds
      in take 63
          (fmt_d 4 (tm_year utc + 1900) @ ''-'' @ fmt_d 2 (tm_mon utc + 1) @ ''-'' @ fmt_d 2 (tm_mday utc) @
           ''T'' @ fmt_d 2 (tm_hour utc) @ '':'' @ fmt_d 2 (tm_min utc) @ '':'' @ fmt_d 2 (tm_sec utc) @
           ''.'' @ fmt_d 3 millis @ ''Z''))"

text \<open>
  The clock reading of a request: \<open>std::chrono::system_clock\<close> counts nanoseconds since the epoch in
  64 bits, and \<open>duration_cast\<close> to milliseconds is a truncating division.
\<close>

definition now_epoch_ms :: "64 word \<Rightarrow> int" where
  "now_epoch_ms time_since_epoch = sint time_since_epoch sdiv 1000000"

section \<open>The calendar\<close>

text \<open>Days before the first of January of a year, from a fixed origin, in closed form.\<close>

definition days_before_year :: "int \<Rightarrow> int" where
  "days_before_year y = 365 * (y - 1) + (y - 1) div 4 - (y - 1) div 100 + (y - 1) div 400"

lemma div_step: "(k::int) > 0 \<Longrightarrow> y div k = (y - 1) div k + (if k dvd y then 1 else 0)"
proof -
  assume k: "k > 0"
  show ?thesis
  proof (cases "k dvd y")
    case True
    then obtain q where y: "y = k * q" by (auto elim: dvdE)
    have "(k * q - 1) div k = q - 1"
      using k by (intro int_div_pos_eq[where r = "k - 1"]) (auto simp: algebra_simps)
    with True y k show ?thesis by simp
  next
    case False
    then have "y mod k \<noteq> 0" by auto
    with k have "0 \<le> y mod k - 1" "y mod k - 1 < k"
      using pos_mod_sign[of k y] pos_mod_bound[of k y] by linarith+
    moreover have "y - 1 = k * (y div k) + (y mod k - 1)" by simp
    ultimately have "(y - 1) div k = y div k"
      by (intro int_div_pos_eq[where r = "y mod k - 1"]) auto
    with False show ?thesis by simp
  qed
qed

lemma days_before_year_step: "days_before_year (y + 1) = days_before_year y + days_in_year y"
proof -
  have hundred: "100 dvd y" "4 dvd y" if "400 dvd y"
    using that dvd_trans[of 100 400 y] dvd_trans[of 4 400 y] by simp_all
  have four: "4 dvd y" if "100 dvd y" using that dvd_trans[of 4 100 y] by simp
  have "days_before_year (y + 1) = 365 * y + y div 4 - y div 100 + y div 400"
    by (simp add: days_before_year_def)
  also have "\<dots> = days_before_year y + (365 + (if 4 dvd y then 1 else 0) - (if 100 dvd y then 1 else 0)
      + (if 400 dvd y then 1 else 0))"
    unfolding div_step[of 4 y, simplified] div_step[of 100 y, simplified] div_step[of 400 y, simplified]
      days_before_year_def by simp
  also have "\<dots> = days_before_year y + days_in_year y"
    by (cases "4 dvd y"; cases "100 dvd y"; cases "400 dvd y")
      (use hundred four in \<open>simp_all add: days_in_year_def is_leap_def\<close>)
  finally show ?thesis .
qed

lemma year_of_day_correct:
  "year_of_day y d = (y', d') \<Longrightarrow>
     0 \<le> d' \<and> d' < days_in_year y' \<and> days_before_year y' + d' = days_before_year y + d"
proof (induction y d rule: year_of_day.induct)
  case (1 y d)
  consider "d < 0" | "0 \<le> d" "days_in_year y \<le> d" | "0 \<le> d" "d < days_in_year y" by linarith
  then show ?case
  proof cases
    case 1
    with "1.IH"(1) "1.prems" show ?thesis
      using days_before_year_step[of "y - 1"] by (simp add: year_of_day.simps[of y d])
  next
    case 2
    with "1.IH"(2) "1.prems" show ?thesis
      using days_before_year_step[of y] by (simp add: year_of_day.simps[of y d])
  next
    case 3
    with "1.prems" show ?thesis by (simp add: year_of_day.simps[of y d])
  qed
qed

lemma month_of_day_correct:
  assumes "0 \<le> d" and "d < sum_list ls"
  shows "\<exists>k d'. month_of_day m ls d = (m + k, d') \<and> k < length ls \<and> 0 \<le> d' \<and> d' < ls ! k \<and>
    d = sum_list (take k ls) + d'"
  using assms
proof (induction ls arbitrary: m d)
  case (Cons l ls)
  show ?case
  proof (cases "d < l")
    case True
    with Cons.prems show ?thesis by (intro exI[of _ 0] exI[of _ d]) simp
  next
    case False
    with Cons.prems have "0 \<le> d - l" "d - l < sum_list ls" by simp_all
    from Cons.IH[OF this, of "Suc m"] obtain k d' where
      "month_of_day (Suc m) ls (d - l) = (Suc m + k, d')" "k < length ls" "0 \<le> d'" "d' < ls ! k"
      "d - l = sum_list (take k ls) + d'" by blast
    with False show ?thesis by (intro exI[of _ "Suc k"] exI[of _ d']) simp
  qed
qed simp

lemma sum_month_lengths: "sum_list (month_lengths y) = days_in_year y"
  by (simp add: month_lengths_def days_in_year_def)

lemma days_before_year_mono: "y \<le> z \<Longrightarrow> days_before_year y \<le> days_before_year z"
proof (induction z rule: int_ge_induct)
  case (step z)
  then show ?case using days_before_year_step[of z] days_in_year_pos[of z] by simp
qed simp

lemma year_of_day_range:
  assumes "year_of_day 1970 d = (y, r)" and "0 \<le> d" and "d < days_before_year 10000 - days_before_year 1970"
  shows "1970 \<le> y \<and> y < 10000"
proof -
  from year_of_day_correct[OF assms(1)] have r: "0 \<le> r" "r < days_in_year y"
    "days_before_year y + r = days_before_year 1970 + d" by simp_all
  have "days_before_year 1970 < days_before_year (y + 1)"
    using r assms(2) days_before_year_step[of y] by linarith
  then have "1970 < y + 1" using days_before_year_mono[of "y + 1" 1970] by linarith
  moreover have "days_before_year y < days_before_year 10000" using r assms(3) by linarith
  then have "y < 10000" using days_before_year_mono[of 10000 y] by linarith
  ultimately show ?thesis by simp
qed

section \<open>The text\<close>

lemma length_string_of_nat: "n < 10 ^ w \<Longrightarrow> 0 < w \<Longrightarrow> length (string_of_nat n) \<le> w"
proof (induction n arbitrary: w rule: string_of_nat.induct)
  case (1 n)
  show ?case
  proof (cases "n < 10")
    case True
    with "1.prems" show ?thesis by (simp add: string_of_nat.simps[of n])
  next
    case False
    with "1.prems" have "w \<noteq> 1" by auto
    with "1.prems"(2) obtain w' where w: "w = Suc w'" "0 < w'" by (cases w) auto
    have "n div 10 < 10 ^ w'" using "1.prems"(1) by (simp add: w less_mult_imp_div_less mult.commute)
    with "1.IH"[OF False this w(2)] False w show ?thesis by (simp add: string_of_nat.simps[of n])
  qed
qed

lemma digits_value_zeros: "digits_value (replicate k (CHR ''0'') @ s) = digits_value s"
proof -
  have "foldl (\<lambda>n c. 10 * n + (byte c - 48)) 0 (replicate k (CHR ''0'')) = (0 :: nat)"
    by (induction k) simp_all
  then show ?thesis by (simp add: digits_value_def)
qed

text \<open>A non-negative number that fits the width takes exactly the width and reads back.\<close>

lemma fmt_d_fits:
  assumes "0 \<le> i" and "i < 10 ^ w" and "0 < w"
  shows "length (fmt_d w i) = w" and "digits_value (fmt_d w i) = nat i"
proof -
  from assms have "nat i < 10 ^ w" by (simp add: nat_less_iff)
  from length_string_of_nat[OF this assms(3)] assms(1) show "length (fmt_d w i) = w"
    by (simp add: fmt_d_def pad_def)
  show "digits_value (fmt_d w i) = nat i"
    using assms(1) by (simp add: fmt_d_def pad_def digits_value_zeros)
qed

text \<open>An independent reading of the 24-character text.\<close>

definition read_timestamp :: "string \<Rightarrow> int" where
  "read_timestamp s =
     (let num = (\<lambda>from len. int (digits_value (take len (drop from s))));
          year = num 0 4;
          days = days_before_year year - days_before_year 1970
                 + sum_list (take (nat (num 5 2) - 1) (month_lengths year)) + (num 8 2 - 1)
      in (((days * 24 + num 11 2) * 60 + num 14 2) * 60 + num 17 2) * 1000 + num 20 3)"

lemma read_timestamp_fields:
  assumes "length a = 4" "length b = 2" "length c = 2" "length d = 2" "length e = 2" "length f = 2" "length g = 3"
  shows "read_timestamp (a @ ''-'' @ b @ ''-'' @ c @ ''T'' @ d @ '':'' @ e @ '':'' @ f @ ''.'' @ g @ ''Z'') =
    (let n = (\<lambda>x. int (digits_value x));
         days = days_before_year (n a) - days_before_year 1970
                + sum_list (take (nat (n b) - 1) (month_lengths (n a))) + (n c - 1)
     in (((days * 24 + n d) * 60 + n e) * 60 + n f) * 1000 + n g)"
  using assms by (simp add: read_timestamp_def Let_def)

lemma length_month_lengths: "length (month_lengths y) = 12"
  by (simp add: month_lengths_def)

lemma month_lengths_bound: "k < 12 \<Longrightarrow> month_lengths y ! k \<le> 31"
  by (simp add: month_lengths_def less_Suc_eq numeral_eq_Suc) (elim disjE; simp)

text \<open>What \<open>gmtime\<close> splits a non-negative instant before the year 10000 into.\<close>

lemma gmtime_fields:
  assumes "0 \<le> seconds" and "seconds < 253402300800"
  obtains y k d where
    "gmtime seconds = \<lparr>tm_year = y - 1900, tm_mon = int k, tm_mday = d + 1,
       tm_hour = seconds mod 86400 div 3600, tm_min = seconds mod 86400 mod 3600 div 60,
       tm_sec = seconds mod 86400 mod 60\<rparr>"
    "1970 \<le> y" "y < 10000" "k < 12" "0 \<le> d" "d < 31"
    "seconds div 86400 = days_before_year y - days_before_year 1970 + sum_list (take k (month_lengths y)) + d"
proof -
  obtain y r where yr: "year_of_day 1970 (seconds div 86400) = (y, r)" by fastforce
  have b: "days_before_year 10000 - days_before_year 1970 = 2932897" by (simp add: days_before_year_def)
  have "0 \<le> seconds div 86400" "seconds div 86400 < 2932897"
    using assms by (simp_all add: pos_imp_zdiv_nonneg_iff div_less_iff_less_mult)
  with year_of_day_range[OF yr] b have y: "1970 \<le> y" "y < 10000" by simp_all
  from year_of_day_correct[OF yr] have r: "0 \<le> r" "r < sum_list (month_lengths y)"
    "seconds div 86400 = days_before_year y - days_before_year 1970 + r"
    by (simp_all add: sum_month_lengths)
  from month_of_day_correct[OF r(1,2), of 0] obtain k d where
    kd: "month_of_day 0 (month_lengths y) r = (k, d)" "k < 12" "0 \<le> d" "d < month_lengths y ! k"
      "r = sum_list (take k (month_lengths y)) + d"
    unfolding length_month_lengths add_0 by blast
  have "d < 31" using kd(2,4) month_lengths_bound[of k y] by linarith
  have g: "gmtime seconds = \<lparr>tm_year = y - 1900, tm_mon = int k, tm_mday = d + 1,
       tm_hour = seconds mod 86400 div 3600, tm_min = seconds mod 86400 mod 3600 div 60,
       tm_sec = seconds mod 86400 mod 60\<rparr>"
    by (simp add: gmtime_def yr kd(1) Let_def)
  have "seconds div 86400 = days_before_year y - days_before_year 1970 + sum_list (take k (month_lengths y)) + d"
    using r(3) kd(5) by simp
  with g y kd(2,3) \<open>d < 31\<close> show thesis by (intro that[of y k d])
qed

text \<open>The split of a day into hours, minutes and seconds loses nothing.\<close>

lemma hms: "((s div 3600) * 60 + s mod 3600 div 60) * 60 + s mod 60 = (s::int)"
proof -
  have "s mod 3600 mod 60 = s mod 60" by (simp add: mod_mod_cancel)
  then have "s mod 3600 div 60 * 60 + s mod 60 = s mod 3600"
    using div_mult_mod_eq[of "s mod 3600" 60] by simp
  moreover have "(a * 60 + b) * 60 + c = a * 3600 + (b * 60 + c)" for a b c :: int by simp
  ultimately show ?thesis using div_mult_mod_eq[of s 3600] by (simp only:)
qed

text \<open>The format with every field in its range.\<close>

definition timestamp_text :: "int \<Rightarrow> int \<Rightarrow> int \<Rightarrow> int \<Rightarrow> int \<Rightarrow> int \<Rightarrow> int \<Rightarrow> string" where
  "timestamp_text y mo d h m s ms =
     fmt_d 4 y @ ''-'' @ fmt_d 2 mo @ ''-'' @ fmt_d 2 d @ ''T'' @ fmt_d 2 h @ '':'' @ fmt_d 2 m @ '':'' @
     fmt_d 2 s @ ''.'' @ fmt_d 3 ms @ ''Z''"

lemma timestamp_text_reads:
  assumes "0 \<le> y" "y < 10000" "0 \<le> mo" "mo < 100" "0 \<le> d" "d < 100" "0 \<le> h" "h < 100"
    "0 \<le> m" "m < 100" "0 \<le> s" "s < 100" "0 \<le> ms" "ms < 1000"
  shows "length (timestamp_text y mo d h m s ms) = 24"
    and "read_timestamp (timestamp_text y mo d h m s ms) =
      (((( days_before_year y - days_before_year 1970 + sum_list (take (nat mo - 1) (month_lengths y)) + (d - 1))
        * 24 + h) * 60 + m) * 60 + s) * 1000 + ms"
proof -
  have len: "length (fmt_d 4 y) = 4" "length (fmt_d 2 mo) = 2" "length (fmt_d 2 d) = 2"
    "length (fmt_d 2 h) = 2" "length (fmt_d 2 m) = 2" "length (fmt_d 2 s) = 2" "length (fmt_d 3 ms) = 3"
    using assms by (simp_all add: fmt_d_fits)
  have val: "int (digits_value (fmt_d 4 y)) = y" "int (digits_value (fmt_d 2 mo)) = mo"
    "int (digits_value (fmt_d 2 d)) = d" "int (digits_value (fmt_d 2 h)) = h"
    "int (digits_value (fmt_d 2 m)) = m" "int (digits_value (fmt_d 2 s)) = s"
    "int (digits_value (fmt_d 3 ms)) = ms"
    using assms by (simp_all add: fmt_d_fits)
  show "length (timestamp_text y mo d h m s ms) = 24" by (simp add: timestamp_text_def len)
  show "read_timestamp (timestamp_text y mo d h m s ms) =
      (((( days_before_year y - days_before_year 1970 + sum_list (take (nat mo - 1) (month_lengths y)) + (d - 1))
        * 24 + h) * 60 + m) * 60 + s) * 1000 + ms"
    unfolding timestamp_text_def read_timestamp_fields[OF len] Let_def val ..
qed

lemma format_utc_timestamp_eq:
  "format_utc_timestamp ms =
     take 63 (timestamp_text (tm_year (gmtime (ms sdiv 1000)) + 1900) (tm_mon (gmtime (ms sdiv 1000)) + 1)
       (tm_mday (gmtime (ms sdiv 1000))) (tm_hour (gmtime (ms sdiv 1000))) (tm_min (gmtime (ms sdiv 1000)))
       (tm_sec (gmtime (ms sdiv 1000))) (ms smod 1000))"
  by (simp only: format_utc_timestamp_def timestamp_text_def Let_def)

lemma format_utc_timestamp_reads:
  assumes "0 \<le> ms" and "ms < 253402300800000"
  shows "length (format_utc_timestamp ms) = 24 \<and> read_timestamp (format_utc_timestamp ms) = ms"
proof -
  let ?s = "ms div 1000 mod 86400"
  have sec: "ms sdiv 1000 = ms div 1000" "ms smod 1000 = ms mod 1000"
    using assms(1) by (simp_all add: signed_divide_int_def signed_modulo_int_def sgn_if)
  have "0 \<le> ms div 1000" "ms div 1000 < 253402300800"
    using assms by (simp_all add: pos_imp_zdiv_nonneg_iff div_less_iff_less_mult)
  then obtain y k d where g: "gmtime (ms div 1000) = \<lparr>tm_year = y - 1900, tm_mon = int k, tm_mday = d + 1,
       tm_hour = ?s div 3600, tm_min = ?s mod 3600 div 60, tm_sec = ?s mod 60\<rparr>"
    and y: "1970 \<le> y" "y < 10000" and k: "k < 12" and d: "0 \<le> d" "d < 31"
    and days: "ms div 1000 div 86400 =
      days_before_year y - days_before_year 1970 + sum_list (take k (month_lengths y)) + d"
    by (rule gmtime_fields)
  define h m q where "h = ?s div 3600" and "m = ?s mod 3600 div 60" and "q = ?s mod 60"
  have hmq: "0 \<le> h" "h < 24" "0 \<le> m" "m < 60" "0 \<le> q" "q < 60" "0 \<le> ms mod 1000" "ms mod 1000 < 1000"
    unfolding h_def m_def q_def
    by (simp_all only: pos_imp_zdiv_nonneg_iff div_less_iff_less_mult pos_mod_sign pos_mod_bound zero_less_numeral)
  have ym: "0 \<le> y" "0 \<le> int k + 1" "int k + 1 < 100" "0 \<le> d + 1" "d + 1 < 100" "h < 100" "m < 100" "q < 100"
    using y k d hmq by linarith+
  note reads = timestamp_text_reads[OF ym(1) y(2) ym(2-5) hmq(1) ym(6) hmq(3) ym(7) hmq(5) ym(8) hmq(7,8)]
  have fmt: "format_utc_timestamp ms = timestamp_text y (int k + 1) (d + 1) h m q (ms mod 1000)"
    unfolding format_utc_timestamp_eq sec g tm.select_convs h_def[symmetric] m_def[symmetric] q_def[symmetric]
    using reads(1) by simp
  have "nat (int k + 1) - 1 = k" by simp
  then have "read_timestamp (format_utc_timestamp ms) =
      (((ms div 1000 div 86400 * 24 + h) * 60 + m) * 60 + q) * 1000 + ms mod 1000"
    unfolding fmt reads(2) days by simp
  also have "\<dots> = (ms div 1000 div 86400 * 86400 + ((h * 60 + m) * 60 + q)) * 1000 + ms mod 1000"
    by simp
  also have "(h * 60 + m) * 60 + q = ?s" unfolding h_def m_def q_def by (rule hms)
  finally have "read_timestamp (format_utc_timestamp ms) = ms"
    by (simp only: div_mult_mod_eq)
  with reads(1) fmt show ?thesis by simp
qed

text \<open>A clock reading after the epoch lies in its millisecond, and never beyond the year 2262.\<close>

lemma now_epoch_ms_bounds:
  assumes "0 \<le> sint (now :: 64 word)"
  shows "now_epoch_ms now * 1000000 \<le> sint now" "sint now < (now_epoch_ms now + 1) * 1000000"
    "0 \<le> now_epoch_ms now" "now_epoch_ms now < 253402300800000"
proof -
  have ms: "now_epoch_ms now = sint now div 1000000"
    using assms by (simp add: now_epoch_ms_def signed_divide_int_def sgn_if)
  show "now_epoch_ms now * 1000000 \<le> sint now" "sint now < (now_epoch_ms now + 1) * 1000000"
    unfolding ms by presburger+
  have "sint now < 2 ^ 63" using sint_range_size[of now] by (simp add: word_size)
  then show "0 \<le> now_epoch_ms now" "now_epoch_ms now < 253402300800000"
    unfolding ms using assms by (simp_all add: pos_imp_zdiv_nonneg_iff div_less_iff_less_mult)
qed

section \<open>Property\<close>

text \<open>
  C34. A timestamp tells its instant: for every non-negative instant before the year 10000 the text
  has the 24 characters the format promises, and reading it back, by the closed formula of the
  calendar, gives the same millisecond. Every reading of the clock after 1970 is such an instant,
  and its text names the millisecond in which the reading falls.
\<close>

theorem timestamp_roundtrip:
  "(0 \<le> ms \<and> ms < 253402300800000 \<longrightarrow>
      length (format_utc_timestamp ms) = 24 \<and> read_timestamp (format_utc_timestamp ms) = ms) \<and>
   (0 \<le> sint now \<longrightarrow>
      length (format_utc_timestamp (now_epoch_ms now)) = 24 \<and>
      read_timestamp (format_utc_timestamp (now_epoch_ms now)) * 1000000 \<le> sint now \<and>
      sint now < (read_timestamp (format_utc_timestamp (now_epoch_ms now)) + 1) * 1000000)"
proof (intro conjI impI)
  assume "0 \<le> ms \<and> ms < 253402300800000"
  then show "length (format_utc_timestamp ms) = 24" "read_timestamp (format_utc_timestamp ms) = ms"
    using format_utc_timestamp_reads[of ms] by simp_all
next
  assume now: "0 \<le> sint now"
  note b = now_epoch_ms_bounds[OF now]
  from format_utc_timestamp_reads[OF b(3,4)] b(1,2) show "length (format_utc_timestamp (now_epoch_ms now)) = 24"
    "read_timestamp (format_utc_timestamp (now_epoch_ms now)) * 1000000 \<le> sint now"
    "sint now < (read_timestamp (format_utc_timestamp (now_epoch_ms now)) + 1) * 1000000"
    by simp_all
qed

theorem timestamp_roundtrip_witness:
  "format_utc_timestamp 1785921365842 = ''2026-08-05T09:16:05.842Z'' \<and>
   read_timestamp ''2026-08-05T09:16:05.842Z'' = 1785921365842 \<and>
   length (format_utc_timestamp (now_epoch_ms 1785921365842999999)) = 24"
proof -
  have "format_utc_timestamp 1785921365842 = ''2026-08-05T09:16:05.842Z''" by code_simp
  moreover have "0 \<le> sint (1785921365842999999 :: 64 word)" by simp
  ultimately show ?thesis
    using timestamp_roundtrip[of 1785921365842 "1785921365842999999 :: 64 word"] by simp
qed

end
