(* ===== verification/Json.thy ===== *)
theory Json
  imports Prelude "HOL-Library.Char_ord" "HOL-Library.List_Lexorder"
begin

text \<open>
  JSON values as the sources build and inspect them through nlohmann::json. An object of that
  library is a \<open>std::map\<close>: its fields are in the order of their keys, byte by byte, whatever
  the order in which they were set. So an object is an association list with strictly increasing
  keys: \<open>j[key] = value\<close> is \<open>object_set\<close>, an initializer list of pairs is
  \<open>object_of\<close>, and a look-up is \<open>map_of\<close>. Printing (\<open>dump\<close>) and parsing are the
  library's; the components that call them take them as arguments.
\<close>

datatype json =
  JNull
| JBool bool
| JNumber int
| JString string
| JArray "json list"
| JObject "(string \<times> json) list"

type_synonym fields = "(string \<times> json) list"

fun object_set :: "string \<Rightarrow> json \<Rightarrow> fields \<Rightarrow> fields" where
  "object_set key v [] = [(key, v)]"
| "object_set key v ((k, w) # rest) =
     (if key < k then (key, v) # (k, w) # rest
      else if key = k then (key, v) # rest
      else (k, w) # object_set key v rest)"

definition object_of :: "fields \<Rightarrow> fields" where
  "object_of pairs = fold (\<lambda>(key, v) fs. object_set key v fs) pairs []"

fun is_object :: "json \<Rightarrow> bool" where
  "is_object (JObject fields) = True"
| "is_object _ = False"

text \<open>\<open>body.find(key)\<close> on an object.\<close>

fun json_find :: "string \<Rightarrow> json \<Rightarrow> json option" where
  "json_find key (JObject fields) = map_of fields key"
| "json_find key _ = None"

text \<open>Setting a field is a map update and keeps the keys in order.\<close>

lemma map_of_object_set [simp]: "map_of (object_set key v fs) = (map_of fs)(key \<mapsto> v)"
  by (induction fs) auto

lemma keys_object_set [simp]: "fst ` set (object_set key v fs) = insert key (fst ` set fs)"
proof (induction fs)
  case (Cons f fs)
  then show ?case by (cases f) (simp add: insert_commute)
qed simp

lemma object_set_sorted:
  "sorted_wrt (<) (map fst fs) \<Longrightarrow> sorted_wrt (<) (map fst (object_set key v fs))"
proof (induction fs)
  case (Cons f fs)
  obtain k w where f: "f = (k, w)" by fastforce
  have keys: "set (map fst (object_set key v fs)) = insert key (set (map fst fs))"
    using keys_object_set[of key v fs] by simp
  from Cons show ?case unfolding f using keys by (auto simp del: keys_object_set)
qed simp

lemma object_of_snoc: "object_of (pairs @ [(key, v)]) = object_set key v (object_of pairs)"
  by (simp add: object_of_def)

lemma object_of_sorted: "sorted_wrt (<) (map fst (object_of pairs))"
  by (induction pairs rule: rev_induct) (auto simp: object_of_def object_set_sorted)

lemma set_object_set: "key \<notin> fst ` set fs \<Longrightarrow> set (object_set key v fs) = insert (key, v) (set fs)"
proof (induction fs)
  case (Cons f fs)
  then show ?case by (cases f) (simp add: insert_commute)
qed simp

lemma set_object_of: "distinct (map fst pairs) \<Longrightarrow> set (object_of pairs) = set pairs"
proof (induction pairs rule: rev_induct)
  case (snoc p pairs)
  then have "fst p \<notin> fst ` set (object_of pairs)" by simp
  with snoc show ?case by (cases p) (simp add: object_of_snoc set_object_set)
qed (simp add: object_of_def)

lemma object_of_distinct: "distinct (map fst (object_of pairs))"
  using object_of_sorted by (simp add: strict_sorted_iff)

lemma map_of_object_of:
  assumes "distinct (map fst pairs)"
  shows "map_of (object_of pairs) = map_of pairs"
proof
  fix key
  show "map_of (object_of pairs) key = map_of pairs key"
    using set_object_of[OF assms] object_of_distinct[of pairs] assms
    by (metis map_of_eq_Some_iff not_None_eq)
qed

text \<open>The keys of an object are those it was built from, sorted.\<close>

lemma keys_object_of: "distinct (map fst pairs) \<Longrightarrow> map fst (object_of pairs) = sort (map fst pairs)"
  using set_object_of[of pairs] object_of_sorted[of pairs]
  by (metis distinct_sort set_map set_sort sorted_list_of_set.idem_if_sorted_distinct sorted_sort strict_sorted_iff)

text \<open>Every text inside a value, keys included.\<close>

fun json_texts :: "json \<Rightarrow> string list" where
  "json_texts (JString s) = [s]"
| "json_texts (JArray vs) = concat (map json_texts vs)"
| "json_texts (JObject fields) = map fst fields @ concat (map (\<lambda>(k, v). json_texts v) fields)"
| "json_texts _ = []"

text \<open>
  Bytes that mean themselves inside a JSON string: printable ASCII other than the quotation mark
  and the backslash.
\<close>

definition plain_byte :: "char \<Rightarrow> bool" where
  "plain_byte c \<longleftrightarrow> 32 \<le> byte c \<and> byte c < 127 \<and> c \<noteq> CHR 0x22 \<and> c \<noteq> CHR 0x5C"

definition plain_text :: "string \<Rightarrow> bool" where
  "plain_text s \<longleftrightarrow> list_all plain_byte s"

definition plain_json :: "json \<Rightarrow> bool" where
  "plain_json j \<longleftrightarrow> list_all plain_text (json_texts j)"

lemma plain_text_simps [simp]:
  "plain_text []" "plain_text (c # s) \<longleftrightarrow> plain_byte c \<and> plain_text s"
  "plain_text (s @ t) \<longleftrightarrow> plain_text s \<and> plain_text t"
  by (simp_all add: plain_text_def)

lemma plain_text_take: "plain_text s \<Longrightarrow> plain_text (take n s)"
  by (auto simp: plain_text_def list_all_iff dest: in_set_takeD)

lemma digit_plain: "is_digit c \<Longrightarrow> plain_byte c"
  by (auto simp: is_digit_def plain_byte_def)

lemma digits_plain: "\<forall>c \<in> set s. is_digit c \<Longrightarrow> plain_text s"
  by (simp add: plain_text_def list_all_iff digit_plain)

lemma plain_json_object: "plain_json (JObject fs) \<longleftrightarrow> (\<forall>(k, v) \<in> set fs. plain_text k \<and> plain_json v)"
  by (induction fs) (auto simp: plain_json_def)

lemma plain_json_simps [simp]:
  "plain_json JNull" "plain_json (JBool b)" "plain_json (JNumber n)"
  "plain_json (JString s) \<longleftrightarrow> plain_text s"
  by (simp_all add: plain_json_def)

lemma plain_json_array [simp]: "plain_json (JArray vs) \<longleftrightarrow> (\<forall>v \<in> set vs. plain_json v)"
  by (induction vs) (simp_all add: plain_json_def)

text \<open>
  A compact printer for values whose texts are plain: it stands in for the library's where a
  concrete printer is needed.
\<close>

fun commas :: "string list \<Rightarrow> string" where
  "commas [] = []"
| "commas [s] = s"
| "commas (s # t # ss) = s @ '','' @ commas (t # ss)"

definition quote :: "string \<Rightarrow> string" where
  "quote s = [CHR 0x22] @ s @ [CHR 0x22]"

fun compact :: "json \<Rightarrow> string" where
  "compact JNull = ''null''"
| "compact (JBool b) = (if b then ''true'' else ''false'')"
| "compact (JNumber n) = string_of_int n"
| "compact (JString s) = quote s"
| "compact (JArray vs) = ''['' @ commas (map compact vs) @ '']''"
| "compact (JObject fields) = ''{'' @ commas (map (\<lambda>(k, v). quote k @ '':'' @ compact v) fields) @ ''}''"

definition no_newline :: "string \<Rightarrow> bool" where
  "no_newline s \<longleftrightarrow> CHR 0x0A \<notin> set s"

lemma no_newline_simps [simp]:
  "no_newline []" "no_newline (c # s) \<longleftrightarrow> c \<noteq> CHR 0x0A \<and> no_newline s"
  "no_newline (s @ t) \<longleftrightarrow> no_newline s \<and> no_newline t"
  by (auto simp: no_newline_def)

lemma plain_no_newline: "plain_text s \<Longrightarrow> no_newline s"
proof -
  have "\<not> plain_byte (CHR 0x0A)" by (simp add: plain_byte_def)
  then show "plain_text s \<Longrightarrow> no_newline s" unfolding plain_text_def list_all_iff no_newline_def by blast
qed

lemma commas_no_newline: "\<forall>s \<in> set ss. no_newline s \<Longrightarrow> no_newline (commas ss)"
  by (induction ss rule: commas.induct) auto

lemma string_of_int_no_newline: "no_newline (string_of_int n)"
  by (simp add: string_of_int_def plain_no_newline digits_plain string_of_nat_digits)

lemma compact_no_newline: "plain_json j \<Longrightarrow> no_newline (compact j)"
proof (induction j rule: compact.induct)
  case (5 vs)
  then show ?case by (auto intro!: commas_no_newline)
next
  case (6 fields)
  have "no_newline (quote k) \<and> no_newline (compact v)" if "(k, v) \<in> set fields" for k v
    using that 6 by (auto simp: plain_json_object quote_def plain_no_newline)
  then show ?case by (auto intro!: commas_no_newline)
qed (simp_all add: quote_def plain_no_newline string_of_int_no_newline)

end
