(* ===== verification/Jsonl_Audit.thy ===== *)
theory Jsonl_Audit
  imports Audit_Record Audit_Timestamp Json
begin

text \<open>
  \<open>JsonlAuditRepository\<close>, \<open>src/src/audit/jsonl_audit_repository.cpp\<close>: the closed JSON
  schema of a record, and the append of one line per record to a file stream. The library's
  \<open>dump\<close> is an argument and may throw. A \<open>std::ofstream\<close> is its open and good flags,
  the bytes that reached the file, and the faults of the device still to come: each write
  consumes one, \<open>Some n\<close> being a failure after the first \<open>n\<close> bytes.
\<close>

section \<open>Serialization\<close>

definition serialize_tables :: "AuditTableMetadata \<Rightarrow> fields \<Rightarrow> fields" where
  "serialize_tables m j =
     (case tm_state m of
        TabPresent \<Rightarrow> object_set ''referenced_tables'' (JArray (map JString (tm_tables m))) j
      | TabOmitted \<Rightarrow> object_set ''referenced_tables_omitted'' (JBool True) j
      | TabAbsent \<Rightarrow> j)"

definition serialize_details :: "AuditRecord \<Rightarrow> fields \<Rightarrow> fields throws" where
  "serialize_details rec j =
     (case outcome rec of
        OutSuccess \<Rightarrow>
          if is_write_success rec then
            and_then (write_success_details rec) (\<lambda>w.
              let j = object_set ''statement_type'' (JString (StatementType_to_string (wd_statement_type w))) j;
                  j = object_set ''affected_rows'' (JNumber (int (wd_affected_rows w))) j
              in Inr j)
          else
            and_then (success_details rec) (\<lambda>d.
              let j = object_set ''statement_type'' (JString (StatementType_to_string (sd_statement_type d))) j;
                  j = object_set ''row_count'' (JNumber (int (sd_row_count d))) j;
                  j = object_set ''column_count'' (JNumber (int (sd_column_count d))) j;
                  j = object_set ''pii_email_columns'' (JNumber (int (email_columns (sd_pii d)))) j;
                  j = object_set ''pii_phone_columns'' (JNumber (int (phone_columns (sd_pii d)))) j;
                  j = object_set ''pii_credit_card_columns'' (JNumber (int (credit_card_columns (sd_pii d)))) j
              in Inr j)
      | OutPolicyRejected \<Rightarrow>
          and_then (policy_rejected_details rec) (\<lambda>d.
            let j = object_set ''reason'' (JString (RejectReason_to_string (pj_reason d))) j;
                j = object_set ''statement_type'' (JString (StatementType_to_string (pj_statement_type d))) j;
                j = object_set ''statement_count'' (JNumber (int (pj_statement_count d))) j
            in Inr j)
      | OutDatabaseFailure \<Rightarrow>
          and_then (database_failure_details rec) (\<lambda>d.
            let j = object_set ''category'' (JString (DbFailureCategory_to_string (df_category d))) j;
                j = object_set ''statement_type'' (JString (StatementType_to_string (df_statement_type d))) j
            in Inr j)
      | OutMaskingRefused \<Rightarrow>
          and_then (masking_refused_details rec) (\<lambda>d.
            let j = object_set ''statement_type'' (JString (StatementType_to_string (mr_statement_type d))) j;
                j = object_set ''column_count'' (JNumber (int (mr_column_count d))) j
            in Inr j)
      | OutParsingFailure \<Rightarrow> Inr j
      | OutInternalFailure \<Rightarrow> Inr j)"

definition serialize :: "AuditRecord \<Rightarrow> json throws" where
  "serialize rec =
     (let j = object_set ''timestamp'' (JString (format_utc_timestamp (ar_timestamp_ms rec))) [];
          j = object_set ''request_id'' (JNumber (uint (ar_request_id rec))) j;
          j = object_set ''outcome'' (JString (AuditOutcome_to_string (outcome rec))) j;
          j = serialize_tables (ar_referenced_tables rec) j
      in and_then (serialize_details rec j) (\<lambda>j. Inr (JObject j)))"

section \<open>The file\<close>

record ofstream =
  os_is_open :: bool
  os_good :: bool
  os_content :: string
  os_faults :: "nat option list"

text \<open>Opening for append: existing content stays.\<close>

definition JsonlAuditRepository :: "bool \<Rightarrow> string \<Rightarrow> nat option list \<Rightarrow> ofstream" where
  "JsonlAuditRepository opens existing faults =
     \<lparr>os_is_open = opens, os_good = opens, os_content = existing, os_faults = faults\<rparr>"

text \<open>
  \<open>stream << text\<close> followed by \<open>flush\<close>. A stream that is not good writes nothing.
\<close>

definition ofstream_write :: "string \<Rightarrow> ofstream \<Rightarrow> ofstream" where
  "ofstream_write text os =
     (if \<not> os_good os then os
      else
        (case os_faults os of
           Some n # rest \<Rightarrow>
             os\<lparr>os_good := False, os_content := os_content os @ take n text, os_faults := rest\<rparr>
         | None # rest \<Rightarrow> os\<lparr>os_content := os_content os @ text, os_faults := rest\<rparr>
         | [] \<Rightarrow> os\<lparr>os_content := os_content os @ text\<rparr>))"

definition newline :: char where
  "newline = CHR 0x0A"

definition jsonl_append :: "(json \<Rightarrow> string throws) \<Rightarrow> ofstream audit_repository" where
  "jsonl_append dump os rec =
     (case and_then (serialize rec) dump of
        Inl e \<Rightarrow> (Inr AppendWriteFailure, os)
      | Inr line \<Rightarrow>
          if \<not> os_is_open os then (Inr AppendOpenFailure, os)
          else
            let os = ofstream_write (line @ [newline]) os
            in if \<not> os_good os then (Inr AppendWriteFailure, os) else (Inr AppendOk, os))"

section \<open>Lemmas\<close>

subsection \<open>The schema\<close>

text \<open>The fields of a record beyond the envelope, by its details.\<close>

fun detail_fields :: "Details \<Rightarrow> fields" where
  "detail_fields (DSuccess d) =
     [(''statement_type'', JString (StatementType_to_string (sd_statement_type d))),
      (''row_count'', JNumber (int (sd_row_count d))),
      (''column_count'', JNumber (int (sd_column_count d))),
      (''pii_email_columns'', JNumber (int (email_columns (sd_pii d)))),
      (''pii_phone_columns'', JNumber (int (phone_columns (sd_pii d)))),
      (''pii_credit_card_columns'', JNumber (int (credit_card_columns (sd_pii d))))]"
| "detail_fields (DWriteSuccess w) =
     [(''statement_type'', JString (StatementType_to_string (wd_statement_type w))),
      (''affected_rows'', JNumber (int (wd_affected_rows w)))]"
| "detail_fields DParsingFailure = []"
| "detail_fields (DPolicyRejected d) =
     [(''reason'', JString (RejectReason_to_string (pj_reason d))),
      (''statement_type'', JString (StatementType_to_string (pj_statement_type d))),
      (''statement_count'', JNumber (int (pj_statement_count d)))]"
| "detail_fields (DDatabaseFailure d) =
     [(''category'', JString (DbFailureCategory_to_string (df_category d))),
      (''statement_type'', JString (StatementType_to_string (df_statement_type d)))]"
| "detail_fields (DMaskingRefused d) =
     [(''statement_type'', JString (StatementType_to_string (mr_statement_type d))),
      (''column_count'', JNumber (int (mr_column_count d)))]"
| "detail_fields DInternalFailure = []"

fun table_fields :: "AuditTableMetadata \<Rightarrow> fields" where
  "table_fields m =
     (case tm_state m of
        TabPresent \<Rightarrow> [(''referenced_tables'', JArray (map JString (tm_tables m)))]
      | TabOmitted \<Rightarrow> [(''referenced_tables_omitted'', JBool True)]
      | TabAbsent \<Rightarrow> [])"

definition record_fields :: "AuditRecord \<Rightarrow> fields" where
  "record_fields rec =
     [(''timestamp'', JString (format_utc_timestamp (ar_timestamp_ms rec))),
      (''request_id'', JNumber (uint (ar_request_id rec))),
      (''outcome'', JString (AuditOutcome_to_string (outcome rec)))]
     @ table_fields (ar_referenced_tables rec) @ detail_fields (ar_details rec)"

definition record_json :: "AuditRecord \<Rightarrow> json" where
  "record_json rec = JObject (object_of (record_fields rec))"

lemma serialize_details_eq:
  "serialize_details rec j = Inr (fold (\<lambda>(key, v) fs. object_set key v fs) (detail_fields (ar_details rec)) j)"
  by (cases "ar_details rec")
    (simp_all add: serialize_details_def outcome_def is_write_success_def success_details_def
      write_success_details_def policy_rejected_details_def database_failure_details_def masking_refused_details_def)

lemma serialize_eq: "serialize rec = Inr (record_json rec)"
proof -
  have "serialize_tables m j = fold (\<lambda>(key, v) fs. object_set key v fs) (table_fields m) j" for m j
    by (cases "tm_state m") (simp_all add: serialize_tables_def)
  then show ?thesis
    by (simp add: serialize_def serialize_details_eq record_json_def record_fields_def object_of_def)
qed

text \<open>The names a record's fields may have.\<close>

lemma record_fields_distinct: "distinct (map fst (record_fields rec))"
  by (cases "ar_details rec"; cases "tm_state (ar_referenced_tables rec)")
    (simp_all add: record_fields_def)

subsection \<open>Plain text\<close>

lemma fmt_d_plain [plain_texts]: "plain_text (fmt_d w i)"
  by (auto simp: fmt_d_def pad_def string_of_nat_digits intro: digits_plain)
    (auto simp: plain_byte_def plain_text_def list_all_iff)

lemma format_utc_timestamp_plain [plain_texts]: "plain_text (format_utc_timestamp ms)"
  unfolding format_utc_timestamp_def Let_def
  by (intro plain_text_take) (simp add: plain_texts plain_byte_def)

lemma enum_names_plain [plain_texts]:
  "plain_text (AuditOutcome_to_string o')" "plain_text (StatementType_to_string t)"
  "plain_text (RejectReason_to_string r)" "plain_text (DbFailureCategory_to_string c)"
proof -
  show "plain_text (AuditOutcome_to_string o')" by (cases o') (simp_all add: plain_byte_def)
  show "plain_text (StatementType_to_string t)" by (cases t) (simp_all add: plain_byte_def)
  show "plain_text (RejectReason_to_string r)" by (cases r) (simp_all add: plain_byte_def)
  show "plain_text (DbFailureCategory_to_string c)" by (cases c) (simp_all add: plain_byte_def)
qed

lemma table_name_plain [plain_texts]: "is_valid_table_name name \<Longrightarrow> plain_text name"
  unfolding plain_text_def list_all_iff
proof
  fix c assume n: "is_valid_table_name name" "c \<in> set name"
  then have "name_rest_ok c" by (rule valid_table_name_bytes)
  then show "plain_byte c"
    by (auto simp: name_rest_ok_def plain_byte_def is_upper_def is_lower_def is_digit_def)
qed

lemma table_fields_plain:
  "valid_tables m \<Longrightarrow> (k, v) \<in> set (table_fields m) \<Longrightarrow> plain_text k \<and> plain_json v"
  by (auto simp: valid_tables_def plain_texts plain_byte_def split: AuditTableState.splits)

lemma detail_fields_plain: "(k, v) \<in> set (detail_fields d) \<Longrightarrow> plain_text k \<and> plain_json v"
  by (cases d) (auto simp: plain_texts plain_byte_def)

lemma record_json_plain:
  assumes "valid_record rec"
  shows "plain_json (record_json rec)"
proof -
  have "plain_text k \<and> plain_json v" if "(k, v) \<in> set (record_fields rec)" for k v
  proof -
    from that consider "(k, v) \<in> set (table_fields (ar_referenced_tables rec))"
      | "(k, v) \<in> set (detail_fields (ar_details rec))"
      | "k \<in> {''timestamp'', ''request_id'', ''outcome''}"
        "v \<in> {JString (format_utc_timestamp (ar_timestamp_ms rec)), JNumber (uint (ar_request_id rec)),
              JString (AuditOutcome_to_string (outcome rec))}"
      unfolding record_fields_def by fastforce
    then show ?thesis
    proof cases
      case 1
      then show ?thesis using assms table_fields_plain unfolding valid_record_def by blast
    next
      case 2
      then show ?thesis by (rule detail_fields_plain)
    next
      case 3
      then show ?thesis by (auto simp: plain_texts plain_byte_def)
    qed
  qed
  then show ?thesis
    by (auto simp: record_json_def plain_json_object set_object_of record_fields_distinct)
qed

subsection \<open>The port contract\<close>

text \<open>The line of a record, empty when it cannot be printed.\<close>

definition jsonl_line :: "(json \<Rightarrow> string throws) \<Rightarrow> AuditRecord \<Rightarrow> string" where
  "jsonl_line dump rec =
     (case dump (record_json rec) of Inl e \<Rightarrow> [] | Inr line \<Rightarrow> line @ [newline])"

lemma ofstream_write_content:
  "\<exists>written. os_content (ofstream_write text os) = os_content os @ written \<and>
     prefix written text \<and> (os_good (ofstream_write text os) \<longrightarrow> written = text)"
proof (cases "os_good os")
  case True
  then show ?thesis
    by (auto simp: ofstream_write_def take_is_prefix split: list.split option.split)
qed (simp add: ofstream_write_def)

lemma ofstream_write_sticky: "\<not> os_good os \<Longrightarrow> ofstream_write text os = os"
  by (simp add: ofstream_write_def)

lemma ofstream_write_open [simp]: "os_is_open (ofstream_write text os) = os_is_open os"
  by (simp add: ofstream_write_def split: list.split option.split)

interpretation jsonl: audit_repository_port "jsonl_append dump" os_content "jsonl_line dump" for dump
proof unfold_locales
  fix os rec
  show "no_throw (fst (jsonl_append dump os rec))"
    by (simp add: jsonl_append_def Let_def split: sum.split)
  show "prefix (os_content os) (os_content (snd (jsonl_append dump os rec)))"
    using ofstream_write_content
    by (auto simp: jsonl_append_def Let_def prefix_def split: sum.split)
  assume "fst (jsonl_append dump os rec) = Inr AppendOk"
  then obtain line where "dump (record_json rec) = Inr line"
    "os_good (ofstream_write (line @ [newline]) os)"
    "snd (jsonl_append dump os rec) = ofstream_write (line @ [newline]) os"
    by (auto simp: jsonl_append_def serialize_eq Let_def split: sum.splits if_splits)
  then show "os_content (snd (jsonl_append dump os rec)) = os_content os @ jsonl_line dump rec"
    using ofstream_write_content[of "line @ [newline]" os] by (auto simp: jsonl_line_def)
qed

lemma jsonl_append_ok_line:
  "fst (jsonl_append dump os rec) = Inr AppendOk \<Longrightarrow>
     \<exists>line. dump (record_json rec) = Inr line \<and> jsonl_line dump rec = line @ [newline]"
  by (auto simp: jsonl_append_def serialize_eq jsonl_line_def Let_def split: sum.splits if_splits)

text \<open>A stream that failed once fails every later append, and its file no longer changes.\<close>

lemma jsonl_append_failed_stream:
  "os_is_open os \<Longrightarrow> \<not> os_good os \<Longrightarrow> jsonl_append dump os rec = (Inr AppendWriteFailure, os)"
  by (simp add: jsonl_append_def ofstream_write_sticky split: sum.split)

text \<open>With a printer that accepts plain text, only the file can make an append fail.\<close>

lemma jsonl_append_plain:
  assumes "valid_record rec" and "\<And>j. plain_json j \<Longrightarrow> no_throw (dump j)"
    and "os_is_open os" "os_good os" "os_faults os = []"
  shows "fst (jsonl_append dump os rec) = Inr AppendOk"
proof -
  have "no_throw (dump (record_json rec))"
    using assms(2) record_json_plain[OF assms(1)] by blast
  then obtain line where "dump (record_json rec) = Inr line" by blast
  with assms(3-) show ?thesis by (simp add: jsonl_append_def serialize_eq ofstream_write_def Let_def)
qed

subsection \<open>Sequences of appends\<close>

fun jsonl_append_all ::
  "(json \<Rightarrow> string throws) \<Rightarrow> ofstream \<Rightarrow> AuditRecord list \<Rightarrow> AuditAppendResult throws list \<times> ofstream" where
  "jsonl_append_all dump os [] = ([], os)"
| "jsonl_append_all dump os (rec # recs) =
     (let (r, os) = jsonl_append dump os rec; (rs, os) = jsonl_append_all dump os recs in (r # rs, os))"

text \<open>The lines of a file that are ended by a newline, and what comes after the last of them.\<close>

fun split_lines :: "string \<Rightarrow> string list \<times> string" where
  "split_lines [] = ([], [])"
| "split_lines (c # cs) =
     (let (ls, rest) = split_lines cs
      in if c = newline then ([] # ls, rest)
         else (case ls of [] \<Rightarrow> ([], c # rest) | l # ls \<Rightarrow> ((c # l) # ls, rest)))"

lemma split_lines_append:
  "split_lines (xs @ ys) =
     (case fst (split_lines ys) of
        [] \<Rightarrow> (fst (split_lines xs), snd (split_lines xs) @ snd (split_lines ys))
      | l # ls \<Rightarrow> (fst (split_lines xs) @ (snd (split_lines xs) @ l) # ls, snd (split_lines ys)))"
proof (induction xs)
  case Nil
  show ?case by (cases "split_lines ys") (simp split: list.split)
next
  case (Cons c cs)
  then show ?case by (cases "split_lines cs") (auto simp: case_prod_unfold Let_def split: list.splits)
qed

lemma split_lines_no_newline: "newline \<notin> set torn \<Longrightarrow> split_lines torn = ([], torn)"
  by (induction torn) auto

lemma jsonl_append_all_content:
  "\<forall>r \<in> set (fst (jsonl_append_all dump os recs)). r = Inr AppendOk \<Longrightarrow>
     os_content (snd (jsonl_append_all dump os recs)) = os_content os @ concat (map (jsonl_line dump) recs)"
proof (induction recs arbitrary: os)
  case (Cons rec recs)
  then have ok: "fst (jsonl_append dump os rec) = Inr AppendOk"
    by (simp add: case_prod_unfold Let_def)
  from jsonl.append_ok[OF ok] Cons show ?case
    by (simp add: case_prod_unfold Let_def)
qed simp

lemma split_lines_records:
  assumes "\<forall>rec \<in> set recs. \<exists>line. dump (record_json rec) = Inr line \<and> newline \<notin> set line"
  shows "split_lines (concat (map (jsonl_line dump) recs)) = (map (\<lambda>rec. projr (dump (record_json rec))) recs, [])"
  using assms
proof (induction recs)
  case (Cons rec recs)
  then obtain line where "dump (record_json rec) = Inr line" "newline \<notin> set line" by auto
  with Cons show ?case by (auto simp: jsonl_line_def split_lines_append split_lines_no_newline split: list.split)
qed simp

subsection \<open>What a line tells\<close>

lemma enum_names_inj:
  "AuditOutcome_to_string o1 = AuditOutcome_to_string o2 \<longleftrightarrow> o1 = o2"
  "StatementType_to_string t1 = StatementType_to_string t2 \<longleftrightarrow> t1 = t2"
  "RejectReason_to_string r1 = RejectReason_to_string r2 \<longleftrightarrow> r1 = r2"
  "DbFailureCategory_to_string c1 = DbFailureCategory_to_string c2 \<longleftrightarrow> c1 = c2"
proof -
  show "AuditOutcome_to_string o1 = AuditOutcome_to_string o2 \<longleftrightarrow> o1 = o2"
    by (cases o1; cases o2) simp_all
  show "StatementType_to_string t1 = StatementType_to_string t2 \<longleftrightarrow> t1 = t2"
    by (cases t1; cases t2) simp_all
  show "RejectReason_to_string r1 = RejectReason_to_string r2 \<longleftrightarrow> r1 = r2"
    by (cases r1; cases r2) simp_all
  show "DbFailureCategory_to_string c1 = DbFailureCategory_to_string c2 \<longleftrightarrow> c1 = c2"
    by (cases c1; cases c2) simp_all
qed

lemma find_envelope:
  "map_of (record_fields rec) ''timestamp'' = Some (JString (format_utc_timestamp (ar_timestamp_ms rec)))"
  "map_of (record_fields rec) ''request_id'' = Some (JNumber (uint (ar_request_id rec)))"
  "map_of (record_fields rec) ''outcome'' = Some (JString (AuditOutcome_to_string (outcome rec)))"
  by (simp_all add: record_fields_def)

lemma find_tables:
  "map_of (record_fields rec) ''referenced_tables'' =
     (if tm_state (ar_referenced_tables rec) = TabPresent
      then Some (JArray (map JString (tm_tables (ar_referenced_tables rec)))) else None)"
  "map_of (record_fields rec) ''referenced_tables_omitted'' =
     (if tm_state (ar_referenced_tables rec) = TabOmitted then Some (JBool True) else None)"
  by (cases "tm_state (ar_referenced_tables rec)"; cases "ar_details rec"; simp add: record_fields_def)+

lemma find_detail:
  "k \<notin> {''timestamp'', ''request_id'', ''outcome'', ''referenced_tables'', ''referenced_tables_omitted''} \<Longrightarrow>
     map_of (record_fields rec) k = map_of (detail_fields (ar_details rec)) k"
  by (cases "tm_state (ar_referenced_tables rec)") (simp_all add: record_fields_def)

lemma map_JString_inj: "map JString xs = map JString ys \<longleftrightarrow> xs = ys"
  by (simp add: inj_map_eq_map inj_def)

text \<open>The details are determined by their fields, given the outcome.\<close>

lemma detail_fields_inj:
  assumes out: "outcome r1 = outcome r2"
    and eq: "\<And>k. k \<in> {''statement_type'', ''row_count'', ''column_count'', ''pii_email_columns'',
        ''pii_phone_columns'', ''pii_credit_card_columns'', ''affected_rows'', ''reason'', ''statement_count'',
        ''category''} \<Longrightarrow> map_of (detail_fields (ar_details r1)) k = map_of (detail_fields (ar_details r2)) k"
  shows "ar_details r1 = ar_details r2"
proof (cases "ar_details r1")
  case (DSuccess d)
  with out eq[of "''statement_type''"] eq[of "''row_count''"] eq[of "''column_count''"] eq[of "''pii_email_columns''"]
    eq[of "''pii_phone_columns''"] eq[of "''pii_credit_card_columns''"] show ?thesis
    by (cases "ar_details r2") (simp_all add: outcome_def enum_names_inj)
next
  case (DWriteSuccess d)
  with out eq[of "''statement_type''"] eq[of "''affected_rows''"] show ?thesis
    by (cases "ar_details r2") (simp_all add: outcome_def enum_names_inj)
next
  case (DPolicyRejected d)
  with out eq[of "''reason''"] eq[of "''statement_type''"] eq[of "''statement_count''"] show ?thesis
    by (cases "ar_details r2") (simp_all add: outcome_def enum_names_inj)
next
  case (DDatabaseFailure d)
  with out eq[of "''category''"] eq[of "''statement_type''"] show ?thesis
    by (cases "ar_details r2") (simp_all add: outcome_def enum_names_inj)
next
  case (DMaskingRefused d)
  with out eq[of "''statement_type''"] eq[of "''column_count''"] show ?thesis
    by (cases "ar_details r2") (simp_all add: outcome_def enum_names_inj)
qed (use out in \<open>cases "ar_details r2"; simp add: outcome_def\<close>)+

lemma tables_inj:
  assumes "valid_tables m1" "valid_tables m2"
    and "(if tm_state m1 = TabPresent then Some (JArray (map JString (tm_tables m1))) else None) =
         (if tm_state m2 = TabPresent then Some (JArray (map JString (tm_tables m2))) else None)"
    and "(if tm_state m1 = TabOmitted then Some (JBool True) else None) =
         (if tm_state m2 = TabOmitted then Some (JBool True) else None)"
  shows "m1 = m2"
  using assms
  by (cases "tm_state m1"; cases "tm_state m2") (simp_all add: valid_tables_def map_JString_inj)

section \<open>Properties\<close>

text \<open>The keys of the documented schema, by the outcome and the table state.\<close>

definition schema_keys :: "AuditRecord \<Rightarrow> string list" where
  "schema_keys rec =
     [''timestamp'', ''request_id'', ''outcome''] @
     (case tm_state (ar_referenced_tables rec) of
        TabPresent \<Rightarrow> [''referenced_tables''] | TabOmitted \<Rightarrow> [''referenced_tables_omitted''] | TabAbsent \<Rightarrow> []) @
     (case outcome rec of
        OutSuccess \<Rightarrow>
          if is_write_success rec then [''statement_type'', ''affected_rows'']
          else [''statement_type'', ''row_count'', ''column_count'', ''pii_email_columns'', ''pii_phone_columns'',
                ''pii_credit_card_columns'']
      | OutPolicyRejected \<Rightarrow> [''reason'', ''statement_type'', ''statement_count'']
      | OutDatabaseFailure \<Rightarrow> [''category'', ''statement_type'']
      | OutMaskingRefused \<Rightarrow> [''statement_type'', ''column_count'']
      | OutParsingFailure \<Rightarrow> []
      | OutInternalFailure \<Rightarrow> [])"

text \<open>
  C30. The schema of a record is closed: serialization never throws, the keys are exactly those of
  the record's outcome and table state, each once and in the order of the library's ordered map,
  and every text in the value, keys included, consists of printable ASCII without quotation marks
  and backslashes, so nothing in it needs escaping and no line break can be smuggled into the file.
\<close>

theorem serialize_schema:
  assumes "valid_record rec"
  shows "\<exists>fs. serialize rec = Inr (JObject fs) \<and> map fst fs = sort (schema_keys rec) \<and>
    sorted_wrt (<) (map fst fs) \<and> plain_json (JObject fs)"
proof -
  have "map fst (record_fields rec) = schema_keys rec"
    by (cases "ar_details rec"; cases "tm_state (ar_referenced_tables rec)")
      (simp_all add: record_fields_def schema_keys_def outcome_def is_write_success_def)
  then have "map fst (object_of (record_fields rec)) = sort (schema_keys rec)"
    using keys_object_of[OF record_fields_distinct] by simp
  then show ?thesis
    using serialize_eq[of rec] object_of_sorted[of "record_fields rec"] record_json_plain[OF assms]
    unfolding record_json_def by metis
qed

definition demo_record :: AuditRecord where
  "demo_record =
     make_AuditRecord 1785921365842 1
       (DPolicyRejected \<lparr>pj_reason = RrDdlNotAllowed, pj_statement_type = StDrop, pj_statement_count = 1\<rparr>)
       [''customers'']"

lemma demo_record_valid: "valid_record demo_record"
  by (simp add: demo_record_def make_AuditRecord_valid)

theorem serialize_schema_witness:
  "\<exists>fs. serialize demo_record = Inr (JObject fs) \<and>
     map fst fs = [''outcome'', ''reason'', ''referenced_tables'', ''request_id'', ''statement_count'',
       ''statement_type'', ''timestamp'']"
proof -
  have "sort (schema_keys demo_record) = [''outcome'', ''reason'', ''referenced_tables'', ''request_id'',
      ''statement_count'', ''statement_type'', ''timestamp'']"
    by code_simp
  with serialize_schema[OF demo_record_valid] show ?thesis by auto
qed

text \<open>
  C31. The JSON value tells the whole record: two valid records with instants the timestamp format
  covers that are serialized to the same value are the same record.
\<close>

theorem serialize_injective:
  assumes "valid_record r1" "valid_record r2"
    and "ar_timestamp_ms r1 \<in> {0..<253402300800000}" "ar_timestamp_ms r2 \<in> {0..<253402300800000}"
    and "serialize r1 = serialize r2"
  shows "r1 = r2"
proof -
  have find: "map_of (record_fields r1) k = map_of (record_fields r2) k" for k
    using assms(5) map_of_object_of[OF record_fields_distinct] by (metis Inr_inject json.inject(5) record_json_def serialize_eq)
  have "format_utc_timestamp (ar_timestamp_ms r1) = format_utc_timestamp (ar_timestamp_ms r2)"
    using find[of "''timestamp''"] by (simp add: find_envelope)
  then have ts: "ar_timestamp_ms r1 = ar_timestamp_ms r2"
    using format_utc_timestamp_reads assms(3,4) by (metis atLeastLessThan_iff)
  have rid: "ar_request_id r1 = ar_request_id r2"
    using find[of "''request_id''"] by (simp add: find_envelope word_uint_eqI)
  have out: "outcome r1 = outcome r2"
    using find[of "''outcome''"] by (simp add: find_envelope enum_names_inj)
  have tab: "ar_referenced_tables r1 = ar_referenced_tables r2"
    using assms(1,2) find[of "''referenced_tables''"] find[of "''referenced_tables_omitted''"]
    unfolding find_tables valid_record_def by (intro tables_inj) simp_all
  have "ar_details r1 = ar_details r2"
  proof (rule detail_fields_inj[OF out])
    fix k assume "k \<in> {''statement_type'', ''row_count'', ''column_count'', ''pii_email_columns'',
        ''pii_phone_columns'', ''pii_credit_card_columns'', ''affected_rows'', ''reason'', ''statement_count'',
        ''category''}"
    then have k: "k \<notin> {''timestamp'', ''request_id'', ''outcome'', ''referenced_tables'', ''referenced_tables_omitted''}"
      by (elim insertE) simp_all
    show "map_of (detail_fields (ar_details r1)) k = map_of (detail_fields (ar_details r2)) k"
      unfolding find_detail[OF k, symmetric] by (rule find)
  qed
  with ts rid tab show ?thesis by simp
qed

theorem serialize_injective_witness:
  "demo_record =
     \<lparr>ar_timestamp_ms = 1785921365842, ar_request_id = 1,
      ar_referenced_tables = \<lparr>tm_state = TabPresent, tm_tables = [''customers'']\<rparr>,
      ar_details = DPolicyRejected \<lparr>pj_reason = RrDdlNotAllowed, pj_statement_type = StDrop, pj_statement_count = 1\<rparr>\<rparr>"
  (is "_ = ?r")
proof (rule serialize_injective)
  have r: "?r = demo_record" by code_simp
  show "valid_record demo_record" "valid_record ?r" by (simp_all only: r demo_record_valid)
  show "ar_timestamp_ms demo_record \<in> {0..<253402300800000}" by (simp add: demo_record_def)
  show "serialize demo_record = serialize ?r" by (simp only: r)
qed simp

text \<open>
  C32. The file after a restart: with a printer that puts plain values on one line, appending valid
  records to a file that already has content, all of them successfully, keeps every complete line of
  it and adds one line per record, in order. If the old content ends in the middle of a line (a
  process died while writing), that line is never ended by itself: the first record is written behind
  it, so the two together are one line and the record has no line of its own.
\<close>

theorem audit_file_lines:
  assumes "\<And>j. plain_json j \<Longrightarrow> \<exists>line. dump j = Inr line \<and> newline \<notin> set line"
    and "\<forall>rec \<in> set recs. valid_record rec"
    and "\<forall>r \<in> set (fst (jsonl_append_all dump (JsonlAuditRepository True existing faults) recs)). r = Inr AppendOk"
  shows "split_lines (os_content (snd (jsonl_append_all dump (JsonlAuditRepository True existing faults) recs))) =
    (case map (\<lambda>rec. projr (and_then (serialize rec) dump)) recs of
       [] \<Rightarrow> split_lines existing
     | line # lines \<Rightarrow> (fst (split_lines existing) @ (snd (split_lines existing) @ line) # lines, []))"
proof -
  have "\<forall>rec \<in> set recs. \<exists>line. dump (record_json rec) = Inr line \<and> newline \<notin> set line"
    using assms(1,2) record_json_plain by blast
  from split_lines_records[OF this] jsonl_append_all_content[OF assms(3)] show ?thesis
    by (simp add: JsonlAuditRepository_def serialize_eq split_lines_append split: list.split)
qed

theorem audit_file_lines_witness:
  "split_lines (os_content (snd (jsonl_append_all (\<lambda>j. Inr (compact j))
     (JsonlAuditRepository True (''old'' @ newline # ''to'') []) [demo_record, demo_record]))) =
   ([''old'', ''to'' @ compact (record_json demo_record), compact (record_json demo_record)], [])"
proof -
  let ?old = "''old'' @ newline # ''to''"
  have plain: "\<exists>line. Inr (compact j) = (Inr line :: string throws) \<and> newline \<notin> set line" if "plain_json j" for j
    using compact_no_newline[OF that] by (simp add: no_newline_def newline_def)
  have ok: "\<forall>r \<in> set (fst (jsonl_append_all (\<lambda>j. Inr (compact j)) (JsonlAuditRepository True ?old [])
      [demo_record, demo_record])). r = Inr AppendOk"
    by (simp add: jsonl_append_def serialize_eq JsonlAuditRepository_def ofstream_write_def Let_def)
  have valid: "\<forall>rec \<in> set [demo_record, demo_record]. valid_record rec"
    using demo_record_valid by simp
  have old: "split_lines ?old = ([''old''], ''to'')" by (simp add: newline_def)
  from audit_file_lines[OF plain valid ok] show ?thesis unfolding old by (simp add: serialize_eq)
qed

end
