(* ===== verification/Http_Routes.thy ===== *)
theory Http_Routes
  imports Proxy_Service Json
begin

text \<open>
  The HTTP routes, \<open>src/src/http/routes.cpp\<close>, and the registration of them in
  \<open>http_server.cpp\<close>. A request is the value of its Content-Type header (empty when the header
  is missing) and its body; a response is what a handler sets. The JSON library's parser and
  printer are the arguments \<open>json_parse\<close> (\<open>None\<close> for a discarded value) and
  \<open>dump\<close>; a printer that throws leaves the handler with its exception.
\<close>

section \<open>Definitions\<close>

record Request =
  rq_content_type :: string
  rq_body :: string

record Response =
  rs_status :: int
  rs_body :: string
  rs_content_type :: string

record FailureResponse =
  fr_status :: int
  fr_code :: string
  fr_message :: string

definition kMaxSqlLength :: nat where
  "kMaxSqlLength = 64 * 1024"

fun response_for :: "ServiceFailure \<Rightarrow> FailureResponse" where
  "response_for SfEmptyInput =
     \<lparr>fr_status = 400, fr_code = ''empty_sql'',
      fr_message = ''The '' @ [CHR 0x27] @ ''sql'' @ [CHR 0x27] @ '' field must not be empty.''\<rparr>"
| "response_for SfUnparseableSql =
     \<lparr>fr_status = 400, fr_code = ''invalid_sql'', fr_message = ''The SQL statement could not be parsed.''\<rparr>"
| "response_for SfPolicyRejected =
     \<lparr>fr_status = 403, fr_code = ''policy_rejected'', fr_message = ''The statement was rejected by policy.''\<rparr>"
| "response_for SfQueryFailed =
     \<lparr>fr_status = 400, fr_code = ''query_failed'', fr_message = ''The database rejected the statement.''\<rparr>"
| "response_for SfDatabaseUnavailable =
     \<lparr>fr_status = 503, fr_code = ''database_unavailable'',
      fr_message = ''The database is currently unavailable.''\<rparr>"
| "response_for SfMaskingRefused =
     \<lparr>fr_status = 422, fr_code = ''masking_refused'',
      fr_message = ''Results could not be safely masked and were not returned.''\<rparr>"
| "response_for SfInternalError =
     \<lparr>fr_status = 500, fr_code = ''internal_error'', fr_message = ''An internal error occurred.''\<rparr>"

type_synonym printer = "json \<Rightarrow> string throws"

definition set_json :: "printer \<Rightarrow> int \<Rightarrow> json \<Rightarrow> Response \<Rightarrow> Response throws" where
  "set_json dump status body response =
     (let response = response\<lparr>rs_status := status\<rparr>
      in and_then (dump body) (\<lambda>text.
           Inr (response\<lparr>rs_body := text, rs_content_type := ''application/json''\<rparr>)))"

definition send_error :: "printer \<Rightarrow> Response \<Rightarrow> int \<Rightarrow> string \<Rightarrow> string \<Rightarrow> Response throws" where
  "send_error dump response status code message =
     set_json dump status (JObject (object_of [(''error'', JString code), (''message'', JString message)])) response"

fun cell_json :: "cell \<Rightarrow> json" where
  "cell_json (Some text) = JString text"
| "cell_json None = JNull"

definition rows_json :: "cell list list \<Rightarrow> json" where
  "rows_json rows = JArray (map (\<lambda>row. JArray (map cell_json row)) rows)"

definition masked_body :: "MaskedQueryResult \<Rightarrow> json" where
  "masked_body m =
     JObject (object_of [(''columns'', JArray (map JString (mq_column_names m))), (''rows'', rows_json (mq_rows m)),
       (''row_count'', JNumber (int (length (mq_rows m))))])"

definition write_body :: "WriteResult \<Rightarrow> json" where
  "write_body w = JObject (object_of [(''affected_rows'', JNumber (int (wr_affected_rows w)))])"

text \<open>The part of the handler after \<open>proxy.handle(sql)\<close>.\<close>

definition respond :: "printer \<Rightarrow> ServiceResult \<Rightarrow> Response \<Rightarrow> Response throws" where
  "respond dump result response =
     (if \<not> succeeded result then
        and_then (service_failure_reason result) (\<lambda>reason.
          let failure = response_for reason
          in send_error dump response (fr_status failure) (fr_code failure) (fr_message failure))
      else if is_write result then
        and_then (service_write_result result) (\<lambda>w. set_json dump 200 (write_body w) response)
      else
        and_then (service_result result) (\<lambda>masked. set_json dump 200 (masked_body masked) response))"

definition handle_query_request ::
  "(string \<Rightarrow> json option) \<Rightarrow> printer \<Rightarrow> ('db, 'sink) Adapters \<Rightarrow> int \<Rightarrow> Request \<Rightarrow> Response
     \<Rightarrow> ('db, 'sink) ProxyService \<Rightarrow> Response throws \<times> ('db, 'sink) ProxyService" where
  "handle_query_request json_parse dump ad timestamp_ms request response proxy =
     (if \<not> prefix ''application/json'' (rq_content_type request) then
        (send_error dump response 400 ''invalid_content_type'' ''Content-Type must be application/json.'', proxy)
      else
        (case json_parse (rq_body request) of
           None \<Rightarrow> (send_error dump response 400 ''invalid_json'' ''Request body must be a JSON object.'', proxy)
         | Some body \<Rightarrow>
             if \<not> is_object body then
               (send_error dump response 400 ''invalid_json'' ''Request body must be a JSON object.'', proxy)
             else
               (case json_find ''sql'' body of
                  Some (JString sql) \<Rightarrow>
                    if length sql > kMaxSqlLength then
                      (send_error dump response 400 ''sql_too_large''
                         (''The '' @ [CHR 0x27] @ ''sql'' @ [CHR 0x27] @ '' field exceeds the maximum accepted length.''),
                       proxy)
                    else
                      (let (result, proxy) = handle ad timestamp_ms sql proxy
                       in (respond dump result response, proxy))
                | _ \<Rightarrow>
                    (send_error dump response 400 ''invalid_request''
                       (''Request body must contain a string '' @ [CHR 0x27] @ ''sql'' @ [CHR 0x27] @ '' field.''),
                     proxy))))"

text \<open>The health handler sets the content before the status.\<close>

definition handle_health_request :: "printer \<Rightarrow> Response \<Rightarrow> Response throws" where
  "handle_health_request dump response =
     and_then (dump (JObject (object_of [(''status'', JString ''ok'')]))) (\<lambda>text.
       let response = response\<lparr>rs_body := text, rs_content_type := ''application/json''\<rparr>
       in Inr (response\<lparr>rs_status := 200\<rparr>))"

subsection \<open>Registration\<close>

text \<open>
  The methods of a request. The library has one list of callbacks per method of registration; a
  HEAD request is answered by the callbacks for GET.
\<close>

datatype http_method = GET | HEAD | POST | OtherMethod string

fun callback_method :: "http_method \<Rightarrow> http_method" where
  "callback_method HEAD = GET"
| "callback_method m = m"

datatype handler = QueryHandler | HealthHandler

type_synonym server = "(http_method \<times> string \<times> handler) list"

definition register_query_routes :: "server \<Rightarrow> server" where
  "register_query_routes server = server @ [(POST, ''/query'', QueryHandler)]"

definition register_health_routes :: "server \<Rightarrow> server" where
  "register_health_routes server = server @ [(GET, ''/health'', HealthHandler)]"

definition register_routes :: "server \<Rightarrow> server" where
  "register_routes server = register_query_routes (register_health_routes server)"

definition HttpServer :: server where
  "HttpServer = register_routes []"

text \<open>
  What a registered callback does: the lambda of \<open>register_query_routes\<close> calls the query
  handler with the service it captured, the one of \<open>register_health_routes\<close> has no service.
  Choosing the callback is the library's: \<open>route\<close> is an argument, and so is the answer
  \<open>unmatched\<close> it gives by itself when no callback is registered for a request.
\<close>

definition run_handler ::
  "(string \<Rightarrow> json option) \<Rightarrow> printer \<Rightarrow> ('db, 'sink) Adapters \<Rightarrow> int \<Rightarrow> handler \<Rightarrow> Request \<Rightarrow> Response
     \<Rightarrow> ('db, 'sink) ProxyService \<Rightarrow> Response throws \<times> ('db, 'sink) ProxyService" where
  "run_handler json_parse dump ad timestamp_ms h request response proxy =
     (case h of
        QueryHandler \<Rightarrow> handle_query_request json_parse dump ad timestamp_ms request response proxy
      | HealthHandler \<Rightarrow> (handle_health_request dump response, proxy))"

definition http_dispatch ::
  "(server \<Rightarrow> http_method \<Rightarrow> string \<Rightarrow> handler option) \<Rightarrow> (http_method \<Rightarrow> string \<Rightarrow> Response)
     \<Rightarrow> (string \<Rightarrow> json option) \<Rightarrow> printer \<Rightarrow> ('db, 'sink) Adapters \<Rightarrow> int \<Rightarrow> http_method \<Rightarrow> string \<Rightarrow> Request
     \<Rightarrow> Response \<Rightarrow> ('db, 'sink) ProxyService \<Rightarrow> Response throws \<times> ('db, 'sink) ProxyService" where
  "http_dispatch route unmatched json_parse dump ad timestamp_ms m path request response proxy =
     (case route HttpServer m path of
        None \<Rightarrow> (Inr (unmatched m path), proxy)
      | Some h \<Rightarrow> run_handler json_parse dump ad timestamp_ms h request response proxy)"

text \<open>Literal patterns match literally: the routing of a server whose patterns have no wildcards.\<close>

definition literal_route :: "server \<Rightarrow> http_method \<Rightarrow> string \<Rightarrow> handler option" where
  "literal_route server m path = map_option (snd \<circ> snd) (find (\<lambda>(m', p, h). m' = callback_method m \<and> p = path) server)"

section \<open>Lemmas\<close>

text \<open>The SQL text of a request that enters the pipeline.\<close>

definition controlled_sql :: "(string \<Rightarrow> json option) \<Rightarrow> Request \<Rightarrow> string option" where
  "controlled_sql json_parse request =
     (if prefix ''application/json'' (rq_content_type request)
      then (case json_parse (rq_body request) of
              Some (JObject kvs) \<Rightarrow>
                (case map_of kvs ''sql'' of
                   Some (JString sql) \<Rightarrow> if length sql \<le> 65536 then Some sql else None
                 | _ \<Rightarrow> None)
            | _ \<Rightarrow> None)
      else None)"

text \<open>Where a request leaves the validation, one case per early return.\<close>

lemma request_cases:
  obtains (content_type) "\<not> prefix ''application/json'' (rq_content_type request)"
  | (unparseable) "prefix ''application/json'' (rq_content_type request)" "json_parse (rq_body request) = None"
  | (not_object) body where "prefix ''application/json'' (rq_content_type request)"
      "json_parse (rq_body request) = Some body" "\<not> is_object body"
  | (no_field) kvs where "prefix ''application/json'' (rq_content_type request)"
      "json_parse (rq_body request) = Some (JObject kvs)" "map_of kvs ''sql'' = None"
  | (not_string) kvs v where "prefix ''application/json'' (rq_content_type request)"
      "json_parse (rq_body request) = Some (JObject kvs)" "map_of kvs ''sql'' = Some v" "\<forall>t. v \<noteq> JString t"
  | (string) kvs t where "prefix ''application/json'' (rq_content_type request)"
      "json_parse (rq_body request) = Some (JObject kvs)" "map_of kvs ''sql'' = Some (JString t)"
proof (cases "prefix ''application/json'' (rq_content_type request)")
  case p: True
  show thesis
  proof (cases "json_parse (rq_body request)")
    case (Some body)
    show thesis
    proof (cases body)
      case (JObject kvs)
      then show thesis
        using p Some no_field not_string string by (cases "map_of kvs ''sql''") blast+
    qed (use p Some not_object in \<open>simp_all\<close>)
  qed (use p unparseable in simp)
qed (use content_type in simp)

lemma handle_query_request_controlled:
  assumes "controlled_sql json_parse request = Some sql"
  shows "handle_query_request json_parse dump ad ts request response proxy =
    (respond dump (fst (handle ad ts sql proxy)) response, snd (handle ad ts sql proxy))"
proof (cases rule: request_cases[where request = request and json_parse = json_parse])
  case (not_object body)
  then show ?thesis using assms by (cases body) (simp_all add: controlled_sql_def)
next
  case (not_string kvs v)
  then show ?thesis using assms by (cases v) (simp_all add: controlled_sql_def)
next
  case (string kvs t)
  then have "t = sql" "length t \<le> 65536" using assms by (simp_all add: controlled_sql_def split: if_splits)
  with string show ?thesis by (simp add: handle_query_request_def kMaxSqlLength_def case_prod_unfold Let_def)
qed (use assms in \<open>simp_all add: controlled_sql_def\<close>)

text \<open>
  The handler as a client of the service: it validates the request by itself, and either answers
  or calls the service with the text.
\<close>

definition validate_query_request ::
  "(string \<Rightarrow> json option) \<Rightarrow> printer \<Rightarrow> Request \<Rightarrow> Response \<Rightarrow> string + Response throws" where
  "validate_query_request json_parse dump request response =
     (if \<not> prefix ''application/json'' (rq_content_type request) then
        Inr (send_error dump response 400 ''invalid_content_type'' ''Content-Type must be application/json.'')
      else
        (case json_parse (rq_body request) of
           None \<Rightarrow> Inr (send_error dump response 400 ''invalid_json'' ''Request body must be a JSON object.'')
         | Some body \<Rightarrow>
             if \<not> is_object body then
               Inr (send_error dump response 400 ''invalid_json'' ''Request body must be a JSON object.'')
             else
               (case json_find ''sql'' body of
                  Some (JString sql) \<Rightarrow>
                    if length sql > kMaxSqlLength then
                      Inr (send_error dump response 400 ''sql_too_large''
                         (''The '' @ [CHR 0x27] @ ''sql'' @ [CHR 0x27] @ '' field exceeds the maximum accepted length.''))
                    else Inl sql
                | _ \<Rightarrow>
                    Inr (send_error dump response 400 ''invalid_request''
                       (''Request body must contain a string '' @ [CHR 0x27] @ ''sql'' @ [CHR 0x27] @ '' field.'')))))"

lemma handle_query_request_validates:
  "handle_query_request json_parse dump ad ts request response proxy =
     (case validate_query_request json_parse dump request response of
        Inl sql \<Rightarrow> (respond dump (fst (handle ad ts sql proxy)) response, snd (handle ad ts sql proxy))
      | Inr answer \<Rightarrow> (answer, proxy))"
  by (simp add: handle_query_request_def validate_query_request_def case_prod_unfold Let_def
      split: option.split json.split)

text \<open>The transport errors.\<close>

definition transport_codes :: "string list" where
  "transport_codes = [''invalid_content_type'', ''invalid_json'', ''invalid_request'', ''sql_too_large'']"

definition transport_error :: "printer \<Rightarrow> Response \<Rightarrow> Response throws \<Rightarrow> bool" where
  "transport_error dump response r \<longleftrightarrow>
     (\<exists>code message. r = send_error dump response 400 code message \<and> code \<in> set transport_codes)"

lemma transport_errorI:
  "code \<in> set transport_codes \<Longrightarrow> transport_error dump response (send_error dump response 400 code message)"
  unfolding transport_error_def by (intro exI conjI) (rule refl)

lemma transport_codes_in:
  "''invalid_content_type'' \<in> set transport_codes" "''invalid_json'' \<in> set transport_codes"
  "''invalid_request'' \<in> set transport_codes" "''sql_too_large'' \<in> set transport_codes"
  by (simp_all add: transport_codes_def)

lemmas transport_errors = transport_codes_in[THEN transport_errorI]

lemma handle_query_request_rejected:
  assumes "controlled_sql json_parse request = None"
  shows "snd (handle_query_request json_parse dump ad ts request response proxy) = proxy \<and>
    transport_error dump response (fst (handle_query_request json_parse dump ad ts request response proxy))"
proof (cases rule: request_cases[where request = request and json_parse = json_parse])
  case (not_string kvs v)
  then show ?thesis by (cases v) (simp_all add: handle_query_request_def transport_errors)
next
  case (string kvs t)
  then have "65536 < length t" using assms by (simp add: controlled_sql_def split: if_splits)
  with string show ?thesis by (simp add: handle_query_request_def kMaxSqlLength_def transport_errors)
qed (simp_all add: handle_query_request_def transport_errors)

text \<open>What the client can read of a result, without the printer.\<close>

fun status_of :: "ServiceResult \<Rightarrow> int" where
  "status_of (SrFailure f) = fr_status (response_for f)"
| "status_of (SrSuccess q) = 200"
| "status_of (SrWriteSuccess w) = 200"

fun body_of :: "ServiceResult \<Rightarrow> json" where
  "body_of (SrFailure f) =
     JObject (object_of [(''error'', JString (fr_code (response_for f))), (''message'', JString (fr_message (response_for f)))])"
| "body_of (SrSuccess q) = masked_body q"
| "body_of (SrWriteSuccess w) = write_body w"

lemma respond_eq: "respond dump r response = set_json dump (status_of r) (body_of r) response"
  by (cases r) (simp_all add: respond_def send_error_def Let_def)

lemma error_object [simp]: "object_of [(''error'', v), (''message'', w)] = [(''error'', v), (''message'', w)]"
  by (simp add: object_of_def less_char_def)

lemma set_json_Inr:
  "set_json dump st body response = Inr rs \<longleftrightarrow>
     (\<exists>text. dump body = Inr text \<and>
        rs = response\<lparr>rs_status := st, rs_body := text, rs_content_type := ''application/json''\<rparr>)"
  by (auto simp: set_json_def and_then_eq_Inr)

lemma response_for_code: "fr_code (response_for f) = ServiceFailure_to_string f"
  by (cases f) simp_all

lemma failure_status: "fr_status (response_for f) \<in> {400, 403, 422, 500, 503}"
  by (cases f) simp_all

lemma status_of_values: "status_of r = 200 \<longleftrightarrow> succeeded r" "status_of r \<in> {200, 400, 403, 422, 500, 503}"
proof -
  show "status_of r = 200 \<longleftrightarrow> succeeded r"
  proof (cases r)
    case (SrFailure f)
    then show ?thesis using failure_status[of f] by auto
  qed simp_all
  show "status_of r \<in> {200, 400, 403, 422, 500, 503}"
  proof (cases r)
    case (SrFailure f)
    then show ?thesis using failure_status[of f] by auto
  qed simp_all
qed

lemma cell_json_inj: "cell_json x = cell_json y \<longleftrightarrow> x = y"
  by (cases x; cases y) simp_all

lemma rows_json_inj: "rows_json r = rows_json r' \<longleftrightarrow> r = r'"
proof -
  have "inj cell_json" by (simp add: inj_def cell_json_inj)
  then have "inj (\<lambda>row. JArray (map cell_json row))" by (simp add: inj_def inj_map_eq_map)
  then show ?thesis by (simp add: rows_json_def inj_map_eq_map)
qed

lemma masked_body_find:
  "json_find ''columns'' (masked_body m) = Some (JArray (map JString (mq_column_names m)))"
  "json_find ''rows'' (masked_body m) = Some (rows_json (mq_rows m))"
  by (simp_all add: masked_body_def map_of_object_of)

lemma masked_body_inj: "masked_body m = masked_body m' \<longleftrightarrow> m = m'"
proof
  have "inj JString" by (simp add: inj_def)
  moreover assume "masked_body m = masked_body m'"
  then have "Some (JArray (map JString (mq_column_names m))) = Some (JArray (map JString (mq_column_names m')))"
    "Some (rows_json (mq_rows m)) = Some (rows_json (mq_rows m'))"
    using masked_body_find by metis+
  ultimately show "m = m'" by (simp add: rows_json_inj inj_map_eq_map)
qed simp

section \<open>Properties\<close>

text \<open>
  C18. Transport validation comes before the pipeline: a request without a JSON content type, a JSON
  object body and a string field sql of at most 65536 bytes gets a 400 with one of four transport
  codes and leaves the service as it was (no request id used, nothing executed, nothing audited);
  every other request is one call of the service on exactly that text, an empty one included.
\<close>

theorem transport_rejection:
  "(case controlled_sql json_parse request of
      None \<Rightarrow>
        snd (handle_query_request json_parse dump ad ts request response proxy) = proxy \<and>
        (\<exists>code message. code \<in> {''invalid_content_type'', ''invalid_json'', ''invalid_request'', ''sql_too_large''} \<and>
           fst (handle_query_request json_parse dump ad ts request response proxy) =
             send_error dump response 400 code message)
    | Some sql \<Rightarrow>
        handle_query_request json_parse dump ad ts request response proxy =
          (respond dump (fst (handle ad ts sql proxy)) response, snd (handle ad ts sql proxy)))"
proof (cases "controlled_sql json_parse request")
  case None
  from handle_query_request_rejected[OF None, of dump ad ts response proxy] None show ?thesis
    unfolding transport_error_def transport_codes_def by auto
next
  case (Some sql)
  then show ?thesis by (simp add: handle_query_request_controlled)
qed

text \<open>
  C20. What the client can tell from a response: the status is 200 exactly for a success and one of
  400, 403, 422, 500, 503 for a failure, the failure code is the name of the failure, and two
  successful reads have the same body value only when they have the same column names and the same
  cells, so that NULL and the empty string stay apart.
\<close>

theorem response_faithful:
  assumes "respond dump r response = Inr rs"
  shows "(rs_status rs = 200 \<longleftrightarrow> succeeded r) \<and> rs_status rs \<in> {200, 400, 403, 422, 500, 503} \<and>
    (\<exists>text. dump (body_of r) = Inr text \<and> rs_body rs = text \<and> rs_content_type rs = ''application/json'') \<and>
    (case r of
       SrFailure f \<Rightarrow> json_find ''error'' (body_of r) = Some (JString (ServiceFailure_to_string f))
     | SrWriteSuccess w \<Rightarrow> json_find ''affected_rows'' (body_of r) = Some (JNumber (int (wr_affected_rows w)))
     | SrSuccess q \<Rightarrow> {q'. body_of (SrSuccess q') = body_of r} = {q})"
proof -
  from assms obtain out where t: "dump (body_of r) = Inr out"
    "rs = response\<lparr>rs_status := status_of r, rs_body := out, rs_content_type := ''application/json''\<rparr>"
    by (auto simp: respond_eq set_json_Inr)
  have "case r of
       SrFailure f \<Rightarrow> json_find ''error'' (body_of r) = Some (JString (ServiceFailure_to_string f))
     | SrWriteSuccess w \<Rightarrow> json_find ''affected_rows'' (body_of r) = Some (JNumber (int (wr_affected_rows w)))
     | SrSuccess q \<Rightarrow> {q'. body_of (SrSuccess q') = body_of r} = {q}"
    by (cases r) (simp_all add: response_for_code write_body_def masked_body_inj map_of_object_of)
  with t status_of_values[of r] show ?thesis by simp
qed

theorem response_faithful_witness:
  "\<exists>rs. respond (\<lambda>j. Inr (compact j)) (SrFailure SfPolicyRejected) \<lparr>rs_status = -1, rs_body = [], rs_content_type = []\<rparr>
      = Inr rs \<and> rs_status rs \<noteq> 200"
proof -
  let ?r = "SrFailure SfPolicyRejected" and ?rs = "\<lparr>rs_status = -1, rs_body = [], rs_content_type = []\<rparr>"
  obtain rs where "respond (\<lambda>j. Inr (compact j)) ?r ?rs = Inr rs"
    by (simp add: respond_eq set_json_def)
  with response_faithful[OF this] show ?thesis by auto
qed

end
