(* ===== verification/Startup.thy ===== *)
theory Startup
  imports Hyrise_Adapter Postgres_Executor Jsonl_Audit Http_Routes "HOL-Library.Monad_Syntax"
begin

text \<open>
  The process entry point, \<open>src/src/main.cpp\<close>, and the system log,
  \<open>src/src/logging/system_log.cpp\<close>. The environment is a function from variable names; opening
  the audit file and listening on a port are arguments (the HTTP library's call blocks, and returns
  false when the port cannot be bound). What \<open>main\<close> leaves behind is its exit code, the lines
  it logged itself, and the wiring it handed to the server, if it came that far; \<open>None\<close> is an
  abnormal end, by logging through a null logger or by an exception that nobody catches.
\<close>

section \<open>Definitions\<close>

datatype level = Info | Error

type_synonym log = "(level \<times> string) list"

text \<open>The global pointer: \<open>None\<close> is a null logger.\<close>

definition system_log_init :: "log option \<Rightarrow> log option" where
  "system_log_init g_logger = (if g_logger = None then Some [] else g_logger)"

text \<open>\<open>logger()->info(...)\<close> and \<open>logger()->error(...)\<close>, without a check of the pointer.\<close>

definition log_line :: "level \<Rightarrow> string \<Rightarrow> log option \<Rightarrow> log option option" where
  "log_line l text g_logger =
     (case g_logger of None \<Rightarrow> None | Some ls \<Rightarrow> Some (Some (ls @ [(l, text)])))"

definition kDefaultPort :: "16 word" where
  "kDefaultPort = 8080"

definition kDefaultAuditLogPath :: string where
  "kDefaultAuditLogPath = ''audit.jsonl''"

type_synonym env = "string \<Rightarrow> string option"

definition resolve_audit_log_path :: "env \<Rightarrow> string" where
  "resolve_audit_log_path getenv =
     (case getenv ''AUDIT_LOG_PATH'' of
        None \<Rightarrow> kDefaultAuditLogPath
      | Some configured \<Rightarrow> if configured \<noteq> [] then configured else kDefaultAuditLogPath)"

record 'db wiring =
  wi_port :: "16 word"
  wi_database :: DatabaseConfig
  wi_audit_path :: string
  wi_service :: "('db, ofstream) ProxyService"
  wi_routes :: server

record 'db exit =
  xt_code :: int
  xt_log :: "log option"
  xt_wiring :: "'db wiring option"

definition server_run :: "(16 word \<Rightarrow> bool) \<Rightarrow> 16 word \<Rightarrow> log option \<Rightarrow> (bool \<times> log option) option" where
  "server_run listen port g_logger =
     do {
       g_logger \<leftarrow> log_line Info (''HTTP server listening on port '' @ string_of_nat (unat port)) g_logger;
       Some (listen port, g_logger)
     }"

text \<open>A failed start: the reason is logged and the process ends with code 1.\<close>

definition startup_failed :: "string \<Rightarrow> log option \<Rightarrow> 'db exit option" where
  "startup_failed reason g_logger =
     do {
       g_logger \<leftarrow> log_line Error (''Startup failed: '' @ reason) g_logger;
       Some \<lparr>xt_code = 1, xt_log = g_logger, xt_wiring = None\<rparr>
     }"

text \<open>The construction of the service; the constructor of its classifier may throw.\<close>

definition wire ::
  "env \<Rightarrow> (string \<Rightarrow> ofstream) \<Rightarrow> 'db \<Rightarrow> PortResolution \<Rightarrow> DatabaseConfigResolution \<Rightarrow> log option
     \<Rightarrow> 'db wiring option" where
  "wire getenv open_audit db port_resolution database_resolution g_logger =
     (let path = resolve_audit_log_path getenv
      in case make_ProxyService db (open_audit path) (map_option (map snd) g_logger) of
           Inl e \<Rightarrow> None
         | Inr proxy \<Rightarrow>
             Some \<lparr>wi_port = po_port port_resolution, wi_database = dr_config database_resolution,
                   wi_audit_path = path, wi_service = proxy, wi_routes = HttpServer\<rparr>)"

definition main ::
  "env \<Rightarrow> (string \<Rightarrow> ofstream) \<Rightarrow> (16 word \<Rightarrow> bool) \<Rightarrow> 'db \<Rightarrow> log option \<Rightarrow> 'db exit option" where
  "main getenv open_audit listen db g_logger =
     (let g_logger = system_log_init g_logger;
          port_resolution = resolve_port (getenv ''PORT'') kDefaultPort
      in if \<not> po_valid port_resolution then startup_failed (po_error port_resolution) g_logger
         else
           let database_resolution =
                 resolve_database_config (getenv ''DATABASE_URL'') (getenv ''DB_STATEMENT_TIMEOUT_MS'')
           in if \<not> dr_valid database_resolution then startup_failed (dr_error database_resolution) g_logger
              else
                do {
                  g_logger \<leftarrow> log_line Info
                    (''Starting sql-proxy-service (port source: '' @
                     (if po_source port_resolution = SourceEnvironment then ''PORT env var'' else ''default'') @ '')'')
                    g_logger;
                  wiring \<leftarrow> wire getenv open_audit db port_resolution database_resolution g_logger;
                  (clean_exit, g_logger) \<leftarrow> server_run listen (po_port port_resolution) g_logger;
                  if \<not> clean_exit then
                    do {
                      g_logger \<leftarrow> log_line Error (''HTTP server failed to bind to port '' @
                        string_of_nat (unat (po_port port_resolution))) g_logger;
                      Some \<lparr>xt_code = 1, xt_log = g_logger, xt_wiring = Some wiring\<rparr>
                    }
                  else Some \<lparr>xt_code = 0, xt_log = g_logger, xt_wiring = Some wiring\<rparr>
                })"

text \<open>
  The composition \<open>main\<close> makes: the parser adapter under the analyzer, the executor with the
  resolved settings, the audit file.
\<close>

definition production_adapters ::
  "('f \<Rightarrow> bool) \<Rightarrow> (string \<Rightarrow> 'f SQLParserResult option) \<Rightarrow> ('db, 'txn) Pqxx \<Rightarrow> DatabaseConfig \<Rightarrow> printer
     \<Rightarrow> ('db, ofstream) Adapters" where
  "production_adapters fpos hsql_parse px config dump =
     \<lparr>ad_parse = hyrise_parse fpos hsql_parse, ad_execute = postgres_execute px config,
      ad_append = jsonl_append dump\<rparr>"

section \<open>Lemmas\<close>

lemma production_adapters_simps [simp]:
  "ad_parse (production_adapters fpos hp px config dump) = hyrise_parse fpos hp"
  "ad_execute (production_adapters fpos hp px config dump) = postgres_execute px config"
  "ad_append (production_adapters fpos hp px config dump) = jsonl_append dump"
  by (simp_all add: production_adapters_def)

lemma log_line_Some [simp]: "log_line l t (Some ls) = Some (Some (ls @ [(l, t)]))"
  by (simp add: log_line_def)

lemma startup_failed_Some [simp]:
  "startup_failed reason (Some ls) =
     Some \<lparr>xt_code = 1, xt_log = Some (ls @ [(Error, ''Startup failed: '' @ reason)]), xt_wiring = None\<rparr>"
  by (simp add: startup_failed_def)

lemma server_run_Some [simp]:
  "server_run listen port (Some ls) =
     Some (listen port, Some (ls @ [(Info, ''HTTP server listening on port '' @ string_of_nat (unat port))]))"
  by (simp add: server_run_def)

lemma system_log_init_Some: "\<exists>ls. system_log_init g = Some ls"
  by (cases g) (simp_all add: system_log_init_def)

lemma make_ProxyService_ok:
  "make_ProxyService db sink syslog =
     Inr \<lparr>sv_classifier = [''email'' \<mapsto> PiiEmail, ''phone'' \<mapsto> PiiPhone, ''credit_card'' \<mapsto> PiiCreditCard],
          sv_next_request_id = 1, sv_db = db, sv_sink = sink, sv_syslog = syslog\<rparr>"
  by (simp add: make_ProxyService_def DataClassifier_default)

text \<open>A start that went through: both settings valid, and the service as constructed.\<close>

definition startup_valid :: "env \<Rightarrow> bool" where
  "startup_valid getenv \<longleftrightarrow>
     po_valid (resolve_port (getenv ''PORT'') 8080) \<and>
     dr_valid (resolve_database_config (getenv ''DATABASE_URL'') (getenv ''DB_STATEMENT_TIMEOUT_MS''))"

lemma main_invalid:
  assumes "\<not> startup_valid getenv"
  shows "\<exists>ls reason. main getenv open_audit listen db g =
    Some \<lparr>xt_code = 1, xt_log = Some (ls @ [(Error, ''Startup failed: '' @ reason)]), xt_wiring = None\<rparr>"
proof -
  obtain ls where "system_log_init g = Some ls" using system_log_init_Some by blast
  with assms show ?thesis by (auto simp: main_def startup_valid_def kDefaultPort_def Let_def)
qed

lemma main_valid:
  assumes "startup_valid getenv"
  shows "\<exists>lines log. main getenv open_audit listen db g =
    Some \<lparr>xt_code = (if listen (po_port (resolve_port (getenv ''PORT'') 8080)) then 0 else 1), xt_log = Some log,
          xt_wiring = Some \<lparr>wi_port = po_port (resolve_port (getenv ''PORT'') 8080),
            wi_database = dr_config (resolve_database_config (getenv ''DATABASE_URL'') (getenv ''DB_STATEMENT_TIMEOUT_MS'')),
            wi_audit_path = resolve_audit_log_path getenv,
            wi_service = \<lparr>sv_classifier = [''email'' \<mapsto> PiiEmail, ''phone'' \<mapsto> PiiPhone, ''credit_card'' \<mapsto> PiiCreditCard],
              sv_next_request_id = 1, sv_db = db, sv_sink = open_audit (resolve_audit_log_path getenv),
              sv_syslog = Some lines\<rparr>,
            wi_routes = HttpServer\<rparr>\<rparr>"
proof -
  obtain ls where "system_log_init g = Some ls" using system_log_init_Some by blast
  with assms show ?thesis
    by (auto simp: main_def startup_valid_def kDefaultPort_def Let_def wire_def make_ProxyService_ok)
qed

text \<open>The ports of the production composition keep their contracts.\<close>

interpretation production: proxy_ports "production_adapters fpos hp px config dump" for fpos hp px config dump
  unfolding proxy_ports_def production_adapters_simps
  by (intro conjI hyrise.sql_parser_port_axioms postgres.query_executor_port_axioms)

interpretation production_audit:
  audited_ports "production_adapters fpos hp px config dump" os_content "jsonl_line dump" for fpos hp px config dump
  by unfold_locales (simp_all add: jsonl.append_no_throw jsonl.append_extends jsonl.append_ok)

section \<open>Properties\<close>

text \<open>
  C38. When the process serves: it never ends abnormally (no null logger is used, no constructor
  throws); the service is built and the port is listened on exactly when PORT and the database
  settings are valid, with the resolved port and connection settings, the two routes, the three
  mapped column names, request ids from 1 on and the audit file that was opened at the configured
  path; the exit code is 0 exactly when it served and the listening ended cleanly, and 1 otherwise.
\<close>

theorem startup_decision:
  "\<exists>x. main getenv open_audit listen db g = Some x \<and>
     (\<exists>lines. xt_wiring x =
       (if po_valid (resolve_port (getenv ''PORT'') 8080) \<and>
           dr_valid (resolve_database_config (getenv ''DATABASE_URL'') (getenv ''DB_STATEMENT_TIMEOUT_MS''))
        then Some \<lparr>wi_port = po_port (resolve_port (getenv ''PORT'') 8080),
                   wi_database = dr_config (resolve_database_config (getenv ''DATABASE_URL'') (getenv ''DB_STATEMENT_TIMEOUT_MS'')),
                   wi_audit_path = (case getenv ''AUDIT_LOG_PATH'' of Some (c # cs) \<Rightarrow> c # cs | _ \<Rightarrow> ''audit.jsonl''),
                   wi_service = \<lparr>
                     sv_classifier = [''email'' \<mapsto> PiiEmail, ''phone'' \<mapsto> PiiPhone, ''credit_card'' \<mapsto> PiiCreditCard],
                     sv_next_request_id = 1, sv_db = db,
                     sv_sink = open_audit (case getenv ''AUDIT_LOG_PATH'' of Some (c # cs) \<Rightarrow> c # cs | _ \<Rightarrow> ''audit.jsonl''),
                     sv_syslog = Some lines\<rparr>,
                   wi_routes = [(GET, ''/health'', HealthHandler), (POST, ''/query'', QueryHandler)]\<rparr>
        else None)) \<and>
     xt_code x = (case xt_wiring x of None \<Rightarrow> 1 | Some w \<Rightarrow> if listen (wi_port w) then 0 else 1)"
proof -
  have path: "resolve_audit_log_path getenv =
      (case getenv ''AUDIT_LOG_PATH'' of Some (c # cs) \<Rightarrow> c # cs | _ \<Rightarrow> ''audit.jsonl'')"
    by (simp add: resolve_audit_log_path_def kDefaultAuditLogPath_def split: option.split list.split)
  have routes: "HttpServer = [(GET, ''/health'', HealthHandler), (POST, ''/query'', QueryHandler)]"
    by (simp add: HttpServer_def register_routes_def register_query_routes_def register_health_routes_def)
  show ?thesis
  proof (cases "startup_valid getenv")
    case True
    from main_valid[OF True, of open_audit listen db g] True show ?thesis
      unfolding path routes startup_valid_def by auto
  next
    case False
    from main_invalid[OF False, of open_audit listen db g] False show ?thesis
      unfolding startup_valid_def by auto
  qed
qed


definition demo_env :: env where
  "demo_env = [''DATABASE_URL'' \<mapsto> ''postgresql://u:p@h/d'']"


end
