(* ===== verification/Production_Demo.thy ===== *)
theory Production_Demo
  imports Startup Fakes
begin

text \<open>
  A concrete instance of the libraries around the production composition, at which the properties
  of that composition are instantiated: a parser that knows one SELECT and one INSERT, a driver
  over a database that is the list of the committed texts, and the compact JSON printer. A
  floating-point literal is an integer number of hundredths.
\<close>

definition column_ref :: "string \<Rightarrow> int Expr" where
  "column_ref name = Expr kExprColumnRef (Some name) None False False None 0 0"

definition literal_int :: "int \<Rightarrow> int Expr" where
  "literal_int v = Expr kExprLiteralInt None None False False None v 0"

definition demo_select_tree :: "int SelectStatement" where
  "demo_select_tree =
     \<lparr>sel_fromTable = Some (HTableRef kTableName None (Some ''customers'') None None),
      sel_selectList = Some [Some (column_ref ''id''), Some (column_ref ''email'')],
      sel_has_groupBy = False, sel_withDescriptions = None, sel_setOperations = None\<rparr>"

definition demo_insert_tree :: "int InsertStatement" where
  "demo_insert_tree =
     \<lparr>ins_type = kInsertValues, ins_schema = None, ins_tableName = Some ''orders'',
      ins_columns = Some [Some ''customer_id'', Some ''amount''],
      ins_values = Some [Some (literal_int 1), Some (literal_int 10)]\<rparr>"

definition demo_insert_sql :: string where
  "demo_insert_sql = ''INSERT INTO orders (customer_id, amount) VALUES (1, 10)''"

definition demo_hsql :: "string \<Rightarrow> int SQLParserResult option" where
  "demo_hsql sql =
     Some (if sql = demo_sql then
             \<lparr>spr_isValid = True, spr_errorLine = -1, spr_errorColumn = -1,
              spr_statements = [Some (kStmtSelect demo_select_tree)]\<rparr>
           else if sql = demo_insert_sql then
             \<lparr>spr_isValid = True, spr_errorLine = -1, spr_errorColumn = -1,
              spr_statements = [Some (kStmtInsert demo_insert_tree)]\<rparr>
           else \<lparr>spr_isValid = False, spr_errorLine = 0, spr_errorColumn = 0, spr_statements = []\<rparr>)"

definition demo_rows :: PqxxResult where
  "demo_rows =
     \<lparr>px_columns = 2, px_column_name = (\<lambda>c. if c = 0 then ''id'' else ''email''),
      px_column_type = (\<lambda>c. if c = 0 then 23 else 25), px_size = 1,
      px_field = (\<lambda>r c. Some (if c = 0 then ''1'' else ''lihi.roas@example.com'')), px_affected_rows = 1\<rparr>"

definition demo_done :: "nat \<Rightarrow> PqxxResult" where
  "demo_done affected =
     \<lparr>px_columns = 0, px_column_name = (\<lambda>c. []), px_column_type = (\<lambda>c. 0), px_size = 0,
      px_field = (\<lambda>r c. None), px_affected_rows = affected\<rparr>"

text \<open>A driver that runs every statement; \<open>affected\<close> is the row count it reports.\<close>

definition demo_pqxx :: "nat \<Rightarrow> (string list, string list) Pqxx" where
  "demo_pqxx affected =
     \<lparr>px_connect = (\<lambda>_ _. None), px_begin = (\<lambda>_. Inr []),
      px_exec = (\<lambda>txn sql.
        (Inr (if sql = demo_sql then demo_rows else demo_done affected), txn @ [sql])),
      px_commit = (\<lambda>txn db. (None, db @ txn)), px_abort = (\<lambda>txn db. db)\<rparr>"

definition demo_config :: DatabaseConfig where
  "demo_config = \<lparr>db_connection_string = ''postgresql://u:p@h/d'', db_statement_timeout_ms = 5000\<rparr>"

definition demo_production :: "nat \<Rightarrow> (string list, ofstream) Adapters" where
  "demo_production affected =
     production_adapters (\<lambda>v. 0 < v) demo_hsql (demo_pqxx affected) demo_config (\<lambda>j. Inr (compact j))"

definition demo_service :: "ofstream \<Rightarrow> (string list, ofstream) ProxyService" where
  "demo_service os =
     \<lparr>sv_classifier = [''email'' \<mapsto> PiiEmail, ''phone'' \<mapsto> PiiPhone, ''credit_card'' \<mapsto> PiiCreditCard],
      sv_next_request_id = 1, sv_db = [], sv_sink = os, sv_syslog = None\<rparr>"

definition demo_analysis :: "int SQLStatement \<Rightarrow> SqlAnalysis" where
  "demo_analysis stmt =
     projr (analyze (\<lambda>_. Inr \<lparr>pr_success = True, pr_statements = [translate_statement (\<lambda>v. 0 < v) stmt], pr_error = []\<rparr>) ''x'')"

lemma demo_production_simps [simp]:
  "ad_parse (demo_production n) = hyrise_parse (\<lambda>v. 0 < v) demo_hsql"
  "ad_execute (demo_production n) = postgres_execute (demo_pqxx n) demo_config"
  "ad_append (demo_production n) = jsonl_append (\<lambda>j. Inr (compact j))"
  by (simp_all add: demo_production_def)

lemma demo_not_blank: "\<not> is_blank demo_sql" "\<not> is_blank demo_insert_sql" "\<not> is_blank ''x''"
  by (code_simp, code_simp, code_simp)

lemma demo_hsql_simps [simp]:
  "demo_hsql demo_sql = Some \<lparr>spr_isValid = True, spr_errorLine = -1, spr_errorColumn = -1,
     spr_statements = [Some (kStmtSelect demo_select_tree)]\<rparr>"
  "demo_hsql demo_insert_sql = Some \<lparr>spr_isValid = True, spr_errorLine = -1, spr_errorColumn = -1,
     spr_statements = [Some (kStmtInsert demo_insert_tree)]\<rparr>"
proof -
  have "demo_insert_sql \<noteq> demo_sql" by (simp add: demo_insert_sql_def demo_sql_def)
  then show "demo_hsql demo_sql = Some \<lparr>spr_isValid = True, spr_errorLine = -1, spr_errorColumn = -1,
     spr_statements = [Some (kStmtSelect demo_select_tree)]\<rparr>"
  "demo_hsql demo_insert_sql = Some \<lparr>spr_isValid = True, spr_errorLine = -1, spr_errorColumn = -1,
     spr_statements = [Some (kStmtInsert demo_insert_tree)]\<rparr>"
    by (simp_all add: demo_hsql_def)
qed

lemma demo_analyze:
  "analyze (hyrise_parse (\<lambda>v. 0 < v) demo_hsql) demo_sql = Inr (demo_analysis (kStmtSelect demo_select_tree))"
  "analyze (hyrise_parse (\<lambda>v. 0 < v) demo_hsql) demo_insert_sql = Inr (demo_analysis (kStmtInsert demo_insert_tree))"
  by (simp_all add: analyze_def demo_analysis_def demo_not_blank hyrise_parse_def)

lemma demo_execute:
  "postgres_execute (demo_pqxx n) demo_config db demo_sql =
     (Inr (translate demo_rows), db @ [set_timeout_sql demo_config, demo_sql])"
  "postgres_execute (demo_pqxx n) demo_config db demo_insert_sql =
     (Inr (translate (demo_done n)), db @ [set_timeout_sql demo_config, demo_insert_sql])"
proof -
  have "demo_insert_sql \<noteq> demo_sql" by (simp add: demo_insert_sql_def demo_sql_def)
  then show "postgres_execute (demo_pqxx n) demo_config db demo_sql =
     (Inr (translate demo_rows), db @ [set_timeout_sql demo_config, demo_sql])"
  "postgres_execute (demo_pqxx n) demo_config db demo_insert_sql =
     (Inr (translate (demo_done n)), db @ [set_timeout_sql demo_config, demo_insert_sql])"
    by (simp_all add: postgres_execute_def demo_pqxx_def)
qed

lemma demo_append_ok:
  assumes "os_is_open os" "os_good os" "os_faults os = []"
  shows "fst (handle_append (demo_production n) ts sql (demo_service os)) = AppendOk"
proof -
  let ?rec = "pg_record (handle_processing (demo_production n) ts sql (demo_service os))"
  have "valid_record ?rec" using handle_recorded by (fastforce simp: well_recorded_def)
  then have "fst (jsonl_append (\<lambda>j. Inr (compact j)) os ?rec) = Inr AppendOk"
    by (rule jsonl_append_plain) (simp_all add: assms)
  then show ?thesis
    by (auto simp: handle_append_def append_safely_def demo_service_def split: prod.split)
qed

lemma demo_read:
  "pg_result (recover 0 1 (process_executed (sv_classifier (demo_service os))
      (demo_analysis (kStmtSelect demo_select_tree)) (translate demo_rows) 0 1)) =
   SrSuccess \<lparr>mq_column_names = [''id'', ''email''], mq_rows = [[Some ''1'', Some ''l***@example.com'']]\<rparr>"
  by code_simp

lemma demo_write:
  "pg_result (recover 0 1 (process_executed (sv_classifier (demo_service os))
      (demo_analysis (kStmtInsert demo_insert_tree)) (translate (demo_done 2)) 0 1)) = SrFailure SfInternalError"
  by code_simp

lemma demo_allowed:
  "pd_allowed (evaluate (demo_analysis (kStmtSelect demo_select_tree)))"
  "pd_allowed (evaluate (demo_analysis (kStmtInsert demo_insert_tree)))"
  by (code_simp, code_simp)

definition demo_file :: ofstream where
  "demo_file = JsonlAuditRepository True [] []"

lemma demo_run:
  "fst (handle (demo_production 1) 0 demo_sql (demo_service demo_file)) =
     SrSuccess \<lparr>mq_column_names = [''id'', ''email''], mq_rows = [[Some ''1'', Some ''l***@example.com'']]\<rparr>"
proof -
  have "pg_result (handle_processing (demo_production 1) 0 demo_sql (demo_service demo_file)) =
      SrSuccess \<lparr>mq_column_names = [''id'', ''email''], mq_rows = [[Some ''1'', Some ''l***@example.com'']]\<rparr>"
    using demo_read[of demo_file]
    by (simp add: handle_processing_def process_def demo_analyze demo_allowed demo_execute demo_service_def)
  moreover have "fst (handle_append (demo_production 1) 0 demo_sql (demo_service demo_file)) = AppendOk"
    by (rule demo_append_ok) (simp_all add: demo_file_def JsonlAuditRepository_def)
  ultimately show ?thesis by (simp add: handle_result)
qed

lemma demo_insert_run:
  "fst (handle (demo_production 2) 0 demo_insert_sql (demo_service demo_file)) = SrFailure SfInternalError"
proof -
  have "pg_result (handle_processing (demo_production 2) 0 demo_insert_sql (demo_service demo_file)) =
      SrFailure SfInternalError"
    using demo_write[of demo_file]
    by (simp add: handle_processing_def process_def demo_analyze demo_allowed demo_execute demo_service_def)
  then show ?thesis by (simp add: handle_result)
qed

text \<open>A request to the query route, over a routing that compares the paths literally.\<close>

definition demo_request :: Request where
  "demo_request = \<lparr>rq_content_type = ''application/json'', rq_body = ''...''\<rparr>"

definition demo_response :: Response where
  "demo_response = \<lparr>rs_status = -1, rs_body = [], rs_content_type = []\<rparr>"

definition demo_body :: "string \<Rightarrow> json option" where
  "demo_body body = Some (JObject [(''sql'', JString demo_sql)])"

lemma demo_controlled: "controlled_sql demo_body demo_request = Some demo_sql"
  by (simp add: controlled_sql_def demo_request_def demo_body_def demo_sql_def)

lemma literal_route_registered: "literal_route server m path = Some h \<Longrightarrow> (callback_method m, path, h) \<in> set server"
  by (auto simp: literal_route_def find_Some_iff) (metis nth_mem)

lemma literal_route_simps:
  "literal_route HttpServer POST ''/query'' = Some QueryHandler"
  "literal_route HttpServer GET ''/health'' = Some HealthHandler"
  by (simp_all add: literal_route_def HttpServer_def register_routes_def register_query_routes_def
      register_health_routes_def)

lemma demo_count: "hyrise_parse (\<lambda>v. 0 < v) demo_hsql sql = Inr r \<Longrightarrow> length (pr_statements r) \<le> 1"
  by (auto simp: hyrise_parse_def demo_hsql_def split: if_splits)

end
