(* ===== verification/Service_Spec.thy ===== *)
theory Service_Spec
  imports Serving Production_Demo
begin

text \<open>
  An abstract specification of the service and the proof that \<open>ProxyService\<close> implements it.
  The specification knows no exceptions, no stages and no files: its state is the database, the
  number of the next request and the audit trail as a list of records; a request is answered from
  the analysis of its text and the result of its execution, and adds one record to the trail. The
  implementation reaches the same answers through checked counts, record factories, masking
  outcomes and a file, each of which could fail.
\<close>

section \<open>The specification\<close>

record 'db spec_state =
  sp_db :: 'db
  sp_next_id :: "64 word"
  sp_trail :: "AuditRecord list"

text \<open>An answer, the details to record for it, and the tables to name in the record.\<close>

type_synonym verdict = "ServiceResult \<times> Details \<times> string list"

definition spec_denied :: "SqlAnalysis \<Rightarrow> verdict" where
  "spec_denied a =
     (if an_status a = AnParseError then (SrFailure SfUnparseableSql, DParsingFailure, [])
      else (SrFailure (if an_status a = AnEmptyInput then SfEmptyInput else SfPolicyRejected),
            DPolicyRejected \<lparr>pj_reason = pd_reason (evaluate a), pj_statement_type = an_statement_type a,
                             pj_statement_count = nat (an_statement_count a)\<rparr>,
            an_tables a))"

definition spec_failed :: "SqlAnalysis \<Rightarrow> ExecutionResult \<Rightarrow> verdict" where
  "spec_failed a r =
     (if ex_status r = ExConnectionFailure
      then (SrFailure SfDatabaseUnavailable,
            DDatabaseFailure \<lparr>df_category = DbConnectionFailure, df_statement_type = an_statement_type a\<rparr>, an_tables a)
      else (SrFailure SfQueryFailed,
            DDatabaseFailure \<lparr>df_category = DbExecutionFailure, df_statement_type = an_statement_type a\<rparr>, an_tables a))"

definition spec_written :: "SqlAnalysis \<Rightarrow> ExecutionResult \<Rightarrow> verdict" where
  "spec_written a r =
     (if ex_affected_rows r = 1
      then (SrWriteSuccess \<lparr>wr_affected_rows = 1\<rparr>,
            DWriteSuccess \<lparr>wd_statement_type = StInsert, wd_affected_rows = 1\<rparr>, an_tables a)
      else (SrFailure SfInternalError, DInternalFailure, []))"

definition spec_read :: "mappings \<Rightarrow> SqlAnalysis \<Rightarrow> ExecutionResult \<Rightarrow> verdict" where
  "spec_read m a r =
     (let cols = ex_columns r; classes = map (classify_column m a cols) [0..<length cols]
      in if cols = [] \<or> attributable a cols
         then (SrSuccess \<lparr>mq_column_names = map ci_name cols,
                          mq_rows = map (map2 mask_by_class classes) (ex_rows r)\<rparr>,
               DSuccess \<lparr>sd_statement_type = StSelect, sd_row_count = nat (ex_row_count r),
                 sd_column_count = length cols,
                 sd_pii = \<lparr>email_columns = pii_columns PiiEmail classes, phone_columns = pii_columns PiiPhone classes,
                           credit_card_columns = pii_columns PiiCreditCard classes\<rparr>\<rparr>,
               an_tables a)
         else (SrFailure SfMaskingRefused,
               DMaskingRefused \<lparr>mr_statement_type = StSelect, mr_column_count = length cols\<rparr>, an_tables a))"

definition spec_executed :: "mappings \<Rightarrow> SqlAnalysis \<Rightarrow> ExecutionResult \<Rightarrow> verdict" where
  "spec_executed m a r =
     (if ex_status r \<noteq> ExOk then spec_failed a r
      else if an_statement_type a = StInsert then spec_written a r
      else spec_read m a r)"

definition spec_request ::
  "(string \<Rightarrow> SqlAnalysis) \<Rightarrow> ('db \<Rightarrow> string \<Rightarrow> ExecutionResult \<times> 'db) \<Rightarrow> mappings \<Rightarrow> string \<Rightarrow> 'db \<Rightarrow> verdict \<times> 'db" where
  "spec_request analysis run m sql db =
     (let a = analysis sql
      in if \<not> pd_allowed (evaluate a) then (spec_denied a, db)
         else (spec_executed m a (fst (run db sql)), snd (run db sql)))"

definition spec_step ::
  "(string \<Rightarrow> SqlAnalysis) \<Rightarrow> ('db \<Rightarrow> string \<Rightarrow> ExecutionResult \<times> 'db) \<Rightarrow> mappings \<Rightarrow> event
     \<Rightarrow> 'db spec_state \<Rightarrow> ServiceResult \<times> 'db spec_state" where
  "spec_step analysis run m ev st =
     (let ((result, details, tables), db') = spec_request analysis run m (snd ev) (sp_db st)
      in (result, \<lparr>sp_db = db', sp_next_id = sp_next_id st + 1,
                   sp_trail = sp_trail st @ [make_AuditRecord (fst ev) (sp_next_id st) details tables]\<rparr>))"

text \<open>The parameters of the specification that a set of adapters stands for.\<close>

definition analyzed_by :: "('db, 'sink) Adapters \<Rightarrow> string \<Rightarrow> SqlAnalysis" where
  "analyzed_by ad sql = projr (analyze (ad_parse ad) sql)"

definition executed_by :: "('db, 'sink) Adapters \<Rightarrow> 'db \<Rightarrow> string \<Rightarrow> ExecutionResult \<times> 'db" where
  "executed_by ad db sql = (projr (fst (ad_execute ad db sql)), snd (ad_execute ad db sql))"

definition spec_serve ::
  "('db, 'sink) Adapters \<Rightarrow> ('db, 'sink) ProxyService \<Rightarrow> event list \<Rightarrow> ServiceResult list \<times> 'db spec_state" where
  "spec_serve ad s =
     serial (spec_step (analyzed_by ad) (executed_by ad) (sv_classifier s))
       \<lparr>sp_db = sv_db s, sp_next_id = sv_next_request_id s, sp_trail = []\<rparr>"

section \<open>Stages\<close>

text \<open>The pair a stage of the pipeline has to produce for a verdict.\<close>

definition implements :: "int \<Rightarrow> 64 word \<Rightarrow> Processing throws \<Rightarrow> verdict \<Rightarrow> bool" where
  "implements ts rid r v \<longleftrightarrow>
     (case v of (result, details, tables) \<Rightarrow>
        r = Inr \<lparr>pg_result = result, pg_record = make_AuditRecord ts rid details tables\<rparr>)"

lemma implements_simp [simp]:
  "implements ts rid r (result, details, tables) \<longleftrightarrow>
     r = Inr \<lparr>pg_result = result, pg_record = make_AuditRecord ts rid details tables\<rparr>"
  by (simp add: implements_def)

lemma denied_implements:
  assumes "\<not> pd_allowed (evaluate a)" and "0 \<le> an_statement_count a"
  shows "implements ts rid (process_denied a (evaluate a) ts rid) (spec_denied a)"
proof (cases "an_status a = AnParseError")
  case True
  then show ?thesis
    by (simp add: process_denied_def spec_denied_def evaluate_unparseable record_parsing_failure_def)
next
  case False
  from engine.denied_reason[OF assms(1) False] assms(2) False show ?thesis
    by (simp add: process_denied_def spec_denied_def checked_count_simps policy_rejected_ok client_failure_for_eq
        evaluate_unparseable evaluate_empty)
qed

lemma failed_implements:
  "an_statement_type a \<in> {StSelect, StInsert} \<Longrightarrow>
     implements ts rid (process_db_failure a r ts rid) (spec_failed a r)"
  by (simp add: process_db_failure_def spec_failed_def Let_def factory_eqs)

lemma written_implements:
  "an_statement_type a = StInsert \<Longrightarrow> 0 \<le> ex_affected_rows r \<Longrightarrow>
     implements ts rid (process_write a r ts rid) (spec_written a r)"
  by (auto simp: process_write_def spec_written_def checked_count_simps factory_eqs record_internal_failure_def)

lemma read_implements:
  assumes "an_statement_type a = StSelect" and "0 \<le> ex_row_count r" and "rectangular r"
  shows "implements ts rid (process_read m a r ts rid) (spec_read m a r)"
proof (cases "ex_columns r = [] \<or> attributable a (ex_columns r)")
  case True
  let ?classes = "map (classify_column m a (ex_columns r)) [0..<length (ex_columns r)]"
  have "classify m a (ex_columns r) = \<lparr>cr_columns = ?classes, cr_fully_attributed = True\<rparr>"
    using True by (cases "ex_columns r = []") (simp_all add: classify_cases)
  then show ?thesis
    using assms True name_classifier.mask_classified[OF assms(3), of m a]
    by (simp add: process_read_eq spec_read_def Let_def factory_eqs summarize_eq to_masked_result_def)
next
  case False
  then have "\<not> cr_fully_attributed (classify m a (ex_columns r))" by (simp add: fully_attributed_iff)
  then show ?thesis
    using assms False name_classifier.mask_classified[OF assms(3), of m a]
    by (simp add: process_read_eq spec_read_def Let_def factory_eqs)
qed

text \<open>When an execution has a result the service may give out.\<close>

definition releasable :: "SqlAnalysis \<Rightarrow> ExecutionResult \<Rightarrow> bool" where
  "releasable a r \<longleftrightarrow>
     ex_status r = ExOk \<and>
     (if an_statement_type a = StInsert then ex_affected_rows r = 1
      else ex_columns r = [] \<or> attributable a (ex_columns r))"

section \<open>Refinement\<close>

context proxy_ports
begin

lemma executed_implements:
  assumes a: "analyze (ad_parse ad) sql = Inr a" and ok: "pd_allowed (evaluate a)"
    and r: "fst (ad_execute ad db sql) = Inr r"
  shows "implements ts rid (process_executed m a r ts rid) (spec_executed m a r)"
proof -
  have type: "an_statement_type a \<in> {StSelect, StInsert}"
    using engine.allowed_statement_type[OF ok analyze_consistent[OF a]] by auto
  show ?thesis
  proof (cases "ex_status r = ExOk")
    case True
    with execute_ok_rectangular[OF r] type show ?thesis
      by (auto simp: process_executed_def spec_executed_def written_implements read_implements)
  next
    case False
    with type show ?thesis by (simp add: process_executed_def spec_executed_def failed_implements)
  qed
qed

lemma process_implements:
  assumes count: "\<And>r. ad_parse ad sql = Inr r \<Longrightarrow> length (pr_statements r) < 2 ^ 31"
  shows "implements ts rid (fst (process ad m db sql ts rid))
      (fst (spec_request (analyzed_by ad) (executed_by ad) m sql db)) \<and>
    snd (process ad m db sql ts rid) = snd (spec_request (analyzed_by ad) (executed_by ad) m sql db)"
proof -
  obtain a where a: "analyze (ad_parse ad) sql = Inr a" using analyze_total by blast
  obtain r db' where e: "ad_execute ad db sql = (Inr r, db')"
    using execute_no_throw[of db sql] by (cases "ad_execute ad db sql") auto
  have "0 \<le> an_statement_count a" using analyze_count_nonneg[OF a] count by blast
  then show ?thesis
    using a e denied_implements executed_implements[OF a, of db r]
    by (simp add: process_def spec_request_def analyzed_by_def executed_by_def Let_def)
qed

end

text \<open>
  A service whose sink is able to take every valid record. The simulation relates its state to the
  specification's: the sink holds what it held at first, followed by the trail as rendered.
\<close>

locale service_ports = proxy_ports ad + audited_ports ad stored rendering
  for ad :: "('db, 'sink) Adapters" and stored :: "'sink \<Rightarrow> 'e list" and rendering :: "AuditRecord \<Rightarrow> 'e list" +
  fixes healthy :: "'sink \<Rightarrow> bool"
  assumes healthy_append:
    "healthy sink \<Longrightarrow> valid_record rec \<Longrightarrow>
       fst (ad_append ad sink rec) = Inr AppendOk \<and> healthy (snd (ad_append ad sink rec))"
begin

definition simulates :: "('db, 'sink) ProxyService \<Rightarrow> ('db, 'sink) ProxyService \<Rightarrow> 'db spec_state \<Rightarrow> bool" where
  "simulates s0 s st \<longleftrightarrow>
     sv_classifier s = sv_classifier s0 \<and> sv_syslog s = sv_syslog s0 \<and> sv_db s = sp_db st \<and>
     sv_next_request_id s = sp_next_id st \<and> healthy (sv_sink s) \<and>
     stored (sv_sink s) = stored (sv_sink s0) @ concat (map rendering (sp_trail st))"

lemma handle_appended:
  assumes "healthy (sv_sink s)"
  shows "fst (handle_append ad ts sql s) = AppendOk" "healthy (sv_sink (snd (handle ad ts sql s)))"
    "stored (sv_sink (snd (handle ad ts sql s))) =
       stored (sv_sink s) @ rendering (pg_record (handle_processing ad ts sql s))"
proof -
  let ?rec = "pg_record (handle_processing ad ts sql s)"
  have "valid_record ?rec" using handle_recorded by (fastforce simp: well_recorded_def)
  note ok = healthy_append[OF assms this]
  then show "fst (handle_append ad ts sql s) = AppendOk"
    by (auto simp: handle_append_def append_safely_def split: prod.split)
  show "healthy (sv_sink (snd (handle ad ts sql s)))" using ok by (simp add: handle_append_sink)
  show "stored (sv_sink (snd (handle ad ts sql s))) = stored (sv_sink s) @ rendering ?rec"
    using ok append_ok by (simp add: handle_append_sink)
qed

lemma handle_simulates:
  assumes sim: "simulates s0 s st"
    and count: "\<And>r. ad_parse ad sql = Inr r \<Longrightarrow> length (pr_statements r) < 2 ^ 31"
  shows "fst (handle ad ts sql s) = fst (spec_step (analyzed_by ad) (executed_by ad) (sv_classifier s0) (ts, sql) st) \<and>
    simulates s0 (snd (handle ad ts sql s))
      (snd (spec_step (analyzed_by ad) (executed_by ad) (sv_classifier s0) (ts, sql) st))"
proof -
  obtain result details tables db' where
    v: "spec_request (analyzed_by ad) (executed_by ad) (sv_classifier s) sql (sv_db s) = ((result, details, tables), db')"
    by (metis prod.collapse)
  have p: "handle_processing ad ts sql s = \<lparr>pg_result = result,
      pg_record = make_AuditRecord ts (sv_next_request_id s) details tables\<rparr>"
    and db: "snd (process ad (sv_classifier s) (sv_db s) sql ts (sv_next_request_id s)) = db'"
    using process_implements[OF count, of sql ts "sv_next_request_id s" "sv_classifier s" "sv_db s"] v
    by (simp_all add: handle_processing_def recover_def)
  have "healthy (sv_sink s)" using sim by (simp add: simulates_def)
  note app = handle_appended[OF this, of ts sql]
  show ?thesis
    using sim v p db app by (simp add: simulates_def spec_step_def handle_result handle_syslog del: handle_state(4))
qed

lemma serve_simulates:
  assumes "simulates s0 s st"
    and "\<And>ts sql r. (ts, sql) \<in> set evs \<Longrightarrow> ad_parse ad sql = Inr r \<Longrightarrow> length (pr_statements r) < 2 ^ 31"
  shows "fst (serve ad s evs) = fst (serial (spec_step (analyzed_by ad) (executed_by ad) (sv_classifier s0)) st evs) \<and>
    simulates s0 (snd (serve ad s evs)) (snd (serial (spec_step (analyzed_by ad) (executed_by ad) (sv_classifier s0)) st evs))"
  using assms
proof (induction evs arbitrary: s st)
  case (Cons e evs)
  obtain ts sql where e: "e = (ts, sql)" by fastforce
  have "length (pr_statements r) < 2 ^ 31" if "ad_parse ad sql = Inr r" for r
    using Cons.prems(2)[of ts sql r] that e by simp
  from handle_simulates[OF Cons.prems(1) this, where ts = ts] have h:
    "fst (handle ad ts sql s) = fst (spec_step (analyzed_by ad) (executed_by ad) (sv_classifier s0) (ts, sql) st)"
    "simulates s0 (snd (handle ad ts sql s)) (snd (spec_step (analyzed_by ad) (executed_by ad) (sv_classifier s0) (ts, sql) st))"
    by blast+
  have "length (pr_statements r) < 2 ^ 31" if "(ts', sql') \<in> set evs" "ad_parse ad sql' = Inr r" for ts' sql' r
    using Cons.prems(2)[of ts' sql' r] that by simp
  from Cons.IH[OF h(2) this] h(1) show ?case by (simp add: e)
qed simp

lemma serve_refines:
  assumes "healthy (sv_sink s)"
    and "\<And>ts sql r. (ts, sql) \<in> set evs \<Longrightarrow> ad_parse ad sql = Inr r \<Longrightarrow> length (pr_statements r) < 2 ^ 31"
  shows "fst (serve ad s evs) = fst (spec_serve ad s evs) \<and>
    simulates s (snd (serve ad s evs)) (snd (spec_serve ad s evs))"
proof -
  have "simulates s s \<lparr>sp_db = sv_db s, sp_next_id = sv_next_request_id s, sp_trail = []\<rparr>"
    using assms(1) by (simp add: simulates_def)
  from serve_simulates[OF this assms(2)] show ?thesis by (simp add: spec_serve_def)
qed

text \<open>With such a sink, success depends on the statement and its execution alone.\<close>

lemma executed_succeeds_iff:
  assumes "analyze (ad_parse ad) sql = Inr a" and "pd_allowed (evaluate a)" and "fst (ad_execute ad db sql) = Inr r"
  shows "succeeded (pg_result (recover ts rid (process_executed m a r ts rid))) \<longleftrightarrow> releasable a r"
proof -
  have "pg_result (recover ts rid (process_executed m a r ts rid)) = fst (spec_executed m a r)"
    using executed_implements[OF assms, of ts rid m] by (auto simp: recover_def implements_def split: prod.splits)
  then show ?thesis
    by (simp add: spec_executed_def spec_failed_def spec_written_def spec_read_def releasable_def Let_def)
qed

lemma handle_succeeds_iff:
  assumes "healthy (sv_sink s)"
  shows "succeeded (fst (handle ad ts sql s)) \<longleftrightarrow>
    (\<exists>a r. analyze (ad_parse ad) sql = Inr a \<and> pd_allowed (evaluate a) \<and>
       fst (ad_execute ad (sv_db s) sql) = Inr r \<and> releasable a r)"
proof -
  have res: "fst (handle ad ts sql s) = pg_result (handle_processing ad ts sql s)"
    using handle_appended(1)[OF assms] by (simp add: handle_result)
  obtain a where a: "analyze (ad_parse ad) sql = Inr a" using analyze_total by blast
  obtain r db' where e: "ad_execute ad (sv_db s) sql = (Inr r, db')"
    using execute_no_throw[of "sv_db s" sql] by (cases "ad_execute ad (sv_db s) sql") auto
  show ?thesis
  proof (cases "pd_allowed (evaluate a)")
    case True
    with executed_succeeds_iff[OF a True, of "sv_db s" r] a e show ?thesis
      unfolding res by (simp add: handle_processing_def process_def Let_def)
  next
    case False
    have "\<not> succeeded (pg_result (recover ts rid (process_denied a (evaluate a) ts rid)))" for rid
      by (auto simp: recover_def process_denied_def and_then_eq_Inr split: sum.split if_splits)
    with False a show ?thesis
      unfolding res by (simp add: handle_processing_def process_def Let_def)
  qed
qed

end

text \<open>The production composition, over an open file in good state whose device has no faults.\<close>

definition healthy_file :: "printer \<Rightarrow> ofstream \<Rightarrow> bool" where
  "healthy_file dump os \<longleftrightarrow>
     os_is_open os \<and> os_good os \<and> os_faults os = [] \<and> (\<forall>j. plain_json j \<longrightarrow> no_throw (dump j))"

lemma healthy_file_append:
  assumes "healthy_file dump os" and "valid_record rec"
  shows "fst (jsonl_append dump os rec) = Inr AppendOk \<and> healthy_file dump (snd (jsonl_append dump os rec))"
proof -
  have "fst (jsonl_append dump os rec) = Inr AppendOk"
    using assms by (intro jsonl_append_plain) (simp_all add: healthy_file_def)
  moreover have "healthy_file dump (snd (jsonl_append dump os rec))"
    using assms(1) by (auto simp: healthy_file_def jsonl_append_def ofstream_write_def Let_def split: sum.split)
  ultimately show ?thesis ..
qed

lemma demo_file_healthy: "healthy_file (\<lambda>j. Inr (compact j)) (sv_sink (demo_service demo_file))"
  by (simp add: healthy_file_def demo_service_def demo_file_def JsonlAuditRepository_def)

interpretation production_service:
  service_ports "production_adapters fpos hp px config dump" os_content "jsonl_line dump" "healthy_file dump"
  for fpos hp px config dump
  by unfold_locales (simp add: healthy_file_append)

section \<open>Properties\<close>

text \<open>
  C5. The production service implements its specification: over an audit file whose device works
  and a printer that prints plain ASCII, any sequence of requests (none parsed into 2 to the 31
  statements) gets exactly the answers of the specification, leaves the database and the request
  counter as the specification does, logs nothing, and extends the file by exactly the lines of the
  specification's audit trail. In particular no checked count, record factory, masking step or
  variant access on the way ever throws.
\<close>

theorem service_refines_spec:
  assumes "healthy_file dump (sv_sink s)"
    and "\<And>ts sql r. (ts, sql) \<in> set evs \<Longrightarrow> hyrise_parse fpos hp sql = Inr r \<Longrightarrow> length (pr_statements r) < 2 ^ 31"
  shows "fst (serve (production_adapters fpos hp px config dump) s evs) =
      fst (spec_serve (production_adapters fpos hp px config dump) s evs) \<and>
    (let s' = snd (serve (production_adapters fpos hp px config dump) s evs);
         st = snd (spec_serve (production_adapters fpos hp px config dump) s evs)
     in sv_db s' = sp_db st \<and> sv_next_request_id s' = sp_next_id st \<and> sv_syslog s' = sv_syslog s \<and>
        os_content (sv_sink s') = os_content (sv_sink s) @ concat (map (jsonl_line dump) (sp_trail st)))"
  using production_service.serve_refines[OF assms(1), of evs fpos hp px config] assms(2)
  by (simp add: production_service.simulates_def Let_def)

theorem service_refines_spec_witness:
  "fst (serve (demo_production 1) (demo_service demo_file) [(0, demo_sql)]) =
     fst (spec_serve (demo_production 1) (demo_service demo_file) [(0, demo_sql)])"
proof -
  have "healthy_file (\<lambda>j. Inr (compact j)) (sv_sink (demo_service demo_file))" by (rule demo_file_healthy)
  moreover have "length (pr_statements r) < 2 ^ 31"
    if "(ts, sql) \<in> set [(0 :: int, demo_sql)]" "hyrise_parse (\<lambda>v. 0 < v) demo_hsql sql = Inr r" for ts sql r
    using that by (auto simp: hyrise_parse_def)
  ultimately show ?thesis
    unfolding demo_production_def using service_refines_spec by blast
qed

text \<open>
  C10. Availability: over an audit file whose device works, the production service answers a request
  with a success exactly when its statement is authorized, the database executes it, and the result
  may be given out, that is one inserted row for a write and attributable columns for a read. No
  other circumstance (request number, clock, earlier requests) can make it fail.
\<close>

theorem service_succeeds_iff:
  assumes "healthy_file dump (sv_sink s)"
  shows "succeeded (fst (handle (production_adapters fpos hp px config dump) ts sql s)) \<longleftrightarrow>
    (\<exists>a r. analyze (hyrise_parse fpos hp) sql = Inr a \<and> pd_allowed (evaluate a) \<and>
       fst (postgres_execute px config (sv_db s) sql) = Inr r \<and> ex_status r = ExOk \<and>
       (if an_statement_type a = StInsert then ex_affected_rows r = 1
        else ex_columns r = [] \<or> attributable a (ex_columns r)))"
  using production_service.handle_succeeds_iff[OF assms, of fpos hp px config ts sql]
  unfolding releasable_def production_adapters_simps .

theorem service_succeeds_iff_witness:
  "succeeded (fst (handle (demo_production 1) 0 demo_sql (demo_service demo_file))) \<and>
   (\<exists>a r. analyze (hyrise_parse (\<lambda>v. 0 < v) demo_hsql) demo_sql = Inr a \<and> pd_allowed (evaluate a) \<and>
      fst (postgres_execute (demo_pqxx 1) demo_config (sv_db (demo_service demo_file)) demo_sql) = Inr r \<and>
      ex_status r = ExOk)"
proof -
  have "healthy_file (\<lambda>j. Inr (compact j)) (sv_sink (demo_service demo_file))" by (rule demo_file_healthy)
  from service_succeeds_iff[OF this, of "\<lambda>v. 0 < v" demo_hsql "demo_pqxx 1" demo_config 0 demo_sql]
  show ?thesis unfolding demo_production_def[symmetric] demo_run by auto
qed

end
