(* ===== verification/Noninterference.thy ===== *)
theory Noninterference
  imports Service_Spec
begin

text \<open>
  What of the database's answer can be observed from outside. Two executions of a statement are
  \<open>indistinguishable\<close> when they end with the same status, columns and counts and their cells
  have the same masks; the driver's error text and the unmasked bytes may differ. The service then
  gives the same answer, writes the same audit bytes and logs the same lines.
\<close>

section \<open>Indistinguishable executions\<close>

definition column_classes :: "mappings \<Rightarrow> SqlAnalysis \<Rightarrow> ColumnInfo list \<Rightarrow> ColumnClassification list" where
  "column_classes m a cols = map (classify_column m a cols) [0..<length cols]"

definition indistinguishable :: "mappings \<Rightarrow> SqlAnalysis \<Rightarrow> ExecutionResult \<Rightarrow> ExecutionResult \<Rightarrow> bool" where
  "indistinguishable m a r r' \<longleftrightarrow>
     ex_status r = ex_status r' \<and> ex_columns r = ex_columns r' \<and> ex_row_count r = ex_row_count r' \<and>
     ex_affected_rows r = ex_affected_rows r' \<and>
     map (map2 mask_by_class (column_classes m a (ex_columns r))) (ex_rows r) =
       map (map2 mask_by_class (column_classes m a (ex_columns r))) (ex_rows r')"

lemma indistinguishable_verdict:
  assumes "indistinguishable m a r r'"
  shows "spec_executed m a r = spec_executed m a r'"
proof -
  have "spec_read m a r = spec_read m a r'"
    using assms unfolding spec_read_def Let_def column_classes_def[symmetric] indistinguishable_def by metis
  with assms show ?thesis
    by (simp add: spec_executed_def spec_failed_def spec_written_def indistinguishable_def)
qed

text \<open>Two services over their own databases, with the same parser and audit repository.\<close>

locale two_services = one: proxy_ports ad + other: proxy_ports ad'
  for ad ad' :: "('db, 'sink) Adapters" +
  assumes same_parser: "ad_parse ad' = ad_parse ad"
    and same_audit: "ad_append ad' = ad_append ad"
begin

lemma process_indistinguishable:
  assumes "\<And>a r r'. analyze (ad_parse ad) sql = Inr a \<Longrightarrow> pd_allowed (evaluate a) \<Longrightarrow>
      fst (ad_execute ad db sql) = Inr r \<Longrightarrow> fst (ad_execute ad' db' sql) = Inr r' \<Longrightarrow> indistinguishable m a r r'"
  shows "fst (process ad' m db' sql ts rid) = fst (process ad m db sql ts rid)"
proof -
  obtain a where a: "analyze (ad_parse ad) sql = Inr a" using one.analyze_total by blast
  show ?thesis
  proof (cases "pd_allowed (evaluate a)")
    case True
    obtain r d where e: "ad_execute ad db sql = (Inr r, d)"
      using one.execute_no_throw[of db sql] by (cases "ad_execute ad db sql") auto
    obtain r' d' where e': "ad_execute ad' db' sql = (Inr r', d')"
      using other.execute_no_throw[of db' sql] by (cases "ad_execute ad' db' sql") auto
    have "spec_executed m a r' = spec_executed m a r"
      using assms[OF a True, of r r'] e e' indistinguishable_verdict by simp
    moreover have "implements ts rid (process_executed m a r ts rid) (spec_executed m a r)"
      by (rule one.executed_implements[OF a True, of db]) (simp add: e)
    moreover have "implements ts rid (process_executed m a r' ts rid) (spec_executed m a r')"
      by (rule other.executed_implements[OF _ True, of sql db']) (simp_all add: e' a same_parser)
    ultimately show ?thesis
      using a True e e' by (auto simp: process_def same_parser implements_def Let_def split: prod.splits)
  next
    case False
    then show ?thesis using a by (simp add: process_def same_parser Let_def)
  qed
qed

lemma handle_indistinguishable:
  assumes "\<And>a r r'. analyze (ad_parse ad) sql = Inr a \<Longrightarrow> pd_allowed (evaluate a) \<Longrightarrow>
      fst (ad_execute ad (sv_db s) sql) = Inr r \<Longrightarrow> fst (ad_execute ad' db' sql) = Inr r' \<Longrightarrow>
      indistinguishable (sv_classifier s) a r r'"
  shows "fst (handle ad' ts sql (s\<lparr>sv_db := db'\<rparr>)) = fst (handle ad ts sql s)"
    "sv_sink (snd (handle ad' ts sql (s\<lparr>sv_db := db'\<rparr>))) = sv_sink (snd (handle ad ts sql s))"
    "sv_syslog (snd (handle ad' ts sql (s\<lparr>sv_db := db'\<rparr>))) = sv_syslog (snd (handle ad ts sql s))"
proof -
  have p: "handle_processing ad' ts sql (s\<lparr>sv_db := db'\<rparr>) = handle_processing ad ts sql s"
    unfolding handle_processing_def
    using process_indistinguishable[OF assms, where ts = ts and rid = "sv_next_request_id s"] by simp
  then have a: "handle_append ad' ts sql (s\<lparr>sv_db := db'\<rparr>) = handle_append ad ts sql s"
    by (simp add: handle_append_def append_safely_def same_audit)
  show "fst (handle ad' ts sql (s\<lparr>sv_db := db'\<rparr>)) = fst (handle ad ts sql s)"
    "sv_sink (snd (handle ad' ts sql (s\<lparr>sv_db := db'\<rparr>))) = sv_sink (snd (handle ad ts sql s))"
    "sv_syslog (snd (handle ad' ts sql (s\<lparr>sv_db := db'\<rparr>))) = sv_syslog (snd (handle ad ts sql s))"
    by (simp_all add: handle_result handle_syslog p a)
qed

end

interpretation two_productions:
  two_services "production_adapters fpos hp px config dump" "production_adapters fpos hp px' config' dump"
  for fpos hp px config px' config' dump
  unfolding two_services_def two_services_axioms_def
  by (simp add: production.proxy_ports_axioms)

text \<open>Another database for the witness: the same first letter and domain, another mailbox.\<close>

definition other_rows :: PqxxResult where
  "other_rows = demo_rows\<lparr>px_field := (\<lambda>r c. Some (if c = 0 then ''1'' else ''lea@example.com''))\<rparr>"

definition other_pqxx :: "(string list, string list) Pqxx" where
  "other_pqxx = (demo_pqxx 1)\<lparr>px_exec := (\<lambda>txn sql. (Inr other_rows, txn @ [sql]))\<rparr>"

lemma other_execute:
  "fst (postgres_execute other_pqxx demo_config db demo_sql) = Inr (translate other_rows)"
  by (simp add: postgres_execute_def other_pqxx_def demo_pqxx_def)

lemma demo_indistinguishable:
  "indistinguishable (sv_classifier (demo_service demo_file)) (demo_analysis (kStmtSelect demo_select_tree))
     (translate demo_rows) (translate other_rows)"
  by code_simp

section \<open>Properties\<close>

text \<open>
  C6. Unmasked data does not leave: let one production deployment be changed in its database, its
  driver and its connection settings so that an authorized statement still ends with the same
  status, columns, counts and masked cells. Then the request gets the same answer, the audit file
  gets the same bytes and the system log the same lines. So neither the hidden part of a cell nor
  the driver's error text has any influence on what can be observed, and for a statement that is
  not authorized nothing in the database has.
\<close>

theorem masked_data_noninterference:
  assumes "\<And>a r r'. analyze (hyrise_parse fpos hp) sql = Inr a \<Longrightarrow> pd_allowed (evaluate a) \<Longrightarrow>
      fst (postgres_execute px config (sv_db s) sql) = Inr r \<Longrightarrow>
      fst (postgres_execute px' config' db' sql) = Inr r' \<Longrightarrow> indistinguishable (sv_classifier s) a r r'"
  shows "fst (handle (production_adapters fpos hp px' config' dump) ts sql (s\<lparr>sv_db := db'\<rparr>)) =
      fst (handle (production_adapters fpos hp px config dump) ts sql s) \<and>
    sv_sink (snd (handle (production_adapters fpos hp px' config' dump) ts sql (s\<lparr>sv_db := db'\<rparr>))) =
      sv_sink (snd (handle (production_adapters fpos hp px config dump) ts sql s)) \<and>
    sv_syslog (snd (handle (production_adapters fpos hp px' config' dump) ts sql (s\<lparr>sv_db := db'\<rparr>))) =
      sv_syslog (snd (handle (production_adapters fpos hp px config dump) ts sql s))"
  using two_productions.handle_indistinguishable[of fpos hp px config dump sql s px' config' db' ts] assms by simp

theorem masked_data_noninterference_witness:
  "fst (handle (production_adapters (\<lambda>v. 0 < v) demo_hsql other_pqxx demo_config (\<lambda>j. Inr (compact j)))
      0 demo_sql ((demo_service demo_file)\<lparr>sv_db := [''other'']\<rparr>)) =
   SrSuccess \<lparr>mq_column_names = [''id'', ''email''], mq_rows = [[Some ''1'', Some ''l***@example.com'']]\<rparr>"
proof -
  have "fst (handle (production_adapters (\<lambda>v. 0 < v) demo_hsql other_pqxx demo_config (\<lambda>j. Inr (compact j)))
      0 demo_sql ((demo_service demo_file)\<lparr>sv_db := [''other'']\<rparr>)) =
    fst (handle (demo_production 1) 0 demo_sql (demo_service demo_file))"
    unfolding demo_production_def
  proof (rule masked_data_noninterference[THEN conjunct1])
    fix a r r'
    assume "analyze (hyrise_parse (\<lambda>v. 0 < v) demo_hsql) demo_sql = Inr a"
      "fst (postgres_execute (demo_pqxx 1) demo_config (sv_db (demo_service demo_file)) demo_sql) = Inr r"
      "fst (postgres_execute other_pqxx demo_config [''other''] demo_sql) = Inr r'"
    then have "a = demo_analysis (kStmtSelect demo_select_tree)" "r = translate demo_rows" "r' = translate other_rows"
      unfolding demo_analyze demo_execute other_execute by simp_all
    then show "indistinguishable (sv_classifier (demo_service demo_file)) a r r'"
      using demo_indistinguishable by simp
  qed
  then show ?thesis by (simp only: demo_run)
qed

end
