(* ===== verification/Deployment.thy ===== *)
theory Deployment
  imports Service_Spec
begin

text \<open>
  The whole program: what \<open>main\<close> built, serving a sequence of HTTP requests. A request that
  the library routes to the query callback and that passes the transport checks is one request of
  the service; every other one leaves the service alone. The responses, the database and the audit
  file are then those of the specification run on the SQL texts in the requests, from a service
  whose ids start at 1 and whose classifier knows the three default names.
\<close>

section \<open>HTTP requests in sequence\<close>

type_synonym http_event = "int \<times> http_method \<times> string \<times> Request"

text \<open>A response as the library hands it to a callback.\<close>

definition new_response :: Response where
  "new_response = \<lparr>rs_status = -1, rs_body = [], rs_content_type = []\<rparr>"

type_synonym routing = "server \<Rightarrow> http_method \<Rightarrow> string \<Rightarrow> handler option"

definition http_step ::
  "routing \<Rightarrow> (http_method \<Rightarrow> string \<Rightarrow> Response) \<Rightarrow> (string \<Rightarrow> json option) \<Rightarrow> printer \<Rightarrow> ('db, 'sink) Adapters
     \<Rightarrow> http_event \<Rightarrow> ('db, 'sink) ProxyService \<Rightarrow> Response throws \<times> ('db, 'sink) ProxyService" where
  "http_step route unmatched json_parse dump ad ev s =
     (case ev of (ts, m, path, request) \<Rightarrow>
        http_dispatch route unmatched json_parse dump ad ts m path request new_response s)"

text \<open>The request of the service an HTTP request stands for, if any.\<close>

definition event_sql :: "routing \<Rightarrow> (string \<Rightarrow> json option) \<Rightarrow> http_event \<Rightarrow> event option" where
  "event_sql route json_parse ev =
     (case ev of (ts, m, path, request) \<Rightarrow>
        if route HttpServer m path = Some QueryHandler
        then map_option (Pair ts) (controlled_sql json_parse request) else None)"

definition sql_events :: "routing \<Rightarrow> (string \<Rightarrow> json option) \<Rightarrow> http_event list \<Rightarrow> event list" where
  "sql_events route json_parse = List.map_filter (event_sql route json_parse)"

text \<open>The responses to those requests.\<close>

definition query_responses ::
  "routing \<Rightarrow> (string \<Rightarrow> json option) \<Rightarrow> http_event list \<Rightarrow> Response throws list \<Rightarrow> Response throws list" where
  "query_responses route json_parse evs rs =
     map snd (filter (\<lambda>(ev, r). event_sql route json_parse ev \<noteq> None) (zip evs rs))"

section \<open>Lemmas\<close>

lemma http_step_query:
  "event_sql route json_parse ev = Some (ts, sql) \<Longrightarrow>
     http_step route unmatched json_parse dump ad ev s =
       (respond dump (fst (handle ad ts sql s)) new_response, snd (handle ad ts sql s))"
  by (auto simp: event_sql_def http_step_def http_dispatch_def run_handler_def handle_query_request_controlled
      split: prod.splits if_splits)

lemma http_step_other:
  assumes "event_sql route json_parse ev = None"
  shows "snd (http_step route unmatched json_parse dump ad ev s) = s"
proof -
  obtain ts m path request where ev: "ev = (ts, m, path, request)" by (metis prod.collapse)
  show ?thesis
  proof (cases "route HttpServer m path")
    case (Some h)
    then show ?thesis
      using assms
      by (cases h) (auto simp: ev event_sql_def http_step_def http_dispatch_def run_handler_def
          handle_query_request_rejected[THEN conjunct1])
  qed (simp add: ev http_step_def http_dispatch_def)
qed

lemma http_serve_eq:
  "snd (serial (http_step route unmatched json_parse dump ad) s evs) = snd (serve ad s (sql_events route json_parse evs)) \<and>
   query_responses route json_parse evs (fst (serial (http_step route unmatched json_parse dump ad) s evs)) =
     map (\<lambda>a. respond dump a new_response) (fst (serve ad s (sql_events route json_parse evs)))"
proof (induction evs arbitrary: s)
  case (Cons ev evs)
  show ?case
  proof (cases "event_sql route json_parse ev")
    case None
    with Cons http_step_other[OF None, of unmatched dump ad s] show ?thesis
      by (simp add: sql_events_def query_responses_def)
  next
    case (Some e)
    obtain ts sql where e: "e = (ts, sql)" by fastforce
    with Some Cons http_step_query[of route json_parse ev ts sql unmatched dump ad s] show ?thesis
      by (simp add: sql_events_def query_responses_def)
  qed
qed (simp add: sql_events_def query_responses_def)

text \<open>The ids of the specification's trail.\<close>

lemma spec_step_next:
  "sp_next_id (snd (spec_step analysis run m ev st)) = sp_next_id st + 1"
  "map ar_request_id (sp_trail (snd (spec_step analysis run m ev st))) = map ar_request_id (sp_trail st) @ [sp_next_id st]"
  by (simp_all add: spec_step_def Let_def case_prod_unfold)

lemma spec_trail_ids:
  "map ar_request_id (sp_trail (snd (serial (spec_step analysis run m) st evs))) =
     map ar_request_id (sp_trail st) @ map (\<lambda>k. sp_next_id st + of_nat k) [0..<length evs]"
proof (induction evs arbitrary: st)
  case (Cons ev evs)
  then show ?case
    by (simp add: spec_step_next map_upt_Suc add.assoc del: upt_Suc)
qed simp

text \<open>The service that \<open>main\<close> built.\<close>

definition default_mappings :: mappings where
  "default_mappings = [''email'' \<mapsto> PiiEmail, ''phone'' \<mapsto> PiiPhone, ''credit_card'' \<mapsto> PiiCreditCard]"

lemma main_service:
  assumes "main getenv open_audit listen db g = Some x" and "xt_wiring x = Some w"
  shows "sv_classifier (wi_service w) = default_mappings" "sv_next_request_id (wi_service w) = 1"
    "sv_db (wi_service w) = db" "sv_sink (wi_service w) = open_audit (wi_audit_path w)"
proof -
  have "startup_valid getenv"
    using assms main_invalid[of getenv open_audit listen db g] by (cases "startup_valid getenv") auto
  from main_valid[OF this, of open_audit listen db g] assms show
    "sv_classifier (wi_service w) = default_mappings" "sv_next_request_id (wi_service w) = 1"
    "sv_db (wi_service w) = db" "sv_sink (wi_service w) = open_audit (wi_audit_path w)"
    by (auto simp: default_mappings_def)
qed

text \<open>A started process, for the witnesses.\<close>

lemma demo_started:
  "\<exists>x w. main demo_env (\<lambda>_. demo_file) (\<lambda>_. True) ([] :: string list) None = Some x \<and> xt_wiring x = Some w"
proof -
  have "startup_valid demo_env" by code_simp
  from main_valid[OF this, of "\<lambda>_. demo_file" "\<lambda>_. True" "[] :: string list" None] show ?thesis by auto
qed

lemma demo_file_open: "healthy_file (\<lambda>j. Inr (compact j)) demo_file"
  using demo_file_healthy by (simp add: demo_service_def)

lemma demo_small:
  "\<forall>sql r. hyrise_parse (\<lambda>v. 0 < v) demo_hsql sql = Inr r \<longrightarrow> length (pr_statements r) < 2 ^ 31"
  using demo_count by fastforce

section \<open>Properties\<close>

text \<open>
  C11. The program implements its specification: let the process have started and its audit file be
  open over a device that works, and let the printer print plain ASCII. For every sequence of HTTP
  requests, however they are routed, the responses to the query requests are the specification's
  answers to the SQL texts in them, rendered with the status and body of the answer; the database
  is the one the specification leaves; and the audit file is what it was, followed by the lines of
  the specification's trail, one per query request, numbered from 1 on. (No text may be parsed into
  2 to the 31 statements.)
\<close>

theorem program_refines_spec:
  assumes "main getenv open_audit listen db g = Some x" and "xt_wiring x = Some w"
    and "healthy_file dump (open_audit (wi_audit_path w))"
    and "\<forall>sql r. hyrise_parse fpos hp sql = Inr r \<longrightarrow> length (pr_statements r) < 2 ^ 31"
  shows "let ad = production_adapters fpos hp px (wi_database w) dump;
      (responses, s) = serial (http_step route unmatched json_parse dump ad) (wi_service w) evs;
      sqls = sql_events route json_parse evs;
      (answers, st) = serial (spec_step (analyzed_by ad) (executed_by ad) default_mappings)
        \<lparr>sp_db = db, sp_next_id = 1, sp_trail = []\<rparr> sqls
    in query_responses route json_parse evs responses =
         map (\<lambda>a. set_json dump (status_of a) (body_of a) new_response) answers \<and>
       sv_db s = sp_db st \<and>
       os_content (sv_sink s) = os_content (open_audit (wi_audit_path w)) @ concat (map (jsonl_line dump) (sp_trail st)) \<and>
       map ar_request_id (sp_trail st) = map (\<lambda>k. 1 + of_nat k) [0..<length sqls]"
proof -
  let ?ad = "production_adapters fpos hp px (wi_database w) dump" and ?s = "wi_service w"
  let ?sqls = "sql_events route json_parse evs"
  note s = main_service[OF assms(1,2)]
  have "healthy_file dump (sv_sink ?s)" using assms(3) s(4) by simp
  from production_service.serve_refines[OF this, of ?sqls fpos hp px "wi_database w"] assms(4)
  have refines: "fst (serve ?ad ?s ?sqls) = fst (spec_serve ?ad ?s ?sqls)"
    "production_service.simulates dump ?s (snd (serve ?ad ?s ?sqls)) (snd (spec_serve ?ad ?s ?sqls))"
    by simp_all
  show ?thesis
    using http_serve_eq[of route unmatched json_parse dump ?ad ?s evs] refines s
      spec_trail_ids[of "analyzed_by ?ad" "executed_by ?ad" default_mappings "\<lparr>sp_db = db, sp_next_id = 1, sp_trail = []\<rparr>" ?sqls]
    by (simp add: spec_serve_def production_service.simulates_def respond_eq case_prod_unfold Let_def)
qed

definition demo_requests :: "http_event list" where
  "demo_requests = [(0, POST, ''/query'', demo_request), (3, GET, ''/health'', demo_request)]"

theorem program_refines_spec_witness:
  "\<exists>x w. main demo_env (\<lambda>_. demo_file) (\<lambda>_. True) ([] :: string list) None = Some x \<and> xt_wiring x = Some w \<and>
     (let ad = production_adapters (\<lambda>v. 0 < v) demo_hsql (demo_pqxx 1) (wi_database w) (\<lambda>j. Inr (compact j));
        s = snd (serial (http_step literal_route (\<lambda>_ _. demo_response) demo_body (\<lambda>j. Inr (compact j)) ad)
              (wi_service w) demo_requests);
        st = snd (serial (spec_step (analyzed_by ad) (executed_by ad) default_mappings)
              \<lparr>sp_db = [], sp_next_id = 1, sp_trail = []\<rparr> [(0, demo_sql)])
      in sv_db s = sp_db st \<and> os_content (sv_sink s) = concat (map (jsonl_line (\<lambda>j. Inr (compact j))) (sp_trail st)) \<and>
         map ar_request_id (sp_trail st) = [1])"
proof -
  obtain x w where
    x: "main demo_env (\<lambda>_. demo_file) (\<lambda>_. True) ([] :: string list) None = Some x" "xt_wiring x = Some w"
    using demo_started by blast
  have sqls: "sql_events literal_route demo_body demo_requests = [(0, demo_sql)]"
    by (simp add: sql_events_def event_sql_def demo_requests_def literal_route_simps demo_controlled)
  from program_refines_spec[where dump = "\<lambda>j. Inr (compact j)" and px = "demo_pqxx 1" and route = literal_route
      and unmatched = "\<lambda>_ _. demo_response" and json_parse = demo_body and evs = demo_requests, OF x demo_file_open demo_small]
  show ?thesis
    using x by (intro exI[of _ x] exI[of _ w]) (simp add: sqls case_prod_unfold Let_def demo_file_def JsonlAuditRepository_def)
qed

end
