(* ===== verification/Audit_File.thy ===== *)
theory Audit_File
  imports Jsonl_Audit Mutex
begin

text \<open>
  \<open>JsonlAuditRepository::append\<close> called from several threads. The repository has a mutex of
  its own: the record is serialized before the lock is taken, and the critical section is the check
  that the file is open, the two insertions into the stream, the flush and the check of the stream,
  each a step of its own here. The inserted bytes are in the stream's buffer until the flush hands
  them to the device. Whatever the interleaving, the file is the one of the appends made one after
  another.
\<close>

section \<open>The buffered stream\<close>

record stream =
  st_file :: ofstream
  st_buffer :: string

definition put :: "string \<Rightarrow> stream \<Rightarrow> stream" where
  "put bytes st = (if os_good (st_file st) then st\<lparr>st_buffer := st_buffer st @ bytes\<rparr> else st)"

definition flush :: "stream \<Rightarrow> stream" where
  "flush st = \<lparr>st_file = ofstream_write (st_buffer st) (st_file st), st_buffer = []\<rparr>"

section \<open>Appends in parallel\<close>

datatype appending =
  Called AuditRecord
| Serialized AuditRecord string
| Entered AuditRecord string
| Line_Put AuditRecord string
| Newline_Put AuditRecord string
| Flushed AuditRecord string
| Done AuditAppendResult

text \<open>
  What one thread does next, from the holder of the lock, its own position and the stream to the
  holder, its position and the stream afterwards.
\<close>

inductive append_action :: "(json \<Rightarrow> string throws) \<Rightarrow> (appending, stream) action" for dump i where
  serialize: "and_then (serialize rec) dump = Inr line \<Longrightarrow>
     append_action dump i owner (Called rec) st owner (Serialized rec line) st"
| serialize_throws: "and_then (serialize rec) dump = Inl e \<Longrightarrow>
     append_action dump i owner (Called rec) st owner (Done AppendWriteFailure) st"
| enter: "append_action dump i None (Serialized rec line) st (Some i) (Entered rec line) st"
| not_open: "\<not> os_is_open (st_file st) \<Longrightarrow>
     append_action dump i owner (Entered rec line) st None (Done AppendOpenFailure) st"
| put_line: "os_is_open (st_file st) \<Longrightarrow>
     append_action dump i owner (Entered rec line) st owner (Line_Put rec line) (put line st)"
| put_newline: "append_action dump i owner (Line_Put rec line) st owner (Newline_Put rec line) (put [newline] st)"
| flush: "append_action dump i owner (Newline_Put rec line) st owner (Flushed rec line) (flush st)"
| check: "append_action dump i owner (Flushed rec line) st
     None (Done (if os_good (st_file st) then AppendOk else AppendWriteFailure)) st"

text \<open>One thread per record calls \<open>append\<close> on a repository whose file is \<open>os\<close>.\<close>

abbreviation on_file :: "ofstream \<Rightarrow> stream" where
  "on_file os \<equiv> \<lparr>st_file = os, st_buffer = []\<rparr>"

abbreviation parallel_appends ::
  "(json \<Rightarrow> string throws) \<Rightarrow> ofstream \<Rightarrow> AuditRecord list \<Rightarrow> (appending, stream) config \<Rightarrow> bool" where
  "parallel_appends dump os recs \<equiv> reachable (append_action dump) (launch Called (on_file os) recs)"

section \<open>Lemmas\<close>

text \<open>One append as one operation on the stream, and what the stream is at each of its steps.\<close>

definition append_op :: "(json \<Rightarrow> string throws) \<Rightarrow> AuditRecord \<Rightarrow> stream \<Rightarrow> AuditAppendResult throws \<times> stream" where
  "append_op dump rec st =
     (fst (jsonl_append dump (st_file st) rec), st\<lparr>st_file := snd (jsonl_append dump (st_file st) rec)\<rparr>)"

fun append_record :: "appending \<Rightarrow> AuditRecord option" where
  "append_record (Called rec) = Some rec"
| "append_record (Serialized rec line) = Some rec"
| "append_record (Entered rec line) = Some rec"
| "append_record (Line_Put rec line) = Some rec"
| "append_record (Newline_Put rec line) = Some rec"
| "append_record (Flushed rec line) = Some rec"
| "append_record (Done r) = None"

fun append_answer :: "appending \<Rightarrow> AuditAppendResult throws option" where
  "append_answer (Done r) = Some (Inr r)"
| "append_answer _ = None"

fun append_critical :: "appending \<Rightarrow> bool" where
  "append_critical (Called rec) = False"
| "append_critical (Serialized rec line) = False"
| "append_critical (Done r) = False"
| "append_critical _ = True"

fun append_inside :: "stream \<Rightarrow> appending \<Rightarrow> stream \<Rightarrow> bool" where
  "append_inside st (Entered rec line) st' = (st_buffer st = [] \<and> st' = st)"
| "append_inside st (Line_Put rec line) st' =
     (st_buffer st = [] \<and> os_is_open (st_file st) \<and> st' = put line st)"
| "append_inside st (Newline_Put rec line) st' =
     (st_buffer st = [] \<and> os_is_open (st_file st) \<and> st' = put [newline] (put line st))"
| "append_inside st (Flushed rec line) st' =
     (st_buffer st = [] \<and> os_is_open (st_file st) \<and> st' = flush (put [newline] (put line st)))"
| "append_inside st _ st' = False"

interpretation audit_lock:
  mutex_protocol "append_op dump" "\<lambda>rec. rec" append_record append_answer append_critical append_inside for dump
proof unfold_locales
  show "append_critical p \<Longrightarrow> append_answer p = None" for p by (cases p) simp_all
qed

text \<open>The buffered writes of one append are the one write of \<open>jsonl_append\<close>.\<close>

lemma buffered_write:
  "st_buffer st = [] \<Longrightarrow>
     flush (put [newline] (put line st)) = st\<lparr>st_file := ofstream_write (line @ [newline]) (st_file st)\<rparr>"
  by (cases st) (simp add: flush_def put_def ofstream_write_sticky)

lemma append_op_cases:
  "and_then (serialize rec) dump = Inl e \<Longrightarrow> append_op dump rec st = (Inr AppendWriteFailure, st)"
  "and_then (serialize rec) dump = Inr line \<Longrightarrow> \<not> os_is_open (st_file st) \<Longrightarrow>
     append_op dump rec st = (Inr AppendOpenFailure, st)"
  "and_then (serialize rec) dump = Inr line \<Longrightarrow> append_inside st (Flushed rec line) st' \<Longrightarrow>
     append_op dump rec st = (Inr (if os_good (st_file st') then AppendOk else AppendWriteFailure), st')"
  by (simp_all add: append_op_def jsonl_append_def buffered_write Let_def)

text \<open>A thread keeps the line its record was serialized to.\<close>

fun printed :: "(json \<Rightarrow> string throws) \<Rightarrow> appending \<Rightarrow> bool" where
  "printed dump (Called rec) = True"
| "printed dump (Done r) = True"
| "printed dump (Serialized rec line) = (and_then (serialize rec) dump = Inr line)"
| "printed dump (Entered rec line) = (and_then (serialize rec) dump = Inr line)"
| "printed dump (Line_Put rec line) = (and_then (serialize rec) dump = Inr line)"
| "printed dump (Newline_Put rec line) = (and_then (serialize rec) dump = Inr line)"
| "printed dump (Flushed rec line) = (and_then (serialize rec) dump = Inr line)"

lemma action_printed: "append_action dump i owner p st owner' p' st' \<Longrightarrow> printed dump p \<Longrightarrow> printed dump p'"
  by (induction rule: append_action.induct) simp_all

text \<open>No append leaves anything in the buffer.\<close>

abbreviation appends_state :: "(json \<Rightarrow> string throws) \<Rightarrow> stream \<Rightarrow> (nat \<times> AuditRecord) list \<Rightarrow> stream" where
  "appends_state dump st order \<equiv> snd (serial (append_op dump) st (map snd order))"

lemma buffer_kept: "st_buffer (snd (serial (append_op dump) st recs)) = st_buffer st"
  by (rule serial_invariant[where P = "\<lambda>s. st_buffer s = st_buffer st"]) (simp_all add: append_op_def)

lemma append_returns:
  assumes c: "audit_lock.consistent dump st\<^sub>0 recs order owner threads st" and i: "i < length threads"
    and "append_critical (threads ! i)" and "append_record (threads ! i) = Some rec"
    and "append_op dump rec (appends_state dump st\<^sub>0 order) = (Inr r, st)"
  shows "\<exists>order'. audit_lock.consistent dump st\<^sub>0 recs order' None (threads[i := Done r]) st"
proof -
  have "recs ! i = rec"
    using audit_lock.consistent_request[OF c i] assms(3,4) audit_lock.critical_unanswered by blast
  with audit_lock.consistent_leave[OF c i assms(3), of "Done r" "Inr r" rec st] assms(5) show ?thesis by auto
qed

lemma appends_action:
  assumes st: "st_buffer st\<^sub>0 = []" and c: "audit_lock.consistent dump st\<^sub>0 recs order owner threads st"
    and i: "i < length threads" and pr: "printed dump (threads ! i)"
    and "append_action dump i owner (threads ! i) st owner' p' st'"
  shows "\<exists>order'. audit_lock.consistent dump st\<^sub>0 recs order' owner' (threads[i := p']) st'"
proof -
  note inside = audit_lock.consistentD(5)[OF c i]
  note within = audit_lock.consistent_within[OF c i]
  note returns = append_returns[OF c i]
  from assms(5) show ?thesis
  proof cases
    case (serialize rec line)
    then show ?thesis using audit_lock.consistent_local[OF c i, of p'] by auto
  next
    case (serialize_throws rec e)
    then show ?thesis
      using audit_lock.consistent_answer[OF c i, of p' _ rec] audit_lock.consistent_request[OF c i, of rec]
        append_op_cases(1)[of rec dump e] by fastforce
  next
    case (enter r line)
    then have "st = appends_state dump st\<^sub>0 order" using c by (simp add: audit_lock.consistent_def)
    with st have "st_buffer st = []" by (simp add: buffer_kept)
    then show ?thesis
      using enter c i audit_lock.consistent_enter[of dump st\<^sub>0 recs order threads st i p'] by auto
  next
    case (not_open r line)
    then have "appends_state dump st\<^sub>0 order = st" using inside by simp
    with not_open pr show ?thesis using returns[of r AppendOpenFailure] by (simp add: append_op_cases(2))
  next
    case (put_line r line)
    then show ?thesis using inside within[of p'] by auto
  next
    case (put_newline r line)
    then show ?thesis using inside within[of p'] by auto
  next
    case (flush r line)
    then show ?thesis using inside within[of p'] by auto
  next
    case (check r line)
    then have "append_inside (appends_state dump st\<^sub>0 order) (Flushed r line) st" "and_then (serialize r) dump = Inr line"
      using inside pr by simp_all
    from append_op_cases(3)[OF this(2,1)] show ?thesis using check returns[of r] by simp
  qed
qed

lemma append_all_serial:
  "serial (append_op dump) (on_file os) recs =
     (fst (jsonl_append_all dump os recs), on_file (snd (jsonl_append_all dump os recs)))"
  by (induction recs arbitrary: os) (simp_all add: append_op_def case_prod_unfold Let_def)

text \<open>Every step brings an append closer to its return, and one is possible until all have returned.\<close>

fun append_rank :: "appending \<Rightarrow> nat" where
  "append_rank (Called rec) = 6"
| "append_rank (Serialized rec line) = 5"
| "append_rank (Entered rec line) = 4"
| "append_rank (Line_Put rec line) = 3"
| "append_rank (Newline_Put rec line) = 2"
| "append_rank (Flushed rec line) = 1"
| "append_rank (Done r) = 0"

lemma action_rank: "append_action dump i owner p st owner' p' st' \<Longrightarrow> append_rank p' < append_rank p"
  by (induction rule: append_action.induct) simp_all

text \<open>Only a thread that waits for the lock, or has returned, cannot act.\<close>

lemma action_possible:
  assumes "append_answer p = None" and "append_critical p \<or> owner = None"
  shows "\<exists>owner' p' st'. append_action dump i owner p st owner' p' st'"
proof (cases p)
  case (Called rec)
  show ?thesis
  proof (cases "and_then (serialize rec) dump")
    case (Inl e)
    from append_action.serialize_throws[where i = i and owner = owner and st = st, OF this] show ?thesis
      unfolding Called by (intro exI)
  next
    case (Inr line)
    from append_action.serialize[where i = i and owner = owner and st = st, OF this] show ?thesis
      unfolding Called by (intro exI)
  qed
next
  case (Serialized rec line)
  then show ?thesis using assms(2) by (metis append_action.enter append_critical.simps(2))
next
  case (Entered rec line)
  then show ?thesis by (metis append_action.not_open append_action.put_line)
next
  case (Line_Put rec line)
  then show ?thesis by (metis append_action.put_newline)
next
  case (Newline_Put rec line)
  then show ?thesis by (metis append_action.flush)
next
  case (Flushed rec line)
  then show ?thesis by (metis append_action.check)
qed (use assms in simp)

interpretation audit_repository: lock_program "append_op dump" "\<lambda>rec. rec" append_record append_answer append_critical
  append_inside "append_action dump" Called "printed dump" append_rank "\<lambda>st. st_buffer st = []" for dump
  by unfold_locales (auto intro: action_printed action_rank appends_action action_possible)

lemma append_answer_Some [simp]: "append_answer p = Some r \<longleftrightarrow> (\<exists>x. p = Done x \<and> r = Inr x)"
  by (cases p) auto

text \<open>Two threads appending, for the witness.\<close>

definition demo_records :: "AuditRecord list" where
  "demo_records = [record_parsing_failure 0 1, record_internal_failure 5 2]"

lemma demo_appends_end:
  "\<exists>c. parallel_appends (\<lambda>j. Inr (compact j)) (JsonlAuditRepository True [] []) demo_records c \<and>
     (\<forall>i < 2. \<exists>r. cf_threads c ! i = Done r)"
proof -
  obtain c where c: "parallel_appends (\<lambda>j. Inr (compact j)) (JsonlAuditRepository True [] []) demo_records c"
    "all_answered append_answer c"
    using audit_repository.completed_run[of "on_file (JsonlAuditRepository True [] [])"] by auto
  then have "length (cf_threads c) = 2"
    using audit_repository.reachable_length[OF c(1)] by (simp add: demo_records_def)
  with c show ?thesis by (auto simp: all_answered_def list_all_length)
qed

section \<open>Properties\<close>

text \<open>
  C16. Parallel appends do not mix: in every state that threads can reach inside the repository, the
  finished appends can be put in an order in which each has the result it would have if the appends
  were made one after another, and whenever nobody holds the repository's lock nothing is left in
  the stream's buffer and the file is the one of those appends, so lines are never interleaved.
  Moreover a continuation always exists in which every append returns.
\<close>

theorem parallel_appends_serial:
  assumes "parallel_appends dump os recs c"
  shows "(\<exists>order. distinct order \<and>
      (\<forall>i < length recs. (\<exists>r. cf_threads c ! i = Done r) \<longleftrightarrow> i \<in> set order) \<and>
      (\<forall>k < length order. \<exists>r. cf_threads c ! (order ! k) = Done r \<and>
         fst (jsonl_append_all dump os (map ((!) recs) order)) ! k = Inr r) \<and>
      (cf_owner c = None \<longrightarrow> cf_shared c = on_file (snd (jsonl_append_all dump os (map ((!) recs) order))))) \<and>
    (\<exists>c'. (par_step (append_action dump))\<^sup>*\<^sup>* c c' \<and> all_answered append_answer c')"
proof
  from audit_repository.serializable[OF assms] obtain order where
    d: "distinct (map fst order)" and ev: "\<forall>(i, rec) \<in> set order. i < length recs \<and> rec = recs ! i"
    and answered: "\<forall>i < length recs. (\<exists>r. append_answer (cf_threads c ! i) = Some r) \<longleftrightarrow> i \<in> fst ` set order"
    and results: "\<forall>k < length order. append_answer (cf_threads c ! fst (order ! k)) =
      Some (fst (serial (append_op dump) (on_file os) (map snd order)) ! k)"
    and state: "cf_owner c = None \<longrightarrow> cf_shared c = snd (serial (append_op dump) (on_file os) (map snd order))"
    by auto
  let ?turns = "map fst order"
  from ev have "map snd order = map ((!) recs) ?turns" by auto
  with d answered results state show "\<exists>order. distinct order \<and>
      (\<forall>i < length recs. (\<exists>r. cf_threads c ! i = Done r) \<longleftrightarrow> i \<in> set order) \<and>
      (\<forall>k < length order. \<exists>r. cf_threads c ! (order ! k) = Done r \<and>
         fst (jsonl_append_all dump os (map ((!) recs) order)) ! k = Inr r) \<and>
      (cf_owner c = None \<longrightarrow> cf_shared c = on_file (snd (jsonl_append_all dump os (map ((!) recs) order))))"
    by (intro exI[of _ ?turns]) (simp add: append_all_serial)
qed (use audit_repository.completes[OF assms] in simp)

theorem parallel_appends_serial_witness:
  "\<exists>c order. parallel_appends (\<lambda>j. Inr (compact j)) (JsonlAuditRepository True [] []) demo_records c \<and>
     0 \<in> set order \<and> 1 \<in> set order \<and>
     (\<forall>k < length order. \<exists>r. cf_threads c ! (order ! k) = Done r \<and>
        fst (jsonl_append_all (\<lambda>j. Inr (compact j)) (JsonlAuditRepository True [] []) (map ((!) demo_records) order)) ! k = Inr r)"
proof -
  obtain c where c: "parallel_appends (\<lambda>j. Inr (compact j)) (JsonlAuditRepository True [] []) demo_records c"
    "\<forall>i < 2. \<exists>r. cf_threads c ! i = Done r"
    using demo_appends_end by blast
  from parallel_appends_serial[OF c(1)] obtain order where
    o: "\<forall>i < length demo_records. (\<exists>r. cf_threads c ! i = Done r) \<longleftrightarrow> i \<in> set order"
      "\<forall>k < length order. \<exists>r. cf_threads c ! (order ! k) = Done r \<and>
        fst (jsonl_append_all (\<lambda>j. Inr (compact j)) (JsonlAuditRepository True [] []) (map ((!) demo_records) order)) ! k = Inr r"
    by (elim conjE exE)
  have "length demo_records = 2" by (simp add: demo_records_def)
  with o(1) c(2) have "0 \<in> set order" "1 \<in> set order" by simp_all
  with c(1) o(2) show ?thesis by blast
qed

end
