(* ===== verification/Nested_Locks.thy ===== *)
theory Nested_Locks
  imports Serving Audit_File Production_Demo
begin

text \<open>
  The two mutexes together: \<open>ProxyService::handle\<close> holds the service's lock while it calls
  \<open>JsonlAuditRepository::append\<close>, which takes the repository's own. A thread is at a point of
  \<open>handle\<close>, or inside \<open>append\<close> with the locals of both; the shared state is the holder of
  the repository's lock and the service with its buffered stream. The parallel program is
  serializable as before, the inner lock is only ever held by the holder of the outer one, and no
  run is stuck.
\<close>

section \<open>Threads inside both locks\<close>

datatype nested_pc =
  Outer pc
| Inner int string Processing appending

type_synonym 'db nested_state = "nat option \<times> ('db, stream) ProxyService"

text \<open>The service over the buffered stream.\<close>

definition stream_adapters :: "(json \<Rightarrow> string throws) \<Rightarrow> ('db, ofstream) Adapters \<Rightarrow> ('db, stream) Adapters" where
  "stream_adapters dump ad =
     \<lparr>ad_parse = ad_parse ad, ad_execute = ad_execute ad, ad_append = (\<lambda>st rec. append_op dump rec st)\<rparr>"

definition over_stream :: "('db, ofstream) ProxyService \<Rightarrow> ('db, stream) ProxyService" where
  "over_stream s =
     \<lparr>sv_classifier = sv_classifier s, sv_next_request_id = sv_next_request_id s, sv_db = sv_db s,
      sv_sink = on_file (sv_sink s), sv_syslog = sv_syslog s\<rparr>"

text \<open>
  The call of \<open>append\<close> and its return are steps; in between the thread does the actions of
  \<open>append\<close>. All other actions are those of \<open>handle\<close>.
\<close>

inductive nested_action ::
  "(json \<Rightarrow> string throws) \<Rightarrow> ('db, stream) Adapters \<Rightarrow> (nested_pc, 'db nested_state) action" for dump ad i where
  outer: "handle_action ad i owner p s owner' p' s' \<Longrightarrow> \<forall>ts sql q. p \<noteq> Processed ts sql q \<Longrightarrow>
     nested_action dump ad i owner (Outer p) (inner, s) owner' (Outer p') (inner, s')"
| call: "nested_action dump ad i owner (Outer (Processed ts sql p)) (inner, s)
     owner (Inner ts sql p (Called (pg_record p))) (inner, s)"
| append: "append_action dump i inner a (sv_sink s) inner' a' st \<Longrightarrow>
     nested_action dump ad i owner (Inner ts sql p a) (inner, s)
       owner (Inner ts sql p a') (inner', s\<lparr>sv_sink := st\<rparr>)"
| result: "nested_action dump ad i owner (Inner ts sql p (Done r)) (inner, s)
     owner (Outer (Appended ts sql p r)) (inner, s)"

section \<open>Lemmas\<close>

lemma stream_adapters_simps [simp]:
  "ad_parse (stream_adapters dump ad) = ad_parse ad"
  "ad_execute (stream_adapters dump ad) = ad_execute ad"
  "ad_append (stream_adapters dump ad) st rec = append_op dump rec st"
  by (simp_all add: stream_adapters_def)

lemma over_stream_simps [simp]:
  "sv_classifier (over_stream s) = sv_classifier s" "sv_next_request_id (over_stream s) = sv_next_request_id s"
  "sv_db (over_stream s) = sv_db s" "sv_sink (over_stream s) = on_file (sv_sink s)"
  "sv_syslog (over_stream s) = sv_syslog s"
  by (simp_all add: over_stream_def)

text \<open>Over the stream, \<open>handle\<close> does what it does over the file.\<close>

lemma process_stream: "process (stream_adapters dump ad) = process ad"
  by (intro ext) (unfold process_def stream_adapters_simps, rule refl)

lemma append_safely_stream:
  "append_safely (stream_adapters dump ad) st rec =
     (projr (fst (jsonl_append dump (st_file st) rec)), st\<lparr>st_file := snd (jsonl_append dump (st_file st) rec)\<rparr>)"
  by (simp add: append_safely_def append_op_def jsonl_append_def Let_def split: sum.split)

lemma append_safely_file:
  assumes "ad_append ad = jsonl_append dump"
  shows "append_safely ad os rec = (projr (fst (jsonl_append dump os rec)), snd (jsonl_append dump os rec))"
  by (simp add: append_safely_def assms jsonl_append_def Let_def split: sum.split)

lemma handle_stream:
  assumes "ad_append ad = jsonl_append dump"
  shows "handle (stream_adapters dump ad) ts sql (over_stream s) =
    (fst (handle ad ts sql s), over_stream (snd (handle ad ts sql s)))"
  by (simp add: handle_def process_stream append_safely_stream append_safely_file[OF assms] over_stream_def
      Let_def case_prod_unfold)

lemma serve_stream:
  assumes "ad_append ad = jsonl_append dump"
  shows "serve (stream_adapters dump ad) (over_stream s) evs = (fst (serve ad s evs), over_stream (snd (serve ad s evs)))"
  by (induction evs arbitrary: s) (simp_all add: handle_stream[OF assms] del: handle_state)

lemma serve_buffer:
  "st_buffer (sv_sink (snd (serve (stream_adapters dump ad) s evs))) = st_buffer (sv_sink s)"
  by (induction evs arbitrary: s) (simp_all add: handle_append_def append_safely_stream)

text \<open>How far an append of a record has come, from the stream it found to the one now.\<close>

definition append_progress ::
  "(json \<Rightarrow> string throws) \<Rightarrow> AuditRecord \<Rightarrow> stream \<Rightarrow> nat option \<Rightarrow> appending \<Rightarrow> stream \<Rightarrow> bool" where
  "append_progress dump rec st\<^sub>0 inner a st \<longleftrightarrow>
     (case append_answer a of
        Some r \<Rightarrow> inner = None \<and> append_op dump rec st\<^sub>0 = (r, st)
      | None \<Rightarrow> append_record a = Some rec \<and>
          (if append_critical a then inner \<noteq> None \<and> append_inside st\<^sub>0 a st else inner = None \<and> st = st\<^sub>0))"

lemma append_progress_action:
  assumes "append_action dump i inner a st inner' a' st'" and "append_progress dump rec st\<^sub>0 inner a st"
    and "st_buffer st\<^sub>0 = []" and "printed dump a"
  shows "append_progress dump rec st\<^sub>0 inner' a' st'"
  using assms
proof (induction rule: append_action.induct)
  case (check owner r line st)
  then show ?case using append_op_cases(3)[of r dump line st\<^sub>0 st] by (simp add: append_progress_def)
qed (simp_all add: append_progress_def append_op_cases(1,2))

section \<open>The program under both locks\<close>

definition nested_op :: "('db, stream) Adapters \<Rightarrow> event \<Rightarrow> 'db nested_state \<Rightarrow> ServiceResult \<times> 'db nested_state" where
  "nested_op ad ev st =
     (fst (handle ad (fst ev) (snd ev) (snd st)), (fst st, snd (handle ad (fst ev) (snd ev) (snd st))))"

fun nested_sql :: "nested_pc \<Rightarrow> string option" where
  "nested_sql (Outer p) = sql_of p"
| "nested_sql (Inner ts sql p a) = Some sql"

fun nested_answer :: "nested_pc \<Rightarrow> ServiceResult option" where
  "nested_answer (Outer p) = answer_of p"
| "nested_answer (Inner ts sql p a) = None"

fun nested_critical :: "nested_pc \<Rightarrow> bool" where
  "nested_critical (Outer p) = critical p"
| "nested_critical (Inner ts sql p a) = True"

fun nested_rank :: "nested_pc \<Rightarrow> nat" where
  "nested_rank (Outer p) = 10 * rank p"
| "nested_rank (Inner ts sql p a) = append_rank a + 11"

fun nested_printed :: "(json \<Rightarrow> string throws) \<Rightarrow> nested_pc \<Rightarrow> bool" where
  "nested_printed dump (Outer p) = True"
| "nested_printed dump (Inner ts sql p a) = printed dump a"

definition quiet :: "'db nested_state \<Rightarrow> bool" where
  "quiet st \<longleftrightarrow> fst st = None \<and> st_buffer (sv_sink (snd st)) = []"

fun nested_inside ::
  "(json \<Rightarrow> string throws) \<Rightarrow> ('db, stream) Adapters \<Rightarrow> 'db nested_state \<Rightarrow> nested_pc \<Rightarrow> 'db nested_state \<Rightarrow> bool" where
  "nested_inside dump ad st\<^sub>0 (Outer p) (inner, s) = (quiet st\<^sub>0 \<and> inner = None \<and> inside ad (snd st\<^sub>0) p s)"
| "nested_inside dump ad st\<^sub>0 (Inner ts sql p a) (inner, s) =
     (quiet st\<^sub>0 \<and> (\<exists>s\<^sub>1. inside ad (snd st\<^sub>0) (Processed ts sql p) s\<^sub>1 \<and> s = s\<^sub>1\<lparr>sv_sink := sv_sink s\<rparr> \<and>
        append_progress dump (pg_record p) (sv_sink s\<^sub>1) inner a (sv_sink s)))"

interpretation nested_lock:
  mutex_protocol "nested_op (stream_adapters dump ad)" snd nested_sql nested_answer nested_critical
    "nested_inside dump (stream_adapters dump ad)" for dump ad
proof unfold_locales
  show "nested_critical p \<Longrightarrow> nested_answer p = None" for p
    by (cases p) (simp_all add: lock.critical_unanswered)
qed

lemma nested_serial:
  "serial (nested_op ad) (inner, s) evs = (fst (serve ad s evs), (inner, snd (serve ad s evs)))"
  by (induction evs arbitrary: s) (simp_all add: nested_op_def)

lemma quiet_serial:
  "quiet st \<Longrightarrow> quiet (snd (serial (nested_op (stream_adapters dump ad)) st evs))"
  by (cases st) (simp add: quiet_def nested_serial serve_buffer)

text \<open>The outer actions of \<open>handle\<close>, all but the append.\<close>

lemma nested_outer:
  assumes q: "quiet st\<^sub>0" and c: "nested_lock.consistent dump ad st\<^sub>0 sqls order owner threads (inner, s)"
    and i: "i < length threads" and p: "threads ! i = Outer p"
    and "handle_action (stream_adapters dump ad) i owner p s owner' p' s'" and np: "\<forall>ts sql q. p \<noteq> Processed ts sql q"
  shows "\<exists>order'. nested_lock.consistent dump ad st\<^sub>0 sqls order' owner' (threads[i := Outer p']) (inner, s')"
proof -
  let ?ad = "stream_adapters dump ad" and ?st = "snd (serial (nested_op (stream_adapters dump ad)) st\<^sub>0 (map snd order))"
  note inside = nested_lock.consistentD(5)[OF c i]
  note within = nested_lock.consistent_within[OF c i, of "Outer p'"]
  from assms(5) show ?thesis
  proof cases
    case (lock sql)
    then have "(inner, s) = ?st" using c by (simp add: nested_lock.consistent_def)
    then have "quiet (inner, s)" using quiet_serial[OF q] by simp
    then show ?thesis
      using nested_lock.consistent_enter[of dump ad st\<^sub>0 sqls order threads "(inner, s)" i "Outer p'"] lock c i p
      by (auto simp: quiet_def)
  next
    case (stamp rid sql ts)
    then show ?thesis using inside within p by auto
  next
    case (process sql ts rid r db')
    then show ?thesis using inside within p by fastforce
  next
    case (append p appended sink' ts sql)
    then show ?thesis using np by simp
  next
    case (return q appended result ts sql)
    have "sqls ! i = sql" "inside ?ad (snd ?st) (Appended ts sql q appended) s" "inner = None" "fst ?st = None"
      using nested_lock.consistent_request[OF c i] inside return(1) p by (simp_all add: quiet_def)
    moreover from this(2) return have "handle ?ad ts sql (snd ?st) = (result, s')" using inside_finish by metis
    ultimately show ?thesis
      using nested_lock.consistent_leave[OF c i, of "Outer p'" result "(ts, sql)" "(inner, s')"] return p
      by (auto simp: nested_op_def)
  qed
qed

text \<open>The steps into, within and out of the append keep what is known of the shared state.\<close>

lemma nested_inside_call:
  "nested_inside dump ad st\<^sub>0 (Outer (Processed ts sql p)) (inner, s) \<Longrightarrow>
     nested_inside dump ad st\<^sub>0 (Inner ts sql p (Called (pg_record p))) (inner, s)"
  by (simp add: append_progress_def del: inside.simps) (rule exI[of _ s], simp)

lemma nested_inside_append:
  assumes "nested_inside dump ad st\<^sub>0 (Inner ts sql p a) (inner, s)" and "printed dump a"
    and "append_action dump i inner a (sv_sink s) inner' a' st"
  shows "nested_inside dump ad st\<^sub>0 (Inner ts sql p a') (inner', s\<lparr>sv_sink := st\<rparr>)"
proof -
  obtain s\<^sub>1 where s\<^sub>1: "quiet st\<^sub>0" "inside ad (snd st\<^sub>0) (Processed ts sql p) s\<^sub>1" "s = s\<^sub>1\<lparr>sv_sink := sv_sink s\<rparr>"
    "append_progress dump (pg_record p) (sv_sink s\<^sub>1) inner a (sv_sink s)"
    using assms(1) by (auto simp del: inside.simps)
  have "st_buffer (sv_sink s\<^sub>1) = []" using s\<^sub>1(1,2) by (auto simp: quiet_def)
  from append_progress_action[OF assms(3) s\<^sub>1(4) this assms(2)]
  have "append_progress dump (pg_record p) (sv_sink s\<^sub>1) inner' a' st" .
  moreover have "s\<lparr>sv_sink := st\<rparr> = s\<^sub>1\<lparr>sv_sink := st\<rparr>" by (subst s\<^sub>1(3)) simp
  ultimately show ?thesis using s\<^sub>1(1,2) by (simp del: inside.simps) (intro exI[of _ s\<^sub>1], simp)
qed

lemma nested_inside_result:
  assumes "nested_inside dump (stream_adapters dump ad) st\<^sub>0 (Inner ts sql p (Done r)) (inner, s)"
  shows "nested_inside dump (stream_adapters dump ad) st\<^sub>0 (Outer (Appended ts sql p r)) (inner, s)"
proof -
  let ?ad = "stream_adapters dump ad"
  obtain s\<^sub>1 where s\<^sub>1: "quiet st\<^sub>0" "inside ?ad (snd st\<^sub>0) (Processed ts sql p) s\<^sub>1" "s = s\<^sub>1\<lparr>sv_sink := sv_sink s\<rparr>"
    "inner = None" "append_op dump (pg_record p) (sv_sink s\<^sub>1) = (Inr r, sv_sink s)"
    using assms by (auto simp: append_progress_def simp del: inside.simps)
  moreover from s\<^sub>1(5) have "append_safely ?ad (sv_sink s\<^sub>1) (pg_record p) = (r, sv_sink s)"
    by (simp add: append_safely_def)
  moreover have "sv_sink s\<^sub>1 = sv_sink (snd st\<^sub>0)" using s\<^sub>1(2) by auto
  ultimately show ?thesis by (auto intro!: exI[of _ "sv_sink s"])
qed

lemma nested_consistent:
  assumes q: "quiet st\<^sub>0" and c: "nested_lock.consistent dump ad st\<^sub>0 sqls order owner threads st"
    and i: "i < length threads" and pr: "nested_printed dump (threads ! i)"
    and "nested_action dump (stream_adapters dump ad) i owner (threads ! i) st owner' p' st'"
  shows "\<exists>order'. nested_lock.consistent dump ad st\<^sub>0 sqls order' owner' (threads[i := p']) st'"
proof -
  note inside = nested_lock.consistentD(5)[OF c i]
  note within = nested_lock.consistent_within[OF c i, of p' st']
  from assms(5) show ?thesis
  proof cases
    case (outer p s p' s' inner)
    then show ?thesis using nested_outer[OF q c[unfolded outer] i] by auto
  next
    case (call ts sql p inner s)
    with inside have "nested_inside dump (stream_adapters dump ad)
        (snd (serial (nested_op (stream_adapters dump ad)) st\<^sub>0 (map snd order))) p' st'"
      by (simp only: nested_inside_call nested_critical.simps critical.simps)
    with call within show ?thesis by (intro exI[of _ order]) simp
  next
    case (append inner a s inner' a' st\<^sub>1 ts sql p)
    have "nested_inside dump (stream_adapters dump ad)
        (snd (serial (nested_op (stream_adapters dump ad)) st\<^sub>0 (map snd order))) p' st'"
      unfolding append by (rule nested_inside_append[OF _ _ append(6)]) (use inside pr append in simp_all)
    with append within show ?thesis by (intro exI[of _ order]) simp
  next
    case (result ts sql p r inner s)
    with inside have "nested_inside dump (stream_adapters dump ad)
        (snd (serial (nested_op (stream_adapters dump ad)) st\<^sub>0 (map snd order))) p' st'"
      by (simp only: nested_inside_result nested_critical.simps)
    with result within show ?thesis by (intro exI[of _ order]) simp
  qed
qed

lemma nested_enabled:
  assumes c: "nested_lock.consistent dump ad st\<^sub>0 sqls order owner threads st" and i: "i < length threads"
    and a: "nested_answer (threads ! i) = None" and crit: "nested_critical (threads ! i) \<or> owner = None"
  shows "\<exists>owner' p' st'. nested_action dump (stream_adapters dump ad) i owner (threads ! i) st owner' p' st'"
proof (cases "threads ! i")
  case (Outer p)
  show ?thesis
  proof (cases "\<exists>ts sql q. p = Processed ts sql q")
    case True
    with Outer show ?thesis by (cases st) (metis nested_action.call)
  next
    case False
    with Outer a crit show ?thesis
      by (cases st) (metis handle_action_possible nested_action.outer nested_answer.simps(1) nested_critical.simps(1))
  qed
next
  case (Inner ts sql p a)
  have inside: "nested_inside dump (stream_adapters dump ad)
      (snd (serial (nested_op (stream_adapters dump ad)) st\<^sub>0 (map snd order))) (Inner ts sql p a) st"
    using nested_lock.consistentD(5)[OF c i] Inner by simp
  show ?thesis
  proof (cases "append_answer a")
    case None
    with inside have "append_critical a \<or> fst st = None"
      by (cases st) (auto simp: append_progress_def split: if_splits simp del: inside.simps)
    with None Inner action_possible[of a "fst st" dump i "sv_sink (snd st)"] show ?thesis
      by (cases st) (metis fst_conv nested_action.append snd_conv)
  next
    case (Some r)
    with Inner show ?thesis by (cases st) (metis append_answer_Some nested_action.result)
  qed
qed

interpretation nested: lock_program "nested_op (stream_adapters dump ad)" snd nested_sql nested_answer nested_critical
  "nested_inside dump (stream_adapters dump ad)" "nested_action dump (stream_adapters dump ad)" "\<lambda>sql. Outer (Ready sql)"
  "nested_printed dump" nested_rank quiet for dump ad
proof unfold_locales
  show "nested_action dump (stream_adapters dump ad) i owner p sh owner' p' sh' \<Longrightarrow> nested_printed dump p \<Longrightarrow>
      nested_printed dump p'" for i owner p sh owner' p' sh'
    by (induction rule: nested_action.induct) (simp_all add: action_printed)
  show "nested_action dump (stream_adapters dump ad) i owner p sh owner' p' sh' \<Longrightarrow> nested_rank p' < nested_rank p"
    for i owner p sh owner' p' sh'
    by (induction rule: nested_action.induct) (simp_all add: service.act_rank action_rank)
qed (simp_all add: nested_consistent nested_enabled del: split_paired_Ex)

text \<open>The repository's lock is only ever held by the thread that holds the service's.\<close>

lemma inner_holder:
  assumes c: "nested_lock.consistent dump ad st\<^sub>0 sqls order owner threads st" and i: "i < length threads"
    and "fst st = None \<or> fst st = owner"
    and "nested_action dump (stream_adapters dump ad) i owner (threads ! i) st owner' p' st'"
  shows "fst st' = None \<or> fst st' = owner'"
proof -
  note holds = nested_lock.consistentD(4,5)[OF c i]
  from assms(4) show ?thesis
  proof cases
    case (outer p s p' s' inner)
    from outer(5) show ?thesis
      by cases (use assms(3) outer holds in \<open>auto simp del: inside.simps\<close>)
  next
    case (append inner a s inner' a' st\<^sub>1 ts sql p)
    then have "owner = Some i" using holds by simp
    with append assms(3) show ?thesis by (auto elim: append_action.cases)
  qed (use assms(3) in simp_all)
qed

lemma inner_lock_nested:
  assumes "reachable (nested_action dump (stream_adapters dump ad)) (launch (\<lambda>sql. Outer (Ready sql)) st\<^sub>0 sqls) c"
    and "quiet st\<^sub>0"
  shows "fst (cf_shared c) = None \<or> fst (cf_shared c) = cf_owner c"
  using assms(1)
proof (induction rule: reachable.induct)
  case start
  then show ?case using assms(2) by (simp add: launch_def quiet_def)
next
  case (more c c')
  from nested.reachable_ok[OF more.hyps(1) assms(2)] obtain order where
    c: "nested_lock.consistent dump ad st\<^sub>0 sqls order (cf_owner c) (cf_threads c) (cf_shared c)"
    by (auto simp: nested.config_ok_def)
  from more.hyps(2) show ?case
    by cases (use inner_holder[OF c _ more.IH] in simp)
qed

section \<open>Properties\<close>

text \<open>The production service with both its locks, over the state \<open>s\<close>, with one thread per request.\<close>

abbreviation nested_serving ::
  "(json \<Rightarrow> string throws) \<Rightarrow> ('db, ofstream) Adapters \<Rightarrow> ('db, ofstream) ProxyService \<Rightarrow> string list
     \<Rightarrow> (nested_pc, 'db nested_state) config \<Rightarrow> bool" where
  "nested_serving dump ad s sqls \<equiv>
     reachable (nested_action dump (stream_adapters dump ad)) (launch (\<lambda>sql. Outer (Ready sql)) (None, over_stream s) sqls)"

lemma over_stream_quiet: "quiet (None, over_stream s)"
  by (simp add: quiet_def)

lemma nested_answer_Some [simp]: "nested_answer p = Some r \<longleftrightarrow> p = Outer (Returned r)"
  by (cases p) auto

lemma demo_nested:
  "\<exists>c r. nested_serving (\<lambda>j. Inr (compact j)) (demo_production 1) (demo_service demo_file) [demo_sql] c \<and>
     cf_threads c ! 0 = Outer (Returned r)"
proof -
  obtain c where c: "nested_serving (\<lambda>j. Inr (compact j)) (demo_production 1) (demo_service demo_file) [demo_sql] c"
    "all_answered nested_answer c"
    using nested.completed_run[OF over_stream_quiet] by blast
  with nested.reachable_length[OF c(1) over_stream_quiet] show ?thesis
    by (fastforce simp: all_answered_def list_all_length)
qed

text \<open>
  C13. The two locks work together: with every step of \<open>handle\<close> and of \<open>append\<close> interleaved
  freely between threads, the answered requests have the results of the production service run
  serially in some order; while nobody holds the service's lock the whole state, the audit file
  included, is the one of that serial run and nothing is left in the stream's buffer; the
  repository's lock is only ever held by the thread that holds the service's; and from every
  reachable state some continuation answers all requests, so the locks cannot deadlock.
\<close>

theorem nested_locks_serial:
  assumes "nested_serving dump (production_adapters fpos hp px config dump) s sqls c"
  shows "(\<exists>order. distinct (map fst order) \<and>
      (\<forall>i < length sqls. (\<exists>r. cf_threads c ! i = Outer (Returned r)) \<longleftrightarrow> i \<in> fst ` set order) \<and>
      (\<forall>k < length order. cf_threads c ! fst (order ! k) =
         Outer (Returned (fst (serve (production_adapters fpos hp px config dump) s (map (\<lambda>(i, ts). (ts, sqls ! i)) order)) ! k))) \<and>
      (cf_owner c = None \<longrightarrow> cf_shared c =
         (None, over_stream (snd (serve (production_adapters fpos hp px config dump) s (map (\<lambda>(i, ts). (ts, sqls ! i)) order)))))) \<and>
    (fst (cf_shared c) = None \<or> fst (cf_shared c) = cf_owner c) \<and>
    (\<exists>c'. (par_step (nested_action dump (stream_adapters dump (production_adapters fpos hp px config dump))))\<^sup>*\<^sup>* c c' \<and>
       all_answered nested_answer c')"
proof (intro conjI)
  let ?ad = "production_adapters fpos hp px config dump"
  note run = serve_stream[of ?ad dump, simplified]
  from nested.serializable[OF assms over_stream_quiet] obtain order where
    d: "distinct (map fst order)" and ev: "\<forall>(i, e) \<in> set order. i < length sqls \<and> snd e = sqls ! i"
    and answered: "\<forall>i < length sqls. (\<exists>r. cf_threads c ! i = Outer (Returned r)) \<longleftrightarrow> i \<in> fst ` set order"
    and results: "\<forall>k < length order. cf_threads c ! fst (order ! k) = Outer (Returned (fst (serve ?ad s (map snd order)) ! k))"
    and state: "cf_owner c = None \<longrightarrow> cf_shared c = (None, over_stream (snd (serve ?ad s (map snd order))))"
    unfolding nested_answer_Some nested_serial run fst_conv snd_conv by (elim exE conjE)
  obtain turns where ev_turns: "map (\<lambda>(i, ts). (ts, sqls ! i)) turns = map snd order"
    and fst_turns: "map fst turns = map fst order" "length turns = length order" "fst ` set turns = fst ` set order"
      "\<forall>k < length order. fst (turns ! k) = fst (order ! k)"
    using clock_turns[OF ev] by blast
  from d answered results state show "\<exists>order. distinct (map fst order) \<and>
      (\<forall>i < length sqls. (\<exists>r. cf_threads c ! i = Outer (Returned r)) \<longleftrightarrow> i \<in> fst ` set order) \<and>
      (\<forall>k < length order. cf_threads c ! fst (order ! k) =
         Outer (Returned (fst (serve ?ad s (map (\<lambda>(i, ts). (ts, sqls ! i)) order)) ! k))) \<and>
      (cf_owner c = None \<longrightarrow> cf_shared c =
         (None, over_stream (snd (serve ?ad s (map (\<lambda>(i, ts). (ts, sqls ! i)) order)))))"
    by (intro exI[of _ turns]) (simp add: ev_turns fst_turns)
qed (rule inner_lock_nested[OF assms over_stream_quiet] nested.completes[OF assms over_stream_quiet])+

theorem nested_locks_serial_witness:
  "\<exists>c order. nested_serving (\<lambda>j. Inr (compact j)) (demo_production 1) (demo_service demo_file) [demo_sql] c \<and>
     0 \<in> fst ` set order \<and>
     (\<forall>k < length order. cf_threads c ! fst (order ! k) = Outer (Returned
        (fst (serve (demo_production 1) (demo_service demo_file) (map (\<lambda>(i, ts). (ts, [demo_sql] ! i)) order)) ! k)))"
proof -
  obtain c r where c: "nested_serving (\<lambda>j. Inr (compact j)) (demo_production 1) (demo_service demo_file) [demo_sql] c"
    "cf_threads c ! 0 = Outer (Returned r)"
    using demo_nested by blast
  from nested_locks_serial[OF c(1)[unfolded demo_production_def]] obtain order where
    "\<forall>i < length [demo_sql]. (\<exists>r. cf_threads c ! i = Outer (Returned r)) \<longleftrightarrow> i \<in> fst ` set order"
    and o: "\<forall>k < length order. cf_threads c ! fst (order ! k) = Outer (Returned
        (fst (serve (demo_production 1) (demo_service demo_file) (map (\<lambda>(i, ts). (ts, [demo_sql] ! i)) order)) ! k))"
    unfolding demo_production_def by (elim conjE exE)
  with c(2) have "0 \<in> fst ` set order" by simp
  with c(1) o show ?thesis by (intro exI[of _ c] exI[of _ order]) simp
qed

end
