(* ===== verification/Front_End.thy ===== *)
theory Front_End
  imports Mutex
begin

text \<open>
  Clients in front of a program of threads around a lock. A client looks at its request by itself:
  either it answers at once, or it enters the locked program with a request for it and turns the
  answer it gets there into its own. Clients run in parallel, and their answers are those of a
  serial execution; this follows from the same for the locked program, to which every run of the
  clients projects.
\<close>

section \<open>Clients\<close>

datatype ('a, 'p, 'b) client = Arrived 'a | Admitted 'p | Replied 'b

text \<open>\<open>prepare\<close> gives the request for the locked program or the answer.\<close>

inductive client_action ::
  "('a \<Rightarrow> 'q + 'b) \<Rightarrow> ('q \<Rightarrow> 'p) \<Rightarrow> ('p, 's) action \<Rightarrow> (('a, 'p, 'b) client, 's) action" for prepare first act i where
  admit: "prepare a = Inl q \<Longrightarrow> client_action prepare first act i owner (Arrived a) s owner (Admitted (first q)) s"
| refuse: "prepare a = Inr b \<Longrightarrow> client_action prepare first act i owner (Arrived a) s owner (Replied b) s"
| work: "act i owner p s owner' p' s' \<Longrightarrow>
     client_action prepare first act i owner (Admitted p) s owner' (Admitted p') s'"

fun client_answer :: "('r \<Rightarrow> 'b) \<Rightarrow> ('p \<Rightarrow> 'r option) \<Rightarrow> ('a, 'p, 'b) client \<Rightarrow> 'b option" where
  "client_answer reply answer (Arrived a) = None"
| "client_answer reply answer (Admitted p) = map_option reply (answer p)"
| "client_answer reply answer (Replied b) = Some b"

text \<open>One client served by one operation, at the moment \<open>t\<close>.\<close>

definition client_op ::
  "('a \<Rightarrow> 'q + 'b) \<Rightarrow> ('r \<Rightarrow> 'b) \<Rightarrow> ('t \<times> 'q \<Rightarrow> 's \<Rightarrow> 'r \<times> 's) \<Rightarrow> 't \<times> 'a \<Rightarrow> 's \<Rightarrow> 'b \<times> 's" where
  "client_op prepare reply operation e s =
     (case prepare (snd e) of
        Inl q \<Rightarrow> (reply (fst (operation (fst e, q) s)), snd (operation (fst e, q) s))
      | Inr b \<Rightarrow> (b, s))"

lemma client_op_simulation:
  assumes "\<And>e s t. R s t \<Longrightarrow> fst (f e s) = fst (g e t) \<and> R (snd (f e s)) (snd (g e t))" and "R s t"
  shows "fst (client_op prepare reply f e s) = fst (client_op prepare reply g e t) \<and>
    R (snd (client_op prepare reply f e s)) (snd (client_op prepare reply g e t))"
  using assms by (simp add: client_op_def split: sum.split)

text \<open>Serial executions of clients that all enter the program, and of clients that all do not.\<close>

lemma serial_admitted:
  "\<forall>(i, t, q) \<in> set order. prepare (as ! i) = Inl q \<Longrightarrow>
     serial (client_op prepare reply operation) s (map (\<lambda>(i, t, q). (t, as ! i)) order) =
       (map reply (fst (serial operation s (map snd order))), snd (serial operation s (map snd order)))"
  by (induction order arbitrary: s) (auto simp: client_op_def)

lemma serial_refused:
  "\<forall>i \<in> set is. prepare (as ! i) = Inr (f i) \<Longrightarrow>
     serial (client_op prepare reply operation) s (map (\<lambda>i. (t, as ! i)) is) = (map f is, s)"
  by (induction "is") (simp_all add: client_op_def)

text \<open>Both together: first those of an order of operations, then those that answer by themselves.\<close>

definition client_turns :: "(nat \<times> 't \<times> 'q) list \<Rightarrow> nat list \<Rightarrow> (nat \<times> 't) list" where
  "client_turns order is = map (\<lambda>(i, t, q). (i, t)) order @ map (\<lambda>i. (i, undefined)) is"

lemma client_turns_fst: "map fst (client_turns order is) = map fst order @ is"
  by (simp add: client_turns_def case_prod_unfold comp_def)

lemma client_turns_set: "fst ` set (client_turns order is) = fst ` set order \<union> set is"
  by (metis client_turns_fst set_append set_map)

lemma client_turns_run:
  assumes "\<forall>(i, t, q) \<in> set order. prepare (as ! i) = Inl q" and "\<forall>i \<in> set is. prepare (as ! i) = Inr (f i)"
  shows "serial (client_op prepare reply operation) s (map (\<lambda>(i, t). (t, as ! i)) (client_turns order is)) =
    (map reply (fst (serial operation s (map snd order))) @ map f is, snd (serial operation s (map snd order)))"
proof -
  have "map (\<lambda>(i, t). (t, as ! i)) (client_turns order is) =
      map (\<lambda>(i, t, q). (t, as ! i)) order @ map (\<lambda>i. (undefined, as ! i)) is"
    by (simp add: client_turns_def case_prod_unfold)
  then show ?thesis
    by (simp add: serial_append serial_admitted[OF assms(1)] serial_refused[OF assms(2)])
qed

section \<open>Clients of a locked program\<close>

locale front_end = lock_program operation snd request answer critical inside act first thread_inv rank start_ok
  for operation :: "'t \<times> 'q \<Rightarrow> 's \<Rightarrow> 'r \<times> 's" and request :: "'p \<Rightarrow> 'q option"
    and answer :: "'p \<Rightarrow> 'r option" and critical :: "'p \<Rightarrow> bool" and inside :: "'s \<Rightarrow> 'p \<Rightarrow> 's \<Rightarrow> bool"
    and act :: "('p, 's) action" and first :: "'q \<Rightarrow> 'p" and thread_inv :: "'p \<Rightarrow> bool"
    and rank :: "'p \<Rightarrow> nat" and start_ok :: "'s \<Rightarrow> bool" +
  fixes prepare :: "'a \<Rightarrow> 'q + 'b" and reply :: "'r \<Rightarrow> 'b"
begin

text \<open>
  The locked program of a run of clients: a client that answers by itself is a thread that never
  starts.
\<close>

definition program_request :: "'a \<Rightarrow> 'q" where
  "program_request a = (case prepare a of Inl q \<Rightarrow> q | Inr b \<Rightarrow> undefined)"

fun program_thread :: "('a, 'p, 'b) client \<Rightarrow> 'p" where
  "program_thread (Arrived a) = first (program_request a)"
| "program_thread (Admitted p) = p"
| "program_thread (Replied b) = first undefined"

definition project :: "(('a, 'p, 'b) client, 's) config \<Rightarrow> ('p, 's) config" where
  "project c = \<lparr>cf_owner = cf_owner c, cf_threads = map program_thread (cf_threads c), cf_shared = cf_shared c\<rparr>"

abbreviation clients :: "'s \<Rightarrow> 'a list \<Rightarrow> (('a, 'p, 'b) client, 's) config \<Rightarrow> bool" where
  "clients s as \<equiv> reachable (client_action prepare first act) (launch Arrived s as)"

lemma project_step:
  assumes "par_step (client_action prepare first act) c c'"
  shows "project c' = project c \<or> par_step act (project c) (project c')"
  using assms
proof cases
  case (par_step i owner p shared)
  from par_step(3) show ?thesis
  proof cases
    case (admit a q)
    then have "map program_thread (cf_threads c) ! i = first q"
      using par_step(2) by (simp add: program_request_def)
    then have "(map program_thread (cf_threads c))[i := first q] = map program_thread (cf_threads c)"
      by (metis list_update_id)
    with admit par_step show ?thesis by (simp add: project_def map_update)
  next
    case (refuse a b)
    then have "map program_thread (cf_threads c) ! i = first undefined"
      using par_step(2) by (simp add: program_request_def)
    then have "(map program_thread (cf_threads c))[i := first undefined] = map program_thread (cf_threads c)"
      by (metis list_update_id)
    with refuse par_step show ?thesis by (simp add: project_def map_update)
  next
    case (work p p')
    with par_step par_step.par_step[of i "project c" act owner p' shared] show ?thesis
      by (simp add: project_def map_update)
  qed
qed

lemma project_reachable:
  "clients s as c \<Longrightarrow> reachable act (launch first s (map program_request as)) (project c)"
proof (induction rule: reachable.induct)
  case start
  have "project (launch Arrived s as) = launch first s (map program_request as)"
    by (simp add: project_def launch_def)
  then show ?case by (simp add: reachable.start)
next
  case (more c c')
  then show ?case using project_step reachable.more by metis
qed

text \<open>Where a client is agrees with what its request asks for.\<close>

fun client_ok :: "'a \<Rightarrow> ('a, 'p, 'b) client \<Rightarrow> bool" where
  "client_ok a (Arrived a') = (a' = a)"
| "client_ok a (Admitted p) = (\<exists>q. prepare a = Inl q)"
| "client_ok a (Replied b) = (prepare a = Inr b)"

lemma clients_ok: "clients s as c \<Longrightarrow> list_all2 client_ok as (cf_threads c)"
proof (induction rule: reachable.induct)
  case start
  then show ?case by (simp add: launch_def list_all2_conv_all_nth)
next
  case (more c c')
  from more.hyps(2) show ?case
  proof cases
    case (par_step i owner p shared)
    have "client_ok (as ! i) p"
      using par_step(3) list_all2_nthD2[OF more.IH par_step(2)] by cases auto
    with more.IH par_step show ?thesis by (simp add: list_all2_conv_all_nth nth_list_update)
  qed
qed

lemma answered_admitted:
  assumes "clients s as c" and "i < length as" and "answer (cf_threads (project c) ! i) = Some r"
  shows "\<exists>p. cf_threads c ! i = Admitted p \<and> answer p = Some r \<and> prepare (as ! i) = Inl (program_request (as ! i))"
proof -
  note ok = clients_ok[OF assms(1)]
  have n: "i < length (cf_threads c)" using ok assms(2) by (simp add: list_all2_lengthD)
  then show ?thesis
    using assms(3) first(1) list_all2_nthD[OF ok assms(2)]
    by (cases "cf_threads c ! i") (auto simp: project_def program_request_def)
qed

text \<open>The clients that answered by themselves.\<close>

definition refused :: "(('a, 'p, 'b) client, 's) config \<Rightarrow> nat list" where
  "refused c = filter (\<lambda>i. \<exists>b. cf_threads c ! i = Replied b) [0..<length (cf_threads c)]"

lemma client_answered_iff:
  assumes "clients s as c" and "i < length as"
  shows "(\<exists>b. client_answer reply answer (cf_threads c ! i) = Some b) \<longleftrightarrow>
    (\<exists>r. answer (cf_threads (project c) ! i) = Some r) \<or> i \<in> set (refused c)"
proof -
  have "i < length (cf_threads c)" using clients_ok[OF assms(1)] assms(2) by (simp add: list_all2_lengthD)
  then show ?thesis
    by (cases "cf_threads c ! i") (auto simp: project_def refused_def first(1))
qed

lemma refused_replied:
  assumes "clients s as c" and "i \<in> set (refused c)"
  shows "i < length as" "prepare (as ! i) = Inr (projr (prepare (as ! i)))"
    "cf_threads c ! i = Replied (projr (prepare (as ! i)))"
proof -
  note ok = clients_ok[OF assms(1)]
  show "i < length as" using assms(2) list_all2_lengthD[OF ok] by (simp add: refused_def)
  from list_all2_nthD[OF ok this] assms(2) show "prepare (as ! i) = Inr (projr (prepare (as ! i)))"
    "cf_threads c ! i = Replied (projr (prepare (as ! i)))"
    by (auto simp: refused_def)
qed

text \<open>What the serial order of the locked program says of the clients.\<close>

lemma clients_order:
  assumes c: "clients s as c" and "start_ok s"
  obtains order where "distinct (map fst order @ refused c)"
    "\<forall>(i, t, q) \<in> set order. i < length as \<and> prepare (as ! i) = Inl q"
    "\<forall>i < length as. (\<exists>r. answer (cf_threads (project c) ! i) = Some r) \<longleftrightarrow> i \<in> fst ` set order"
    "\<forall>k < length order. \<exists>p. cf_threads c ! fst (order ! k) = Admitted p \<and> answer p = Some (results_of s order ! k)"
    "cf_owner c = None \<longrightarrow> cf_shared c = state_of s order"
proof -
  let ?threads = "cf_threads (project c)"
  from serializable[OF project_reachable[OF c] assms(2)] obtain order where
    d: "distinct (map fst order)" and ev: "\<forall>(i, e) \<in> set order. i < length as \<and> snd e = map program_request as ! i"
    and answered: "\<forall>i < length as. (\<exists>r. answer (?threads ! i) = Some r) \<longleftrightarrow> i \<in> fst ` set order"
    and results: "\<forall>k < length order. answer (?threads ! fst (order ! k)) = Some (results_of s order ! k)"
    and state: "cf_owner c = None \<longrightarrow> cf_shared c = state_of s order"
    by (auto simp: project_def)
  have admitted: "i < length as \<and> (\<exists>p. cf_threads c ! i = Admitted p) \<and> prepare (as ! i) = Inl q"
    if "(i, t, q) \<in> set order" for i t q
  proof -
    from that ev have i: "i < length as" "q = program_request (as ! i)" by auto
    with answered that obtain r where "answer (?threads ! i) = Some r" by force
    from answered_admitted[OF c i(1) this] i show ?thesis by blast
  qed
  have answers: "\<exists>p. cf_threads c ! fst (order ! k) = Admitted p \<and> answer p = Some (results_of s order ! k)"
    if "k < length order" for k
  proof -
    have "fst (order ! k) < length as"
      using nth_mem[OF that] admitted by (metis prod.collapse)
    with answered_admitted[OF c this] results that show ?thesis by blast
  qed
  have "distinct (map fst order @ refused c)"
  proof -
    have False if "i \<in> fst ` set order" "i \<in> set (refused c)" for i
    proof -
      from that(1) obtain t q where "(i, t, q) \<in> set order" by auto
      from admitted[OF this] refused_replied(2)[OF c that(2)] show False by simp
    qed
    then show ?thesis using d by (auto simp: refused_def)
  qed
  moreover have "\<forall>(i, t, q) \<in> set order. i < length as \<and> prepare (as ! i) = Inl q" using admitted by auto
  moreover have "\<forall>k < length order. \<exists>p. cf_threads c ! fst (order ! k) = Admitted p \<and>
      answer p = Some (results_of s order ! k)"
    using answers by blast
  ultimately show thesis using answered state by (intro that[of order])
qed

lemma clients_serializable:
  assumes c: "clients s as c" and "start_ok s"
  shows "\<exists>turns. distinct (map fst turns) \<and> fst ` set turns \<subseteq> {..<length as} \<and>
    (\<forall>i < length as. (\<exists>b. client_answer reply answer (cf_threads c ! i) = Some b) \<longleftrightarrow> i \<in> fst ` set turns) \<and>
    (\<forall>k < length turns. client_answer reply answer (cf_threads c ! fst (turns ! k)) =
       Some (fst (serial (client_op prepare reply operation) s (map (\<lambda>(i, t). (t, as ! i)) turns)) ! k)) \<and>
    (cf_owner c = None \<longrightarrow>
       cf_shared c = snd (serial (client_op prepare reply operation) s (map (\<lambda>(i, t). (t, as ! i)) turns)))"
proof -
  obtain order where d: "distinct (map fst order @ refused c)"
    and ev: "\<forall>(i, t, q) \<in> set order. i < length as \<and> prepare (as ! i) = Inl q"
    and answered: "\<forall>i < length as. (\<exists>r. answer (cf_threads (project c) ! i) = Some r) \<longleftrightarrow> i \<in> fst ` set order"
    and results: "\<forall>k < length order. \<exists>p. cf_threads c ! fst (order ! k) = Admitted p \<and> answer p = Some (results_of s order ! k)"
    and state: "cf_owner c = None \<longrightarrow> cf_shared c = state_of s order"
    using clients_order[OF assms] by blast
  let ?turns = "client_turns order (refused c)"
  note run = client_turns_run[of order prepare as "refused c" "\<lambda>i. projr (prepare (as ! i))" reply operation s]
  have run: "serial (client_op prepare reply operation) s (map (\<lambda>(i, t). (t, as ! i)) ?turns) =
      (map reply (results_of s order) @ map (\<lambda>i. projr (prepare (as ! i))) (refused c), state_of s order)"
    by (rule run) (use ev refused_replied(2)[OF c] in auto)
  have "client_answer reply answer (cf_threads c ! fst (?turns ! k)) =
      Some ((map reply (results_of s order) @ map (\<lambda>i. projr (prepare (as ! i))) (refused c)) ! k)"
    if "k < length ?turns" for k
  proof -
    have "fst (?turns ! k) = (map fst order @ refused c) ! k"
      using that client_turns_fst[of order "refused c"] by (metis nth_map)
    moreover have "length ?turns = length order + length (refused c)" by (simp add: client_turns_def)
    ultimately show ?thesis
      using that results refused_replied(3)[OF c] by (cases "k < length order") (fastforce simp: nth_append)+
  qed
  moreover have "fst ` set ?turns \<subseteq> {..<length as}"
    unfolding client_turns_set using ev refused_replied(1)[OF c] by auto
  ultimately show ?thesis
    using d answered client_answered_iff[OF c] state
    by (intro exI[of _ ?turns]) (simp add: run client_turns_fst client_turns_set)
qed

text \<open>Runs of the clients end, and only when all have their answer.\<close>

fun client_rank :: "('a, 'p, 'b) client \<Rightarrow> nat" where
  "client_rank (Arrived a) = (case prepare a of Inl q \<Rightarrow> rank (first q) + 1 | Inr b \<Rightarrow> 1)"
| "client_rank (Admitted p) = rank p"
| "client_rank (Replied b) = 0"

lemma client_step_work:
  "par_step (client_action prepare first act) c c' \<Longrightarrow> work client_rank c' < work client_rank c"
proof (induction rule: par_step.induct)
  case (par_step i c owner p shared)
  from par_step(2) have "client_rank p < client_rank (cf_threads c ! i)"
    by cases (simp_all add: act_rank)
  with par_step(1) show ?case by (simp add: work_def sum_list_update_less)
qed

lemma client_step_exists:
  assumes c: "clients s as c" and "start_ok s" and "\<not> all_answered (client_answer reply answer) c"
  shows "\<exists>c'. par_step (client_action prepare first act) c c'"
proof -
  obtain order where o: "consistent s (map program_request as) order (cf_owner c) (map program_thread (cf_threads c)) (cf_shared c)"
    using reachable_ok[OF project_reachable[OF c] assms(2)] by (auto simp: config_ok_def project_def)
  obtain i where i: "i < length (cf_threads c)" "client_answer reply answer (cf_threads c ! i) = None"
    using assms(3) by (auto simp: all_answered_def list_all_length)
  have admitted: ?thesis if "j < length (cf_threads c)" "cf_threads c ! j = Admitted p" "answer p = None"
    "critical p \<or> cf_owner c = None" for j p
  proof -
    from act_enabled[OF assms(2) o, of j] that obtain owner' p' sh' where
      "act j (cf_owner c) p (cf_shared c) owner' p' sh'" by auto
    from client_action.work[of act j, OF this] that show ?thesis by (metis par_step.par_step)
  qed
  show ?thesis
  proof (cases "cf_threads c ! i")
    case (Arrived a)
    then show ?thesis using i(1)
      by (cases "prepare a") (metis client_action.admit client_action.refuse par_step.par_step)+
  next
    case (Admitted p)
    show ?thesis
    proof (cases "cf_owner c")
      case None
      with Admitted i show ?thesis using admitted[of i p] by simp
    next
      case (Some k)
      then have k: "k < length (cf_threads c)" using o by (simp add: consistent_def)
      with consistentD(4)[OF o, of k] Some have "critical (program_thread (cf_threads c ! k))" by simp
      with k show ?thesis using admitted[of k] first(3) critical_unanswered by (cases "cf_threads c ! k") auto
    qed
  qed (use i in simp)
qed

lemma clients_complete:
  assumes "clients s as c" and "start_ok s"
  shows "\<exists>c'. (par_step (client_action prepare first act))\<^sup>*\<^sup>* c c' \<and> all_answered (client_answer reply answer) c'"
  using run_to_end[of "clients s as" c "par_step (client_action prepare first act)" "work client_rank"
      "all_answered (client_answer reply answer)", OF assms(1)]
    reachable.more client_step_work client_step_exists assms(2) by blast

lemma clients_completed:
  "start_ok s \<Longrightarrow> \<exists>c. clients s as c \<and> all_answered (client_answer reply answer) c"
  using clients_complete reachable.start reachable_steps by blast

end

end
