(* ===== verification/Parallel_Program.thy ===== *)
theory Parallel_Program
  imports Deployment Nested_Locks Front_End
begin

text \<open>
  The whole program under parallel requests: the HTTP library runs a callback per request, each in
  a thread of its own. A callback validates its request without any lock, calls the service, which
  takes its lock and inside it the audit repository's, and renders the result after both are
  released. All these steps interleave freely. The responses, the database and the audit file are
  those of the specification, serving the requests one after another in some order.
\<close>

section \<open>Callbacks as clients of the service\<close>

type_synonym http_request = "http_method \<times> string \<times> Request"

definition http_prepare ::
  "routing \<Rightarrow> (http_method \<Rightarrow> string \<Rightarrow> Response) \<Rightarrow> (string \<Rightarrow> json option) \<Rightarrow> printer \<Rightarrow> http_request
     \<Rightarrow> string + Response throws" where
  "http_prepare route unmatched json_parse dump q =
     (case q of (m, path, request) \<Rightarrow>
        (case route HttpServer m path of
           None \<Rightarrow> Inr (Inr (unmatched m path))
         | Some QueryHandler \<Rightarrow> validate_query_request json_parse dump request new_response
         | Some HealthHandler \<Rightarrow> Inr (handle_health_request dump new_response)))"

definition http_reply :: "printer \<Rightarrow> ServiceResult \<Rightarrow> Response throws" where
  "http_reply dump result = respond dump result new_response"

text \<open>One request after another, this is the dispatch of the sequential program.\<close>

lemma http_step_client:
  "http_step route unmatched json_parse dump ad =
     client_op (http_prepare route unmatched json_parse dump) (http_reply dump) (\<lambda>(ts, sql). handle ad ts sql)"
proof (intro ext)
  fix ev :: http_event and s
  obtain ts m path request where ev: "ev = (ts, m, path, request)" by (metis prod.collapse)
  show "http_step route unmatched json_parse dump ad ev s =
      client_op (http_prepare route unmatched json_parse dump) (http_reply dump) (\<lambda>(ts, sql). handle ad ts sql) ev s"
    by (simp add: ev http_step_def http_dispatch_def run_handler_def http_prepare_def http_reply_def client_op_def
        handle_query_request_validates split: option.split handler.split sum.split)
qed

interpretation http: front_end "nested_op (stream_adapters dump ad)" nested_sql nested_answer nested_critical
  "nested_inside dump (stream_adapters dump ad)" "nested_action dump (stream_adapters dump ad)"
  "\<lambda>sql. Outer (Ready sql)" "nested_printed dump" nested_rank quiet
  "http_prepare route unmatched json_parse dump" "http_reply dump" for dump ad route unmatched json_parse
  by (intro front_end.intro nested.lock_program_axioms)

abbreviation http_action ::
  "routing \<Rightarrow> (http_method \<Rightarrow> string \<Rightarrow> Response) \<Rightarrow> (string \<Rightarrow> json option) \<Rightarrow> printer \<Rightarrow> ('db, ofstream) Adapters
     \<Rightarrow> ((http_request, nested_pc, Response throws) client, 'db nested_state) action" where
  "http_action route unmatched json_parse dump ad \<equiv>
     client_action (http_prepare route unmatched json_parse dump) (\<lambda>sql. Outer (Ready sql))
       (nested_action dump (stream_adapters dump ad))"

abbreviation http_answer :: "printer \<Rightarrow> (http_request, nested_pc, Response throws) client \<Rightarrow> Response throws option" where
  "http_answer dump \<equiv> client_answer (http_reply dump) nested_answer"

abbreviation http_serving ::
  "routing \<Rightarrow> (http_method \<Rightarrow> string \<Rightarrow> Response) \<Rightarrow> (string \<Rightarrow> json option) \<Rightarrow> printer \<Rightarrow> ('db, ofstream) Adapters
     \<Rightarrow> ('db, ofstream) ProxyService \<Rightarrow> http_request list
     \<Rightarrow> ((http_request, nested_pc, Response throws) client, 'db nested_state) config \<Rightarrow> bool" where
  "http_serving route unmatched json_parse dump ad s reqs \<equiv>
     reachable (http_action route unmatched json_parse dump ad) (launch Arrived (None, over_stream s) reqs)"

section \<open>The specification of the program\<close>

definition spec_program ::
  "routing \<Rightarrow> (http_method \<Rightarrow> string \<Rightarrow> Response) \<Rightarrow> (string \<Rightarrow> json option) \<Rightarrow> printer \<Rightarrow> ('db, ofstream) Adapters
     \<Rightarrow> http_event \<Rightarrow> 'db spec_state \<Rightarrow> Response throws \<times> 'db spec_state" where
  "spec_program route unmatched json_parse dump ad =
     client_op (http_prepare route unmatched json_parse dump) (http_reply dump)
       (spec_step (analyzed_by ad) (executed_by ad) default_mappings)"

lemma spec_program_ids:
  "map ar_request_id (sp_trail (snd (serial (spec_program route unmatched json_parse dump ad)
       \<lparr>sp_db = db, sp_next_id = 1, sp_trail = []\<rparr> evs))) =
     map (\<lambda>k. 1 + of_nat k) [0..<length (sp_trail (snd (serial (spec_program route unmatched json_parse dump ad)
       \<lparr>sp_db = db, sp_next_id = 1, sp_trail = []\<rparr> evs)))]"
proof -
  define P :: "'a spec_state \<Rightarrow> bool" where "P st \<longleftrightarrow> sp_next_id st = 1 + of_nat (length (sp_trail st)) \<and>
     map ar_request_id (sp_trail st) = map (\<lambda>k. 1 + of_nat k) [0..<length (sp_trail st)]" for st
  have "length (sp_trail (snd (spec_step analysis run m e st))) = Suc (length (sp_trail st))" for analysis run m e and st :: "'a spec_state"
    by (simp add: spec_step_def Let_def case_prod_unfold)
  then have "P (snd (spec_program route unmatched json_parse dump ad e st))" if "P st" for e st
    using that by (simp add: P_def spec_program_def client_op_def spec_step_next split: sum.split)
  from serial_invariant[where P = P and f = "spec_program route unmatched json_parse dump ad", OF _ this]
  show ?thesis by (simp add: P_def)
qed

text \<open>The simulation, from the program with its locks and its stream to the specification.\<close>

definition program_simulates ::
  "printer \<Rightarrow> ('db, ofstream) ProxyService \<Rightarrow> 'db nested_state \<Rightarrow> 'db spec_state \<Rightarrow> bool" where
  "program_simulates dump s\<^sub>0 ns st \<longleftrightarrow>
     (\<exists>s. ns = (None, over_stream s) \<and> production_service.simulates dump s\<^sub>0 s st)"

lemma program_simulates_step:
  assumes "program_simulates dump s\<^sub>0 ns st"
    and "\<forall>sql r. hyrise_parse fpos hp sql = Inr r \<longrightarrow> length (pr_statements r) < 2 ^ 31"
  shows "fst (nested_op (stream_adapters dump (production_adapters fpos hp px config dump)) e ns) =
      fst (spec_step (analyzed_by (production_adapters fpos hp px config dump))
        (executed_by (production_adapters fpos hp px config dump)) (sv_classifier s\<^sub>0) e st) \<and>
    program_simulates dump s\<^sub>0 (snd (nested_op (stream_adapters dump (production_adapters fpos hp px config dump)) e ns))
      (snd (spec_step (analyzed_by (production_adapters fpos hp px config dump))
        (executed_by (production_adapters fpos hp px config dump)) (sv_classifier s\<^sub>0) e st))"
proof -
  let ?ad = "production_adapters fpos hp px config dump"
  obtain s where s: "ns = (None, over_stream s)" "production_service.simulates dump s\<^sub>0 s st"
    using assms(1) by (auto simp: program_simulates_def)
  have "nested_op (stream_adapters dump ?ad) e ns =
      (fst (handle ?ad (fst e) (snd e) s), (None, over_stream (snd (handle ?ad (fst e) (snd e) s))))"
    using handle_stream[of ?ad dump "fst e" "snd e" s] by (simp add: nested_op_def s(1))
  with production_service.handle_simulates[OF s(2), where fpos = fpos and hp = hp and px = px and config = config
      and sql = "snd e" and ts = "fst e"] assms(2) show ?thesis
    by (auto simp: program_simulates_def)
qed

lemma program_run_simulates:
  assumes "main getenv open_audit listen db g = Some x" and "xt_wiring x = Some w"
    and "healthy_file dump (open_audit (wi_audit_path w))"
    and "\<forall>sql r. hyrise_parse fpos hp sql = Inr r \<longrightarrow> length (pr_statements r) < 2 ^ 31"
    and ad: "ad = production_adapters fpos hp px (wi_database w) dump"
  shows "fst (serial (client_op (http_prepare route unmatched json_parse dump) (http_reply dump)
        (nested_op (stream_adapters dump ad))) (None, over_stream (wi_service w)) evs) =
      fst (serial (spec_program route unmatched json_parse dump ad) \<lparr>sp_db = db, sp_next_id = 1, sp_trail = []\<rparr> evs) \<and>
    program_simulates dump (wi_service w)
      (snd (serial (client_op (http_prepare route unmatched json_parse dump) (http_reply dump)
        (nested_op (stream_adapters dump ad))) (None, over_stream (wi_service w)) evs))
      (snd (serial (spec_program route unmatched json_parse dump ad) \<lparr>sp_db = db, sp_next_id = 1, sp_trail = []\<rparr> evs))"
proof (rule serial_simulation[where R = "program_simulates dump (wi_service w)"])
  note s = main_service[OF assms(1,2)]
  show "program_simulates dump (wi_service w) (None, over_stream (wi_service w)) \<lparr>sp_db = db, sp_next_id = 1, sp_trail = []\<rparr>"
    using assms(3) s by (auto simp: program_simulates_def production_service.simulates_def)
  show "fst (client_op (http_prepare route unmatched json_parse dump) (http_reply dump) (nested_op (stream_adapters dump ad)) e ns) =
      fst (spec_program route unmatched json_parse dump ad e st) \<and>
    program_simulates dump (wi_service w)
      (snd (client_op (http_prepare route unmatched json_parse dump) (http_reply dump) (nested_op (stream_adapters dump ad)) e ns))
      (snd (spec_program route unmatched json_parse dump ad e st))"
    if "program_simulates dump (wi_service w) ns st" for e ns st
    using client_op_simulation[where R = "program_simulates dump (wi_service w)", OF _ that]
      program_simulates_step[OF _ assms(4), of dump "wi_service w"]
    unfolding spec_program_def s(1) ad by blast
qed

section \<open>Properties\<close>

text \<open>
  C12. The parallel program implements its specification: let the process have started and its audit
  file be open over a device that works. However the threads of the HTTP server interleave, with
  every step of a callback, of the service and of the audit repository on its own, the requests
  answered so far can be put in an order, each with a clock reading, in which each response is the
  one that the specification gives, serving them one after another; while the service's lock is
  free, the database is the specification's and the audit file is what it was plus the lines of its
  trail, numbered from 1 on; and every request can be answered. (No text may be parsed into 2 to the
  31 statements.)
\<close>

theorem parallel_program_refines_spec:
  assumes "main getenv open_audit listen db g = Some x" and "xt_wiring x = Some w"
    and "healthy_file dump (open_audit (wi_audit_path w))"
    and "\<forall>sql r. hyrise_parse fpos hp sql = Inr r \<longrightarrow> length (pr_statements r) < 2 ^ 31"
    and "http_serving route unmatched json_parse dump (production_adapters fpos hp px (wi_database w) dump)
      (wi_service w) reqs c"
  shows "(\<exists>turns. distinct (map fst turns) \<and>
      (\<forall>i < length reqs. (\<exists>r. http_answer dump (cf_threads c ! i) = Some r) \<longleftrightarrow> i \<in> fst ` set turns) \<and>
      (let (responses, st) = serial
             (spec_program route unmatched json_parse dump (production_adapters fpos hp px (wi_database w) dump))
             \<lparr>sp_db = db, sp_next_id = 1, sp_trail = []\<rparr> (map (\<lambda>(i, ts). (ts, reqs ! i)) turns)
       in (\<forall>k < length turns. http_answer dump (cf_threads c ! fst (turns ! k)) = Some (responses ! k)) \<and>
          (cf_owner c = None \<longrightarrow>
             sv_db (snd (cf_shared c)) = sp_db st \<and>
             os_content (st_file (sv_sink (snd (cf_shared c)))) =
               os_content (open_audit (wi_audit_path w)) @ concat (map (jsonl_line dump) (sp_trail st)) \<and>
             map ar_request_id (sp_trail st) = map (\<lambda>k. 1 + of_nat k) [0..<length (sp_trail st)]))) \<and>
    (\<exists>c'. (par_step (http_action route unmatched json_parse dump
         (production_adapters fpos hp px (wi_database w) dump)))\<^sup>*\<^sup>* c c' \<and> all_answered (http_answer dump) c')"
proof
  let ?ad = "production_adapters fpos hp px (wi_database w) dump" and ?s = "wi_service w"
  let ?op = "client_op (http_prepare route unmatched json_parse dump) (http_reply dump) (nested_op (stream_adapters dump ?ad))"
  let ?spec = "spec_program route unmatched json_parse dump ?ad"
  let ?st = "\<lparr>sp_db = db, sp_next_id = 1, sp_trail = []\<rparr>"
  note s = main_service[OF assms(1,2)]
  note sim = program_run_simulates[OF assms(1-4) refl, where px = px and route = route and unmatched = unmatched and json_parse = json_parse]
  from http.clients_serializable[OF assms(5) over_stream_quiet] obtain turns where
    t: "distinct (map fst turns)"
      "\<forall>i < length reqs. (\<exists>r. http_answer dump (cf_threads c ! i) = Some r) \<longleftrightarrow> i \<in> fst ` set turns"
      "\<forall>k < length turns. http_answer dump (cf_threads c ! fst (turns ! k)) =
         Some (fst (serial ?op (None, over_stream ?s) (map (\<lambda>(i, t). (t, reqs ! i)) turns)) ! k)"
      "cf_owner c = None \<longrightarrow> cf_shared c = snd (serial ?op (None, over_stream ?s) (map (\<lambda>(i, t). (t, reqs ! i)) turns))"
    by (elim exE conjE)
  let ?evs = "map (\<lambda>(i, ts). (ts, reqs ! i)) turns"
  have "sv_db (snd (cf_shared c)) = sp_db (snd (serial ?spec ?st ?evs)) \<and>
      os_content (st_file (sv_sink (snd (cf_shared c)))) =
        os_content (open_audit (wi_audit_path w)) @ concat (map (jsonl_line dump) (sp_trail (snd (serial ?spec ?st ?evs))))"
    if "cf_owner c = None"
    using t(4) that sim[where evs = ?evs] s(4) by (auto simp: program_simulates_def production_service.simulates_def)
  with t sim[where evs = ?evs] spec_program_ids[of route unmatched json_parse dump ?ad db ?evs]
  show "\<exists>turns. distinct (map fst turns) \<and>
      (\<forall>i < length reqs. (\<exists>r. http_answer dump (cf_threads c ! i) = Some r) \<longleftrightarrow> i \<in> fst ` set turns) \<and>
      (let (responses, st) = serial ?spec ?st (map (\<lambda>(i, ts). (ts, reqs ! i)) turns)
       in (\<forall>k < length turns. http_answer dump (cf_threads c ! fst (turns ! k)) = Some (responses ! k)) \<and>
          (cf_owner c = None \<longrightarrow>
             sv_db (snd (cf_shared c)) = sp_db st \<and>
             os_content (st_file (sv_sink (snd (cf_shared c)))) =
               os_content (open_audit (wi_audit_path w)) @ concat (map (jsonl_line dump) (sp_trail st)) \<and>
             map ar_request_id (sp_trail st) = map (\<lambda>k. 1 + of_nat k) [0..<length (sp_trail st)]))"
    by (intro exI[of _ turns]) (simp add: case_prod_unfold Let_def)
qed (rule http.clients_complete[OF assms(5) over_stream_quiet])

theorem parallel_program_refines_spec_witness:
  "\<exists>x w c turns. main demo_env (\<lambda>_. demo_file) (\<lambda>_. True) ([] :: string list) None = Some x \<and> xt_wiring x = Some w \<and>
     http_serving literal_route (\<lambda>_ _. demo_response) demo_body (\<lambda>j. Inr (compact j))
       (production_adapters (\<lambda>v. 0 < v) demo_hsql (demo_pqxx 1) (wi_database w) (\<lambda>j. Inr (compact j)))
       (wi_service w) (map snd demo_requests) c \<and>
     {0, 1} \<subseteq> fst ` set turns \<and>
     (\<forall>k < length turns. http_answer (\<lambda>j. Inr (compact j)) (cf_threads c ! fst (turns ! k)) =
        Some (fst (serial (spec_program literal_route (\<lambda>_ _. demo_response) demo_body (\<lambda>j. Inr (compact j))
            (production_adapters (\<lambda>v. 0 < v) demo_hsql (demo_pqxx 1) (wi_database w) (\<lambda>j. Inr (compact j))))
          \<lparr>sp_db = [], sp_next_id = 1, sp_trail = []\<rparr> (map (\<lambda>(i, ts). (ts, map snd demo_requests ! i)) turns)) ! k))"
proof -
  let ?dump = "\<lambda>j. Inr (compact j)"
  obtain x w where x: "main demo_env (\<lambda>_. demo_file) (\<lambda>_. True) ([] :: string list) None = Some x" "xt_wiring x = Some w"
    using demo_started by blast
  let ?ad = "production_adapters (\<lambda>v. 0 < v) demo_hsql (demo_pqxx 1) (wi_database w) ?dump"
  obtain c where c: "http_serving literal_route (\<lambda>_ _. demo_response) demo_body ?dump ?ad (wi_service w) (map snd demo_requests) c"
    "all_answered (http_answer ?dump) c"
    using http.clients_completed[OF over_stream_quiet] by blast
  have two: "length (map snd demo_requests) = 2" by (simp add: demo_requests_def)
  then have "length (cf_threads c) = 2" using list_all2_lengthD[OF http.clients_ok[OF c(1)]] by simp
  with c(2) have answered: "\<exists>r. http_answer ?dump (cf_threads c ! i) = Some r" if "i < 2" for i
    using that by (simp add: all_answered_def list_all_length)
  from parallel_program_refines_spec[OF x demo_file_open demo_small c(1)] obtain turns where
    "\<forall>i < 2. (\<exists>r. http_answer ?dump (cf_threads c ! i) = Some r) \<longleftrightarrow> i \<in> fst ` set turns"
    and t: "\<forall>k < length turns. http_answer ?dump (cf_threads c ! fst (turns ! k)) =
       Some (fst (serial (spec_program literal_route (\<lambda>_ _. demo_response) demo_body ?dump ?ad)
          \<lparr>sp_db = [], sp_next_id = 1, sp_trail = []\<rparr> (map (\<lambda>(i, ts). (ts, map snd demo_requests ! i)) turns)) ! k)"
    unfolding case_prod_unfold Let_def two by (elim conjE exE)
  with answered have "{0, 1} \<subseteq> fst ` set turns" by simp
  with x c(1) t show ?thesis by (intro exI[of _ x] exI[of _ w] exI[of _ c] exI[of _ turns] conjI)
qed

end
