(* ===== verification/Utf8_Masking.thy ===== *)
theory Utf8_Masking
  imports Pii_Masker
begin

text \<open>
  The masked values as text. \<open>mask_email\<close> keeps the first byte of a value only when it is
  ASCII, so that no partial multibyte character is emitted: with the definition of well-formed
  UTF-8 below (the byte ranges of RFC 3629), masking turns well-formed text into well-formed text.
\<close>

definition continuation :: "char \<Rightarrow> bool" where
  "continuation c \<longleftrightarrow> 128 \<le> byte c \<and> byte c \<le> 191"

text \<open>The second byte of a three-byte and of a four-byte sequence, by the first.\<close>

definition second_of_three :: "char \<Rightarrow> char \<Rightarrow> bool" where
  "second_of_three a b \<longleftrightarrow>
     continuation b \<and> (byte a = 224 \<longrightarrow> 160 \<le> byte b) \<and> (byte a = 237 \<longrightarrow> byte b \<le> 159)"

definition second_of_four :: "char \<Rightarrow> char \<Rightarrow> bool" where
  "second_of_four a b \<longleftrightarrow>
     continuation b \<and> (byte a = 240 \<longrightarrow> 144 \<le> byte b) \<and> (byte a = 244 \<longrightarrow> byte b \<le> 143)"

fun valid_utf8 :: "string \<Rightarrow> bool" where
  "valid_utf8 [] = True"
| "valid_utf8 (a # s) =
     (if byte a < 128 then valid_utf8 s
      else if 194 \<le> byte a \<and> byte a \<le> 223 then
        (case s of b # t \<Rightarrow> continuation b \<and> valid_utf8 t | _ \<Rightarrow> False)
      else if 224 \<le> byte a \<and> byte a \<le> 239 then
        (case s of b # c # t \<Rightarrow> second_of_three a b \<and> continuation c \<and> valid_utf8 t | _ \<Rightarrow> False)
      else if 240 \<le> byte a \<and> byte a \<le> 244 then
        (case s of b # c # d # t \<Rightarrow> second_of_four a b \<and> continuation c \<and> continuation d \<and> valid_utf8 t
         | _ \<Rightarrow> False)
      else False)"

lemma ascii_not_continuation:
  "byte c < 128 \<Longrightarrow> \<not> continuation c" "byte c < 128 \<Longrightarrow> \<not> second_of_three a c" "byte c < 128 \<Longrightarrow> \<not> second_of_four a c"
  by (simp_all add: continuation_def second_of_three_def second_of_four_def)

lemma valid_utf8_ascii: "\<forall>c \<in> set s. byte c < 128 \<Longrightarrow> valid_utf8 (s @ t) = valid_utf8 t"
  by (induction s) simp_all

text \<open>An ASCII byte is a character boundary: what follows it is well formed by itself.\<close>

lemma valid_utf8_after_ascii:
  "valid_utf8 (l @ c # d) \<Longrightarrow> byte c < 128 \<Longrightarrow> valid_utf8 d"
proof (induction "length l" arbitrary: l rule: less_induct)
  case less
  note asc = ascii_not_continuation[OF less.prems(2)]
  show ?case
  proof (cases l)
    case (Cons a m)
    consider "byte a < 128" | "194 \<le> byte a" "byte a \<le> 223" | "224 \<le> byte a" "byte a \<le> 239"
      | "240 \<le> byte a" "byte a \<le> 244"
      using less.prems(1) Cons by (auto split: if_splits)
    then show ?thesis
    proof cases
      case 1
      then show ?thesis using less.hyps[of m] less.prems Cons by simp
    next
      case 2
      then obtain b t where m: "m = b # t" "valid_utf8 (t @ c # d)"
        using less.prems(1) Cons asc by (cases m) auto
      then show ?thesis using less.hyps[of t] less.prems(2) Cons by simp
    next
      case 3
      then obtain b e t where m: "m = b # e # t" "valid_utf8 (t @ c # d)"
        using less.prems(1) Cons asc by (cases m; cases "tl m") (auto split: list.splits)
      then show ?thesis using less.hyps[of t] less.prems(2) Cons by simp
    next
      case 4
      then obtain b e f t where m: "m = b # e # f # t" "valid_utf8 (t @ c # d)"
        using less.prems(1) Cons asc by (cases m; cases "tl m"; cases "tl (tl m)") (auto split: list.splits)
      then show ?thesis using less.hyps[of t] less.prems(2) Cons by simp
    qed
  qed (use less.prems in simp)
qed

lemma digit_ascii: "is_digit c \<Longrightarrow> byte c < 128"
  by (simp add: is_digit_def)

lemma valid_utf8_digits: "\<forall>c \<in> set s. is_digit c \<Longrightarrow> valid_utf8 s"
  using valid_utf8_ascii[of s "[]"] by (simp add: digit_ascii)

text \<open>
  Masking never emits a partial multibyte character: the mask of a well-formed UTF-8 value is
  well-formed UTF-8, in every category.
\<close>

lemma mask_value_utf8:
  assumes "valid_utf8 v"
  shows "valid_utf8 (mask_value c v)"
proof (cases c)
  case PiiEmail
  have "valid_utf8 d" if "v = l @ CHR ''@'' # d" for l d
    using assms valid_utf8_after_ascii[of l "CHR ''@''" d] that by simp
  then show ?thesis by (cases v rule: mask_email_cases) (simp_all add: PiiEmail)
next
  case PiiPhone
  then show ?thesis by (cases v rule: mask_phone_cases) (simp_all add: valid_utf8_digits)
next
  case PiiCreditCard
  then show ?thesis by (cases v rule: mask_credit_card_cases) (simp_all add: valid_utf8_digits)
qed

end
