(* ===== verification/Response_Total.thy ===== *)
theory Response_Total
  imports Utf8_Masking Production_Demo
begin

text \<open>
  The route handlers have no \<open>catch\<close>: printing a response body is the one step after the
  service that can throw, and the JSON library throws on text that is not well-formed UTF-8. With a
  driver that reports well-formed text, masked results are printable, so every handler returns.
\<close>

section \<open>Printable values\<close>

definition utf8_json :: "json \<Rightarrow> bool" where
  "utf8_json j \<longleftrightarrow> list_all valid_utf8 (json_texts j)"

definition ascii_text :: "string \<Rightarrow> bool" where
  "ascii_text s \<longleftrightarrow> list_all (\<lambda>c. byte c < 128) s"

lemma ascii_utf8: "ascii_text s \<Longrightarrow> valid_utf8 s"
  using valid_utf8_ascii[of s "[]"] by (simp add: ascii_text_def list_all_iff)

lemma ascii_text_simps [simp]:
  "ascii_text []" "ascii_text (c # s) \<longleftrightarrow> byte c < 128 \<and> ascii_text s"
  "ascii_text (s @ t) \<longleftrightarrow> ascii_text s \<and> ascii_text t"
  by (simp_all add: ascii_text_def)

lemma utf8_json_simps [simp]:
  "utf8_json JNull" "utf8_json (JNumber n)" "utf8_json (JString s) \<longleftrightarrow> valid_utf8 s"
  by (simp_all add: utf8_json_def)

lemma utf8_json_array [simp]: "utf8_json (JArray vs) \<longleftrightarrow> (\<forall>v \<in> set vs. utf8_json v)"
  by (induction vs) (simp_all add: utf8_json_def)

lemma utf8_json_object: "utf8_json (JObject fs) \<longleftrightarrow> (\<forall>(k, v) \<in> set fs. valid_utf8 k \<and> utf8_json v)"
  by (induction fs) (auto simp: utf8_json_def)

lemma utf8_json_object_of:
  "distinct (map fst pairs) \<Longrightarrow> \<forall>(k, v) \<in> set pairs. ascii_text k \<and> utf8_json v \<Longrightarrow>
     utf8_json (JObject (object_of pairs))"
  using ascii_utf8 by (auto simp: utf8_json_object set_object_of)

section \<open>Printable results\<close>

definition utf8_cell :: "cell \<Rightarrow> bool" where
  "utf8_cell x = (case x of None \<Rightarrow> True | Some text \<Rightarrow> valid_utf8 text)"

definition utf8_result :: "ExecutionResult \<Rightarrow> bool" where
  "utf8_result r \<longleftrightarrow>
     (\<forall>c \<in> set (ex_columns r). valid_utf8 (ci_name c)) \<and> (\<forall>row \<in> set (ex_rows r). \<forall>x \<in> set row. utf8_cell x)"

lemma mask_by_class_utf8: "utf8_cell x \<Longrightarrow> utf8_cell (mask_by_class c x)"
  by (auto simp: utf8_cell_def mask_by_class_def mask_cell_def mask_value_utf8 split: option.splits)

text \<open>What a printable answer is, for each kind of answer.\<close>

definition utf8_answer :: "ServiceResult \<Rightarrow> bool" where
  "utf8_answer r =
     (case r of
        SrSuccess q \<Rightarrow>
          (\<forall>name \<in> set (mq_column_names q). valid_utf8 name) \<and> (\<forall>row \<in> set (mq_rows q). \<forall>x \<in> set row. utf8_cell x)
      | SrWriteSuccess w \<Rightarrow> True
      | SrFailure f \<Rightarrow> True)"

lemma handle_utf8_answer:
  assumes "\<And>r. fst (ad_execute ad (sv_db s) sql) = Inr r \<Longrightarrow> utf8_result r"
  shows "utf8_answer (fst (handle ad ts sql s))"
proof (cases "fst (handle ad ts sql s)")
  case (SrSuccess q)
  then show ?thesis
  proof (rule handle_success_origin)
    fix a r
    assume r: "fst (ad_execute ad (sv_db s) sql) = Inr r"
      and p: "process_executed (sv_classifier s) a r ts (sv_next_request_id s) = Inr (handle_processing ad ts sql s)"
      and q: "pg_result (handle_processing ad ts sql s) = SrSuccess q"
    let ?c = "classify (sv_classifier s) a (ex_columns r)"
    from process_executed_success[OF p q] have names: "mq_column_names q = map ci_name (ex_columns r)"
      and "mask_result r ?c = MaskSuccess (r\<lparr>ex_rows := mq_rows q\<rparr>)" by simp_all
    then have "ex_rows (r\<lparr>ex_rows := mq_rows q\<rparr>) = map (map2 mask_by_class (cr_columns ?c)) (ex_rows r)"
      by (simp add: mask_success_iff)
    with names assms[OF r] SrSuccess show ?thesis
      by (auto simp: utf8_answer_def utf8_result_def dest!: set_zip_rightD intro: mask_by_class_utf8)
  qed
qed (simp_all add: utf8_answer_def)

lemma cell_json_utf8: "utf8_cell x \<Longrightarrow> utf8_json (cell_json x)"
  by (cases x) (simp_all add: utf8_cell_def)

lemma failure_message_ascii: "ascii_text (fr_code (response_for f))" "ascii_text (fr_message (response_for f))"
  by (cases f; simp)+

lemma body_of_utf8: "utf8_answer r \<Longrightarrow> utf8_json (body_of r)"
proof (cases r)
  case (SrSuccess q)
  moreover assume "utf8_answer r"
  ultimately show ?thesis
    by (auto simp: utf8_answer_def masked_body_def rows_json_def cell_json_utf8 intro!: utf8_json_object_of)
next
  case (SrWriteSuccess w)
  then show ?thesis by (simp add: write_body_def utf8_json_object_of)
next
  case (SrFailure f)
  then show ?thesis
    using failure_message_ascii[of f] ascii_utf8 by (simp add: utf8_json_object del: response_for.simps)
qed

section \<open>Handlers that return\<close>

text \<open>A response set from a printable body, with one of the statuses the routes use.\<close>

definition printable_response :: "printer \<Rightarrow> Response \<Rightarrow> Response throws \<Rightarrow> bool" where
  "printable_response dump response r \<longleftrightarrow>
     (\<exists>status body. r = set_json dump status body response \<and> utf8_json body \<and>
        status \<in> {200, 400, 403, 422, 500, 503})"

lemma send_error_printable:
  "ascii_text code \<Longrightarrow> ascii_text message \<Longrightarrow> printable_response dump response (send_error dump response 400 code message)"
  unfolding printable_response_def send_error_def
  by (intro exI conjI) (auto simp: utf8_json_object ascii_utf8)

lemma respond_printable: "utf8_answer r \<Longrightarrow> printable_response dump response (respond dump r response)"
  unfolding printable_response_def respond_eq using body_of_utf8 status_of_values(2) by blast

lemma query_request_printable:
  assumes "\<And>sql r. fst (ad_execute ad (sv_db s) sql) = Inr r \<Longrightarrow> utf8_result r"
  shows "printable_response dump response (fst (handle_query_request json_parse dump ad ts request response s))"
proof (cases "controlled_sql json_parse request")
  case (Some sql)
  with assms show ?thesis
    by (simp add: handle_query_request_controlled respond_printable handle_utf8_answer)
next
  case None
  show ?thesis
  proof (cases rule: request_cases[where request = request and json_parse = json_parse])
    case (not_string kvs v)
    then show ?thesis by (cases v) (simp_all add: handle_query_request_def send_error_printable)
  next
    case (string kvs t)
    then have "65536 < length t" using None by (simp add: controlled_sql_def split: if_splits)
    with string show ?thesis by (simp add: handle_query_request_def kMaxSqlLength_def send_error_printable)
  qed (simp_all add: handle_query_request_def send_error_printable)
qed

lemma printable_response_returns:
  assumes "printable_response dump response r" and "\<And>j. utf8_json j \<Longrightarrow> no_throw (dump j)"
  shows "\<exists>rs. r = Inr rs \<and> rs_status rs \<in> {200, 400, 403, 422, 500, 503} \<and> rs_content_type rs = ''application/json''"
proof -
  obtain status body where b: "r = set_json dump status body response" "utf8_json body"
    "status \<in> {200, 400, 403, 422, 500, 503}"
    using assms(1) by (auto simp: printable_response_def)
  from assms(2)[OF b(2)] obtain out where "dump body = Inr out" by blast
  with b show ?thesis by (auto simp: set_json_def)
qed

text \<open>The driver's report is well-formed text.\<close>

definition utf8_driver :: "PqxxResult \<Rightarrow> bool" where
  "utf8_driver r \<longleftrightarrow>
     (\<forall>c < px_columns r. valid_utf8 (px_column_name r c)) \<and>
     (\<forall>row < px_size r. \<forall>c < px_columns r. utf8_cell (px_field r row c))"

definition utf8_pqxx :: "('db, 'txn) Pqxx \<Rightarrow> bool" where
  "utf8_pqxx px \<longleftrightarrow> (\<forall>txn sql r txn'. px_exec px txn sql = (Inr r, txn') \<longrightarrow> utf8_driver r)"

lemma translate_utf8: "utf8_driver r \<Longrightarrow> utf8_result (translate r)"
  by (auto simp: utf8_driver_def utf8_result_def translate_def Let_def)

lemma postgres_utf8:
  assumes "utf8_pqxx px" and "fst (postgres_execute px config db sql) = Inr r"
  shows "utf8_result r"
proof -
  have "utf8_result (handle_pqxx e)" for e
    by (cases e) (simp_all add: utf8_result_def)
  with assms postgres_execute_result[of px config db sql] translate_utf8 show ?thesis
    unfolding utf8_pqxx_def by (metis fst_conv Inr_inject)
qed

section \<open>Properties\<close>

text \<open>
  C21. Every handler returns: with the production adapters, a driver that reports well-formed UTF-8
  and a JSON printer that accepts it, both routes set a complete JSON response for every request and
  every state of the service, a query with one of six statuses. No exception leaves a handler; in
  particular the masks of well-formed values are well formed, so no result that was audited as a
  success is lost on the way to the client.
\<close>

theorem handlers_return:
  assumes "\<And>j. utf8_json j \<Longrightarrow> no_throw (dump j)" and "utf8_pqxx px"
  shows "\<exists>rs rs'. fst (handle_query_request json_parse dump (production_adapters fpos hp px config dump) ts request response s) = Inr rs \<and>
    rs_status rs \<in> {200, 400, 403, 422, 500, 503} \<and> rs_content_type rs = ''application/json'' \<and>
    handle_health_request dump response = Inr rs' \<and> rs_status rs' = 200 \<and> rs_content_type rs' = ''application/json''"
proof -
  have "printable_response dump response
      (fst (handle_query_request json_parse dump (production_adapters fpos hp px config dump) ts request response s))"
    using postgres_utf8[OF assms(2)] by (intro query_request_printable) simp
  note query = printable_response_returns[OF this assms(1)]
  have "utf8_json (JObject (object_of [(''status'', JString ''ok'')]))" by (intro utf8_json_object_of) simp_all
  from assms(1)[OF this] obtain out where "dump (JObject (object_of [(''status'', JString ''ok'')])) = Inr out" by blast
  with query show ?thesis by (auto simp: handle_health_request_def)
qed

lemma demo_driver_utf8: "utf8_pqxx (demo_pqxx n)"
  by (auto simp: utf8_pqxx_def demo_pqxx_def utf8_driver_def demo_rows_def demo_done_def utf8_cell_def split: if_splits)

theorem handlers_return_witness:
  "\<exists>rs. fst (handle_query_request (\<lambda>body. Some (JObject [(''sql'', JString demo_sql)])) (\<lambda>j. Inr (compact j)) (demo_production 1) 0
      \<lparr>rq_content_type = ''application/json'', rq_body = []\<rparr> \<lparr>rs_status = -1, rs_body = [], rs_content_type = []\<rparr>
      (demo_service demo_file)) = Inr rs \<and> rs_content_type rs = ''application/json''"
proof -
  have printer: "no_throw (Inr (compact j) :: string throws)" for j by simp
  from handlers_return[where dump = "\<lambda>j. Inr (compact j)", OF printer demo_driver_utf8] show ?thesis
    unfolding demo_production_def by blast
qed

end
