(* ===== verification/Core_Tests.thy ===== *)
theory Core_Tests
  imports Fakes
begin

text \<open>
  The unit tests of the core, \<open>src/tests/core\<close>, run on the model by evaluation in the kernel: one
  lemma per test case, named after it, with the inputs and the expected values of the test. What the
  tests expect of the compiled program holds of the definitions that model it. The builders of the
  test files are definitions; the fakes are those of \<open>Fakes\<close>.
\<close>

section \<open>The masker\<close>

definition classification :: "ColumnClassification list \<Rightarrow> ClassificationResult" where
  "classification cols =
     \<lparr>cr_columns = cols, cr_fully_attributed = list_all (\<lambda>c. cc_data_class c \<noteq> Unattributed) cols\<rparr>"

definition mask_single :: "PiiCategory \<Rightarrow> cell \<Rightarrow> cell throws" where
  "mask_single category v =
     map_sum id (\<lambda>r. ex_rows r ! 0 ! 0) (masked_result (mask_result (ok_result [''col''] [[v]]) (classification [pii category])))"

lemma EmailMaskingShapes:
  "list_all (\<lambda>(input, expected). mask_single PiiEmail (Some input) = Inr (Some expected))
     [(''lihi.roas@example.com'', ''l***@example.com''), (''a@example.com'', ''a***@example.com''),
      (''KIM.PEREZ@EXAMPLE.ORG'', ''K***@EXAMPLE.ORG''), (''lihi.roas@@example.com'', ''***''),
      (''not-an-email'', ''***''), (''@example.com'', ''***''), (''lihi.roas@'', ''***''),
      (CHR 0xC3 # CHR 0xB1 # ''ice@example.com'', ''***@example.com'')]"
  by code_simp

lemma PhoneMaskingShapes:
  "list_all (\<lambda>(input, expected). mask_single PiiPhone (Some input) = Inr (Some expected))
     [(''+972501234567'', ''***4567''), (''050-123-4567'', ''***4567''), (''(050) 123 4567'', ''***4567''),
      (''12345'', ''***''), (''no-digits'', ''***'')]"
  by code_simp

lemma CreditCardMaskingShapes:
  "list_all (\<lambda>(input, expected). mask_single PiiCreditCard (Some input) = Inr (Some expected))
     [(''4111111111111111'', ''****1111''), (''378282246310009'', ''****0009''), (''4111 1111 1111 1111'', ''****1111''),
      (''4111-1111-1111-1111'', ''****1111''), (''1234'', ''***''), (''41x1111111111111'', ''***'')]"
  by code_simp

lemma NullAndEmptyStayAcrossAllCategories:
  "list_all (\<lambda>category. mask_single category None = Inr None \<and> mask_single category (Some []) = Inr (Some []))
     [PiiEmail, PiiPhone, PiiCreditCard]"
  by code_simp

lemma NonEmptyClassifiedValuesAreNeverReturnedUnchanged:
  "list_all (\<lambda>(category, input). case mask_single category (Some input) of Inr (Some out) \<Rightarrow> out \<noteq> input | _ \<Rightarrow> False)
     [(PiiEmail, ''x''), (PiiEmail, ''@''), (PiiPhone, ''1''), (PiiPhone, ''call me''), (PiiCreditCard, ''0''),
      (PiiCreditCard, ''gift-card'')]"
  by code_simp

lemma MultipleRowsAndPiiColumnsAllMasked:
  "mask_result
     (ok_result [''id'', ''email'', ''phone'', ''credit_card'']
        [[Some ''1'', Some ''lihi.roas@example.com'', Some ''0501230101'', Some ''4111111111111111''],
         [Some ''2'', Some ''kim.perez@example.org'', None, Some ''378282246310009'']])
     (classification [not_pii, pii PiiEmail, pii PiiPhone, pii PiiCreditCard]) =
   MaskSuccess
     (ok_result [''id'', ''email'', ''phone'', ''credit_card'']
        [[Some ''1'', Some ''l***@example.com'', Some ''***0101'', Some ''****1111''],
         [Some ''2'', Some ''k***@example.org'', None, Some ''****0009'']])"
  by code_simp

lemma NotClassifiedColumnsPreservedExactly:
  "mask_result (ok_result [''note''] [[Some ''reach me at lihi.roas@example.com'']]) (classification [not_pii]) =
     MaskSuccess (ok_result [''note''] [[Some ''reach me at lihi.roas@example.com'']])"
  by code_simp

lemma DuplicateColumnNamesStayIndexSafe:
  "mask_result (ok_result [''email'', ''email''] [[Some ''lihi.roas@example.com'', Some ''kim.perez@example.org'']])
     (classification [pii PiiEmail, not_pii]) =
   MaskSuccess (ok_result [''email'', ''email''] [[Some ''l***@example.com'', Some ''kim.perez@example.org'']])"
  by code_simp

lemma EmptyShapesSucceed:
  "mask_result (ok_result [] []) (classification []) = MaskSuccess (ok_result [] [])"
  "mask_result (ok_result [''email''] []) (classification [pii PiiEmail]) = MaskSuccess (ok_result [''email''] [])"
  by (code_simp, code_simp)

text \<open>The refusals, with the tests of both directions of an inconsistent classification.\<close>

lemma MaskerFailsClosed:
  "list_all (\<lambda>(result, c, reason). mask_result result c = MaskFailure reason \<and>
       masked_result (mask_result result c) = Inl BadVariantAccess)
     [(ok_result [''a'', ''b''] [[Some ''1'', Some ''2'']], classification [not_pii], StructuralMismatch),
      (ok_result [''email''] [[Some ''lihi.roas@example.com''], [Some ''x'', Some ''y'']], classification [pii PiiEmail],
         StructuralMismatch),
      (ok_result [''a''] [[Some ''v'']], classification [\<lparr>cc_data_class = Pii, cc_pii_category = None\<rparr>], InvalidClassification),
      (ok_result [''a''] [[Some ''v'']], classification [not_pii\<lparr>cc_pii_category := Some PiiEmail\<rparr>], InvalidClassification),
      (ok_result [''a''] [[Some ''v'']], \<lparr>cr_columns = [default_ColumnClassification], cr_fully_attributed = True\<rparr>,
         InvalidClassification),
      (ok_result [''a''] [[Some ''v'']], \<lparr>cr_columns = [not_pii], cr_fully_attributed = False\<rparr>, InvalidClassification),
      (ok_result [''upper'', ''email''] [[Some ''LIHI.ROAS@EXAMPLE.COM'', Some ''lihi.roas@example.com'']],
         classification [default_ColumnClassification, pii PiiEmail], UnattributedColumn)]"
  by code_simp

section \<open>The analyzer\<close>

definition single_statement :: "ParsedStatement \<Rightarrow> ParseResult" where
  "single_statement statement = \<lparr>pr_success = True, pr_statements = [statement], pr_error = []\<rparr>"

text \<open>The whole analysis of one reported statement; the fields a test does not set have their initial values.\<close>

definition ok_statement :: "StatementType \<Rightarrow> SqlAnalysis" where
  "ok_statement type =
     default_SqlAnalysis\<lparr>an_status := AnOk, an_statement_type := type,
       an_statement_class := statement_class_of type, an_statement_count := 1\<rparr>"

lemma SingleStatementsAnalyzedOk:
  "list_all (\<lambda>(stmt, expected). analyze (fake_parse (single_statement stmt)) ''SELECT ...'' = Inr expected)
     [(default_ParsedStatement\<lparr>ps_type := StSelect, ps_tables := [\<lparr>tr_schema = [], tr_name = ''customers''\<rparr>],
         ps_projection_columns := [''id'', ''email'']\<rparr>,
       ok_statement StSelect\<lparr>an_tables := [''customers''], an_projection_columns := [''id'', ''email'']\<rparr>),
      (default_ParsedStatement\<lparr>ps_type := StSelect, ps_has_wildcard_projection := True\<rparr>,
       ok_statement StSelect\<lparr>an_has_wildcard_projection := True\<rparr>),
      (default_ParsedStatement\<lparr>ps_type := StSelect, ps_has_computed_projection := True\<rparr>,
       ok_statement StSelect\<lparr>an_has_computed_projection := True\<rparr>),
      (default_ParsedStatement\<lparr>ps_type := StSelect, ps_has_safe_count_star_projection := True, ps_has_group_by := True\<rparr>,
       ok_statement StSelect\<lparr>an_has_safe_count_star_projection := True, an_has_group_by := True\<rparr>),
      (default_ParsedStatement\<lparr>ps_type := StInsert, ps_tables := [\<lparr>tr_schema = [], tr_name = ''orders''\<rparr>],
         ps_affected_columns := [''customer_id'', ''amount''], ps_insert_source := SrcValues,
         ps_insert_value_kinds := [PositiveIntegerLiteral, PositiveDecimalLiteral]\<rparr>,
       ok_statement StInsert\<lparr>an_tables := [''orders''], an_affected_columns := [''customer_id'', ''amount''],
         an_insert_source := SrcValues, an_insert_value_kinds := [PositiveIntegerLiteral, PositiveDecimalLiteral]\<rparr>),
      (default_ParsedStatement\<lparr>ps_type := StUpdate, ps_tables := [\<lparr>tr_schema = [], tr_name = ''customers''\<rparr>],
         ps_affected_columns := [''phone'']\<rparr>,
       ok_statement StUpdate\<lparr>an_tables := [''customers''], an_affected_columns := [''phone'']\<rparr>),
      (default_ParsedStatement\<lparr>ps_type := StDelete, ps_tables := [\<lparr>tr_schema = [], tr_name = ''orders''\<rparr>]\<rparr>,
       ok_statement StDelete\<lparr>an_tables := [''orders'']\<rparr>),
      (default_ParsedStatement\<lparr>ps_type := StSelect, ps_tables :=
         [\<lparr>tr_schema = ''Public'', tr_name = ''Customers''\<rparr>, \<lparr>tr_schema = [], tr_name = ''orders''\<rparr>]\<rparr>,
       ok_statement StSelect\<lparr>an_tables := [''Public.Customers'', ''orders'']\<rparr>),
      (default_ParsedStatement\<lparr>ps_type := StSelect, ps_tables :=
         [\<lparr>tr_schema = [], tr_name = ''orders''\<rparr>, \<lparr>tr_schema = [], tr_name = ''customers''\<rparr>, \<lparr>tr_schema = [], tr_name = ''orders''\<rparr>]\<rparr>,
       ok_statement StSelect\<lparr>an_tables := [''orders'', ''customers'']\<rparr>),
      (default_ParsedStatement, ok_statement StUnknown),
      (default_ParsedStatement\<lparr>ps_type := StSelect, ps_unsupported_features := [''JOIN'', ''subquery'']\<rparr>,
       ok_statement StSelect\<lparr>an_unsupported_features := [''JOIN'', ''subquery'']\<rparr>)]"
  by code_simp

lemma CreateAlterDropAreDdl:
  "list_all (\<lambda>type. map_sum id an_statement_class
       (analyze (fake_parse (single_statement (default_ParsedStatement\<lparr>ps_type := type\<rparr>))) ''DDL statement'') = Inr ClsDdl)
     [StCreate, StAlter, StDrop]"
  by code_simp

lemma ParseFailurePropagatesSanitizedReason:
  "analyze (fake_parse \<lparr>pr_success = False, pr_statements = [], pr_error = ''syntax error at position 12''\<rparr>) ''SELEC id FROM customers'' =
     Inr (default_SqlAnalysis\<lparr>an_error_reason := ''syntax error at position 12''\<rparr>)"
  "analyze (fake_parse \<lparr>pr_success = False, pr_statements = [], pr_error = []\<rparr>) ''SELEC id FROM customers'' =
     Inr (default_SqlAnalysis\<lparr>an_error_reason := ''parser reported failure''\<rparr>)"
  "case analyze (fake_parse \<lparr>pr_success = True, pr_statements = [], pr_error = []\<rparr>) '';'' of
     Inr a \<Rightarrow> an_status a = AnParseError \<and> an_error_reason a \<noteq> [] | Inl _ \<Rightarrow> False"
  by (code_simp, code_simp, code_simp)

lemma MultiStatementDetected:
  "map_sum id (\<lambda>a. (an_status a, an_statement_count a))
     (analyze (fake_parse \<lparr>pr_success = True, pr_statements = [default_ParsedStatement\<lparr>ps_type := StSelect\<rparr>,
        default_ParsedStatement\<lparr>ps_type := StDelete\<rparr>], pr_error = []\<rparr>) ''SELECT 1; DELETE FROM orders'') = Inr (AnMultipleStatements, 2)"
  by code_simp

text \<open>The parser is not called on blank input: one that throws makes no difference.\<close>

lemma EmptyAndWhitespaceInputSkipParser:
  "list_all (\<lambda>sql. map_sum id (\<lambda>a. (an_status a, an_statement_count a)) (analyze (\<lambda>_. Inl ForeignException) sql) = Inr (AnEmptyInput, 0))
     [[], [CHR '' '', CHR '' '', CHR 0x09, CHR 0x0A, CHR '' '']]"
  by code_simp

section \<open>The policy\<close>

definition select_on :: "string list \<Rightarrow> SqlAnalysis" where
  "select_on tables = ok_statement StSelect\<lparr>an_tables := tables\<rparr>"

definition canonical_order_insert :: SqlAnalysis where
  "canonical_order_insert =
     ok_statement StInsert\<lparr>an_tables := [''orders''], an_affected_columns := [''customer_id'', ''amount''],
       an_insert_source := SrcValues, an_insert_value_kinds := [PositiveIntegerLiteral, PositiveDecimalLiteral]\<rparr>"

definition expect_rejected :: "SqlAnalysis \<Rightarrow> RejectReason \<Rightarrow> bool" where
  "expect_rejected a expected \<longleftrightarrow> \<not> pd_allowed (evaluate a) \<and> pd_reason (evaluate a) = expected"

definition expect_allowed :: "SqlAnalysis \<Rightarrow> bool" where
  "expect_allowed a \<longleftrightarrow> pd_allowed (evaluate a) \<and> pd_reason (evaluate a) = RrNone"

lemma AnalysisGates:
  "list_all (\<lambda>(a, reason). expect_rejected a reason)
     [(default_SqlAnalysis, RrUnparseableSql),
      (default_SqlAnalysis\<lparr>an_status := AnEmptyInput\<rparr>, RrEmptyInput),
      (default_SqlAnalysis\<lparr>an_status := AnMultipleStatements, an_statement_count := 2\<rparr>, RrMultipleStatements),
      (ok_statement StSelect\<lparr>an_statement_count := 0\<rparr>, RrMultipleStatements),
      (ok_statement StSelect\<lparr>an_statement_count := 2\<rparr>, RrMultipleStatements),
      (ok_statement StUnknown, RrUnsupportedStatementType)]"
  by code_simp

lemma DdlAndDmlAreRejected:
  "list_all (\<lambda>type. expect_rejected (ok_statement type\<lparr>an_tables := [''customers'']\<rparr>) RrDdlNotAllowed) [StCreate, StAlter, StDrop]"
  "list_all (\<lambda>type. expect_rejected (ok_statement type\<lparr>an_tables := [''customers'']\<rparr>) RrDmlNotAllowed) [StUpdate, StDelete]"
  "expect_rejected (ok_statement StInsert\<lparr>an_tables := [''customers'']\<rparr>) RrInsertTargetNotAllowed"
  by (code_simp, code_simp, code_simp)

lemma UnsupportedFeaturesAreRejected:
  "list_all (\<lambda>feature. expect_rejected (select_on [''customers'']\<lparr>an_unsupported_features := [feature]\<rparr>) RrUnsupportedSqlFeature)
     [''WITH/CTE'', ''set operation'', ''subquery in FROM'']"
  by code_simp

lemma SystemCatalogTablesAreRejected:
  "list_all (\<lambda>tables. expect_rejected (select_on tables) RrSystemTableAccess)
     [[''pg_catalog.pg_authid''], [''pg_authid''], [''PG_AUTHID''], [''Pg_Authid''], [''pg_stat_activity''],
      [''information_schema.tables''], [''INFORMATION_SCHEMA.TABLES''], [''customers'', ''pg_stat_activity'']]"
  by code_simp

lemma NearMissTableNamesStayAllowed:
  "list_all (\<lambda>table. expect_allowed (select_on [table])) [''pgcustomers'', ''mypg_table'', ''public.customers'']"
  by code_simp

lemma AllowedSelectShapes:
  "list_all expect_allowed
     [select_on [''customers'']\<lparr>an_projection_columns := [''id'', ''email'']\<rparr>,
      select_on [''customers'']\<lparr>an_has_wildcard_projection := True\<rparr>,
      select_on []\<lparr>an_has_computed_projection := True\<rparr>,
      select_on [''customers'']\<lparr>an_has_computed_projection := True\<rparr>,
      select_on [''customers'']\<lparr>an_projection_columns := [''id''], an_has_computed_projection := True\<rparr>,
      select_on [''customers'']\<lparr>an_has_safe_count_star_projection := True\<rparr>,
      select_on [''customers'']\<lparr>an_has_safe_count_star_projection := True, an_has_group_by := True\<rparr>]"
  by code_simp

lemma MixedWildcardProjectionIsRejected:
  "expect_rejected (select_on [''customers'']\<lparr>an_has_wildcard_projection := True, an_projection_columns := [''credit_card'']\<rparr>)
     RrUnattributableProjection"
  by code_simp

lemma CanonicalOrderInsertIsAllowed:
  "expect_allowed canonical_order_insert"
  "expect_allowed (canonical_order_insert\<lparr>an_insert_value_kinds := [PositiveIntegerLiteral, PositiveIntegerLiteral]\<rparr>)"
  by (code_simp, code_simp)

lemma InsertIntoAnyOtherTableIsRejected:
  "list_all (\<lambda>tables. expect_rejected (canonical_order_insert\<lparr>an_tables := tables\<rparr>) RrInsertTargetNotAllowed)
     [[''customers''], [''public.orders''], [''ORDERS''], [''Orders''], [''orders_archive''], [''pg_authid''],
      [''orders'', ''customers''], []]"
  by code_simp

lemma InsertSelectIsRejectedOnSourceForm:
  "expect_rejected (canonical_order_insert\<lparr>an_insert_source := SrcSelect, an_insert_value_kinds := []\<rparr>) RrUnsupportedInsertShape"
  "expect_rejected (canonical_order_insert\<lparr>an_insert_source := SrcNone\<rparr>) RrUnsupportedInsertShape"
  by (code_simp, code_simp)

lemma InsertColumnListVariationsAreRejected:
  "list_all (\<lambda>cols. expect_rejected (canonical_order_insert\<lparr>an_affected_columns := cols\<rparr>) RrUnsupportedInsertShape)
     [[''amount'', ''customer_id''], [''customer_id''], [''customer_id'', ''amount'', ''id''],
      [''customer_id'', ''customer_id''], [''CUSTOMER_ID'', ''AMOUNT''], [''customer_id'', ''created_at''], []]"
  by code_simp

lemma InsertValueKindVariationsAreRejected:
  "list_all (\<lambda>kinds. expect_rejected (canonical_order_insert\<lparr>an_insert_value_kinds := kinds\<rparr>) RrUnsupportedInsertShape)
     [[NonPositiveNumericLiteral, PositiveDecimalLiteral], [PositiveIntegerLiteral, NonPositiveNumericLiteral],
      [KindUnsupported, PositiveDecimalLiteral], [PositiveIntegerLiteral, KindUnsupported],
      [PositiveDecimalLiteral, PositiveDecimalLiteral], [PositiveIntegerLiteral],
      [PositiveIntegerLiteral, PositiveIntegerLiteral, PositiveIntegerLiteral], []]"
  by code_simp

lemma PolicyPrecedence:
  "list_all (\<lambda>(a, reason). expect_rejected a reason)
     [(canonical_order_insert\<lparr>an_unsupported_features := [''INSERT without column list'']\<rparr>, RrUnsupportedInsertShape),
      (canonical_order_insert\<lparr>an_statement_count := 2\<rparr>, RrMultipleStatements),
      (canonical_order_insert\<lparr>an_status := AnParseError\<rparr>, RrUnparseableSql),
      (canonical_order_insert\<lparr>an_status := AnEmptyInput\<rparr>, RrEmptyInput),
      (canonical_order_insert\<lparr>an_statement_type := StUpdate, an_statement_class := statement_class_of StUpdate\<rparr>, RrDmlNotAllowed),
      (canonical_order_insert\<lparr>an_statement_type := StDelete, an_statement_class := statement_class_of StDelete\<rparr>, RrDmlNotAllowed),
      (ok_statement StCreate\<lparr>an_unsupported_features := [''non-table CREATE'']\<rparr>, RrDdlNotAllowed),
      (select_on [''pg_catalog.pg_authid'']\<lparr>an_unsupported_features := [''WITH/CTE'']\<rparr>, RrUnsupportedSqlFeature)]"
  by code_simp

section \<open>The classifier\<close>

definition select_with_projection :: "string list \<Rightarrow> SqlAnalysis" where
  "select_with_projection projection =
     default_SqlAnalysis\<lparr>an_status := AnOk, an_statement_type := StSelect, an_statement_class := ClsSelect,
       an_statement_count := 1, an_tables := [''customers''], an_projection_columns := projection\<rparr>"

definition wildcard_select :: SqlAnalysis where
  "wildcard_select = select_with_projection []\<lparr>an_has_wildcard_projection := True\<rparr>"

definition count_star_select :: SqlAnalysis where
  "count_star_select = select_with_projection []\<lparr>an_has_safe_count_star_projection := True\<rparr>"

definition named_columns :: "string list \<Rightarrow> ColumnInfo list" where
  "named_columns names = map (\<lambda>name. \<lparr>ci_name = name, ci_type = CtOther\<rparr>) names"

text \<open>Every expected result has the invariants the tests check, since \<open>classification\<close> builds it.\<close>

lemma ClassifierAttribution:
  "list_all (\<lambda>(a, names, expected). classify (sv_classifier fresh_service) a (named_columns names) = classification expected)
     [(select_with_projection [''id'', ''name'', ''email'', ''phone'', ''credit_card''],
         [''id'', ''name'', ''email'', ''phone'', ''credit_card''],
         [not_pii, not_pii, pii PiiEmail, pii PiiPhone, pii PiiCreditCard]),
      (select_with_projection [''email''], [''contact''], [pii PiiEmail]),
      (select_with_projection [''customers.email'', ''c.phone''], [''email'', ''phone''], [pii PiiEmail, pii PiiPhone]),
      (select_with_projection [''EMAIL''], [''email''], [pii PiiEmail]),
      (wildcard_select, [''id'', ''name'', ''email'', ''phone'', ''credit_card''],
         [not_pii, not_pii, pii PiiEmail, pii PiiPhone, pii PiiCreditCard]),
      (wildcard_select, [''email'', ''email'', ''id''], [pii PiiEmail, pii PiiEmail, not_pii]),
      (count_star_select, [''count''], [not_pii]), (count_star_select, [''count'', ''count''], [not_pii, not_pii]),
      (count_star_select, [''email''], [not_pii]), (select_with_projection [''email''], [], [])]"
  by code_simp

lemma ClassifierFailsClosed:
  "list_all (\<lambda>(a, names). classify (sv_classifier fresh_service) a (named_columns names) =
       classification [default_ColumnClassification, default_ColumnClassification])
     [(select_with_projection [''email''], [''email'', ''phone'']),
      (select_with_projection []\<lparr>an_has_computed_projection := True\<rparr>, [''a'', ''email'']),
      (select_with_projection [''credit_card'']\<lparr>an_has_wildcard_projection := True\<rparr>, [''a'', ''email'']),
      (default_SqlAnalysis, [''a'', ''email'']),
      (count_star_select\<lparr>an_has_group_by := True\<rparr>, [''count'', ''email'']),
      (count_star_select\<lparr>an_projection_columns := [''email'']\<rparr>, [''count'', ''email'']),
      (count_star_select\<lparr>an_has_wildcard_projection := True\<rparr>, [''count'', ''email'']),
      (count_star_select\<lparr>an_has_computed_projection := True\<rparr>, [''count'', ''email''])]"
  by code_simp

lemma CustomMappingClassifiesDifferentlyNamedColumn:
  "case DataClassifier_config [(''Customer_Mail'', PiiEmail)] of
     Inl e \<Rightarrow> False
   | Inr m \<Rightarrow>
       classify m (select_with_projection [''customer_mail'']) (named_columns [''customer_mail'']) = classification [pii PiiEmail] \<and>
       classify m (select_with_projection [''email'']) (named_columns [''email'']) = classification [not_pii]"
  by code_simp

lemma DuplicateNormalizedMappingIsRejectedAtConstruction:
  "case DataClassifier_config [(''email'', PiiEmail), (''EMAIL'', PiiPhone)] of Inl (InvalidArgument _) \<Rightarrow> True | _ \<Rightarrow> False"
  by code_simp

end
