(* ===== verification/Service_Tests.thy ===== *)
theory Service_Tests
  imports Core_Tests
begin

text \<open>
  The tests of the orchestrator, \<open>src/tests/core/proxy_service_test.cpp\<close>, and of the audit records,
  \<open>src/tests/core/audit_record_test.cpp\<close>, evaluated on the model. A request of the harness gives the
  client's result, the texts the executor received and the records the repository was given.
\<close>

section \<open>The audit records\<close>

definition valid_success :: SuccessDetails where
  "valid_success =
     \<lparr>sd_statement_type = StSelect, sd_row_count = 4, sd_column_count = 5,
      sd_pii = \<lparr>email_columns = 1, phone_columns = 1, credit_card_columns = 1\<rparr>\<rparr>"

definition metadata_for :: "string list \<Rightarrow> AuditTableMetadata throws" where
  "metadata_for names = map_sum id ar_referenced_tables (record_success 1 1 valid_success names)"

lemma ValidNamesArePresentAndPreserveOrder:
  "list_all (\<lambda>names. metadata_for names = Inr \<lparr>tm_state = TabPresent, tm_tables = names\<rparr>)
     [[''customers'', ''orders''], [''_tmp$1'', ''Orders2''], [replicate 63 (CHR ''a'')],
      [''t1'', ''t2'', ''t3'', ''t4'', ''t5'', ''t6'', ''t7'', ''t8'']]"
  by code_simp

lemma EmptyListIsAbsent: "metadata_for [] = Inr \<lparr>tm_state = TabAbsent, tm_tables = []\<rparr>"
  by code_simp

lemma AnyUnsafeOrAmbiguousNameOmitsTheWholeList:
  "list_all (\<lambda>names. metadata_for names = Inr \<lparr>tm_state = TabOmitted, tm_tables = []\<rparr>)
     [[''public.customers''], [''customers'', ''public.orders''], [''a b''], [[CHR ''a'', CHR 0x09, CHR ''b'']],
      [[CHR ''a'', CHR 0xFF, CHR 0xEB]], [''1customers''], [''$customers''], [[]], [replicate 64 (CHR ''a'')],
      [''cust-omers''], [CHR 0x22 # ''orders'' @ [CHR 0x22]],
      [''t1'', ''t2'', ''t3'', ''t4'', ''t5'', ''t6'', ''t7'', ''t8'', ''t9'']]"
  by code_simp

definition throws_invalid :: "AuditRecord throws \<Rightarrow> bool" where
  "throws_invalid r = (case r of Inl (InvalidArgument _) \<Rightarrow> True | _ \<Rightarrow> False)"

lemma FactoriesRejectInvalidDetails:
  "list_all (\<lambda>reason. throws_invalid (record_policy_rejected 1 1
       \<lparr>pj_reason = reason, pj_statement_type = StSelect, pj_statement_count = 1\<rparr> [])) [RrNone, RrNotEvaluated, RrUnparseableSql]"
  "throws_invalid (record_success 1 1 (valid_success\<lparr>sd_statement_type := StInsert\<rparr>) [])"
  "list_all (\<lambda>type. throws_invalid (record_database_failure 1 1
       \<lparr>df_category = DbExecutionFailure, df_statement_type = type\<rparr> [])) [StDrop, StUpdate]"
  "throws_invalid (record_masking_refused 1 1 \<lparr>mr_statement_type = StUpdate, mr_column_count = 3\<rparr> [])"
  "list_all (\<lambda>type. throws_invalid (record_write_success 1 1
       \<lparr>wd_statement_type = type, wd_affected_rows = 1\<rparr> [])) [StSelect, StUpdate, StDelete, StDrop]"
  by (code_simp, code_simp, code_simp, code_simp, code_simp)

section \<open>The orchestrator\<close>

definition parsed_order_insert :: ParseResult where
  "parsed_order_insert =
     \<lparr>pr_success = True,
      pr_statements = [default_ParsedStatement\<lparr>ps_type := StInsert, ps_tables := [\<lparr>tr_schema = [], tr_name = ''orders''\<rparr>],
         ps_affected_columns := [''customer_id'', ''amount''], ps_insert_source := SrcValues,
         ps_insert_value_kinds := [PositiveIntegerLiteral, PositiveDecimalLiteral]\<rparr>],
      pr_error = []\<rparr>"

definition write_result :: "int \<Rightarrow> ExecutionResult" where
  "write_result affected_rows =
     default_ExecutionResult\<lparr>ex_status := ExOk, ex_has_result_set := False, ex_affected_rows := affected_rows\<rparr>"

text \<open>The first statement of a report, changed by a test.\<close>

definition with_statement :: "(ParsedStatement \<Rightarrow> ParsedStatement) \<Rightarrow> ParseResult \<Rightarrow> ParseResult" where
  "with_statement f parse = parse\<lparr>pr_statements := (pr_statements parse)[0 := f (pr_statements parse ! 0)]\<rparr>"

text \<open>One request through fresh fakes, at clock reading 5.\<close>

definition observe :: "(string list, AuditRecord list) Adapters \<Rightarrow> string \<Rightarrow> ServiceResult \<times> string list \<times> AuditRecord list" where
  "observe ad sql = (let (result, s) = handle ad 5 sql fresh_service in (result, sv_db s, sv_sink s))"

definition expected_record :: "string list \<Rightarrow> Details \<Rightarrow> AuditRecord" where
  "expected_record tables details =
     \<lparr>ar_timestamp_ms = 5, ar_request_id = 1,
      ar_referenced_tables = \<lparr>tm_state = (if tables = [] then TabAbsent else TabPresent), tm_tables = tables\<rparr>,
      ar_details = details\<rparr>"

lemma ParseFailureIsAuditedAsParsingFailure:
  "observe (fake_adapters \<lparr>pr_success = False, pr_statements = [], pr_error = ''syntax error at line 1, column 7''\<rparr>
       default_ExecutionResult AppendOk) ''SELEC * FRM customers'' =
     (SrFailure SfUnparseableSql, [], [expected_record [] DParsingFailure])"
  by code_simp

lemma EmptyInputIsRejectedAndAuditedAsPolicyRejection:
  "observe (fake_adapters \<lparr>pr_success = False, pr_statements = [], pr_error = []\<rparr> default_ExecutionResult AppendOk) [] =
     (SrFailure SfEmptyInput, [], [expected_record [] (DPolicyRejected
        \<lparr>pj_reason = RrEmptyInput, pj_statement_type = StUnknown, pj_statement_count = 0\<rparr>)])"
  by code_simp

lemma PolicyRejectionIsGenericToClientButTypedInAudit:
  "observe (fake_adapters (with_statement (\<lambda>p. p\<lparr>ps_type := StDrop\<rparr>) (parsed_select [] False)) default_ExecutionResult AppendOk)
       ''DROP TABLE customers'' =
     (SrFailure SfPolicyRejected, [], [expected_record [''customers''] (DPolicyRejected
        \<lparr>pj_reason = RrDdlNotAllowed, pj_statement_type = StDrop, pj_statement_count = 1\<rparr>)])"
  by code_simp

lemma DatabaseFailuresMapToTypedCategories:
  "list_all (\<lambda>(status, failure, category).
       observe (fake_adapters (parsed_select [''id''] False)
           (default_ExecutionResult\<lparr>ex_status := status, ex_error := ''statement failed (SQLSTATE 42P01)''\<rparr>) AppendOk)
         ''SELECT id FROM customers'' =
       (SrFailure failure, [''SELECT id FROM customers''],
        [expected_record [''customers''] (DDatabaseFailure \<lparr>df_category = category, df_statement_type = StSelect\<rparr>)]))
     [(ExConnectionFailure, SfDatabaseUnavailable, DbConnectionFailure), (ExExecutionFailure, SfQueryFailed, DbExecutionFailure)]"
  by code_simp

lemma SuccessfulQueryReturnsMaskedValuesAndAudits:
  "observe (fake_adapters (parsed_select [''id'', ''email'', ''phone''] False)
       (ok_result [''id'', ''email'', ''phone'']
          [[Some ''1'', Some ''lihi.roas@example.com'', Some ''0501230101''], [Some ''2'', Some ''kim.perez@example.org'', None]])
       AppendOk) ''SELECT id, email, phone FROM customers'' =
     (SrSuccess \<lparr>mq_column_names = [''id'', ''email'', ''phone''],
        mq_rows = [[Some ''1'', Some ''l***@example.com'', Some ''***0101''], [Some ''2'', Some ''k***@example.org'', None]]\<rparr>,
      [''SELECT id, email, phone FROM customers''],
      [expected_record [''customers''] (DSuccess \<lparr>sd_statement_type = StSelect, sd_row_count = 2, sd_column_count = 3,
         sd_pii = \<lparr>email_columns = 1, phone_columns = 1, credit_card_columns = 0\<rparr>\<rparr>)])"
  by code_simp

lemma ZeroRowsPreservesColumnMetadata:
  "observe (fake_adapters (parsed_select [''id'', ''email''] False) (ok_result [''id'', ''email''] []) AppendOk)
       ''SELECT id, email FROM customers'' =
     (SrSuccess \<lparr>mq_column_names = [''id'', ''email''], mq_rows = []\<rparr>, [''SELECT id, email FROM customers''],
      [expected_record [''customers''] (DSuccess \<lparr>sd_statement_type = StSelect, sd_row_count = 0, sd_column_count = 2,
         sd_pii = \<lparr>email_columns = 1, phone_columns = 0, credit_card_columns = 0\<rparr>\<rparr>)])"
  by code_simp

lemma ComputedProjectionIsRefusedByMaskingAndAudited:
  "observe (fake_adapters (with_statement (\<lambda>p. p\<lparr>ps_has_computed_projection := True\<rparr>) (parsed_select [] False))
       (ok_result [''upper''] [[Some ''LIHI.ROAS@EXAMPLE.COM'']]) AppendOk) ''SELECT UPPER(email) FROM customers'' =
     (SrFailure SfMaskingRefused, [''SELECT UPPER(email) FROM customers''],
      [expected_record [''customers''] (DMaskingRefused \<lparr>mr_statement_type = StSelect, mr_column_count = 1\<rparr>)])"
  by code_simp

lemma SafeCountStarSucceedsAndAuditsZeroPiiColumns:
  "observe (fake_adapters (with_statement (\<lambda>p. p\<lparr>ps_has_safe_count_star_projection := True\<rparr>) (parsed_select [] False))
       (ok_result [''count''] [[Some ''4'']]) AppendOk) ''SELECT COUNT(*) FROM customers'' =
     (SrSuccess \<lparr>mq_column_names = [''count''], mq_rows = [[Some ''4'']]\<rparr>, [''SELECT COUNT(*) FROM customers''],
      [expected_record [''customers''] (DSuccess \<lparr>sd_statement_type = StSelect, sd_row_count = 1, sd_column_count = 1,
         sd_pii = \<lparr>email_columns = 0, phone_columns = 0, credit_card_columns = 0\<rparr>\<rparr>)])"
  by code_simp

lemma AuthorizedInsertReturnsAffectedRowsAndIsAudited:
  "observe (fake_adapters parsed_order_insert (write_result 1) AppendOk)
       ''INSERT INTO orders (customer_id, amount) VALUES (1, 199.90)'' =
     (SrWriteSuccess \<lparr>wr_affected_rows = 1\<rparr>, [''INSERT INTO orders (customer_id, amount) VALUES (1, 199.90)''],
      [expected_record [''orders''] (DWriteSuccess \<lparr>wd_statement_type = StInsert, wd_affected_rows = 1\<rparr>)])"
  by code_simp

lemma InsertAffectingOtherThanOneRowIsAnInternalFailure:
  "list_all (\<lambda>affected. observe (fake_adapters parsed_order_insert (write_result affected) AppendOk) ''INSERT INTO orders'' =
       (SrFailure SfInternalError, [''INSERT INTO orders''], [expected_record [] DInternalFailure])) [0, 2]"
  by code_simp

lemma RejectedInsertNeverReachesTheExecutor:
  "observe (fake_adapters (with_statement (\<lambda>p. p\<lparr>ps_tables := [\<lparr>tr_schema = [], tr_name = ''customers''\<rparr>]\<rparr>) parsed_order_insert)
       default_ExecutionResult AppendOk) ''INSERT INTO customers (customer_id, amount) VALUES (1, 1)'' =
     (SrFailure SfPolicyRejected, [], [expected_record [''customers''] (DPolicyRejected
        \<lparr>pj_reason = RrInsertTargetNotAllowed, pj_statement_type = StInsert, pj_statement_count = 1\<rparr>)])"
  by code_simp

lemma InsertExecutionFailureIsAuditedAsADatabaseFailure:
  "observe (fake_adapters parsed_order_insert default_ExecutionResult AppendOk) ''INSERT INTO orders'' =
     (SrFailure SfQueryFailed, [''INSERT INTO orders''],
      [expected_record [''orders''] (DDatabaseFailure \<lparr>df_category = DbExecutionFailure, df_statement_type = StInsert\<rparr>)])"
  by code_simp

lemma UnsafeTableMetadataIsOmittedWithoutChangingTheResponse:
  "case observe (fake_adapters (with_statement (\<lambda>p. p\<lparr>ps_tables := [\<lparr>tr_schema = ''public'', tr_name = ''customers''\<rparr>]\<rparr>)
         (parsed_select [''id''] False)) (ok_result [''id''] [[Some ''1'']]) AppendOk) ''SELECT id FROM public.customers'' of
     (result, _, recs) \<Rightarrow> result = SrSuccess \<lparr>mq_column_names = [''id''], mq_rows = [[Some ''1'']]\<rparr> \<and>
        map ar_referenced_tables recs = [\<lparr>tm_state = TabOmitted, tm_tables = []\<rparr>]"
  by code_simp

text \<open>Exceptions of the ports, a broken count and a repository that does not store.\<close>

lemma UnexpectedExceptionsBecomeInternalFailures:
  "observe \<lparr>ad_parse = (\<lambda>_. Inl ForeignException), ad_execute = fake_execute default_ExecutionResult False,
       ad_append = fake_append AppendOk\<rparr> ''SELECT id FROM customers'' =
     (SrFailure SfInternalError, [], [expected_record [] DInternalFailure])"
  "observe \<lparr>ad_parse = fake_parse (parsed_select [''id''] False), ad_execute = fake_execute default_ExecutionResult True,
       ad_append = fake_append AppendOk\<rparr> ''SELECT id FROM customers'' =
     (SrFailure SfInternalError, [''SELECT id FROM customers''], [expected_record [] DInternalFailure])"
  "observe (fake_adapters (parsed_select [''id''] False) (ok_result [''id''] [[Some ''1'']]\<lparr>ex_row_count := - 1\<rparr>) AppendOk)
       ''SELECT id FROM customers'' =
     (SrFailure SfInternalError, [''SELECT id FROM customers''], [expected_record [] DInternalFailure])"
  by (code_simp, code_simp, code_simp)

lemma AuditFailureOnSuccessWithholdsAllData:
  "case observe (fake_adapters (parsed_select [''email''] False) (ok_result [''email''] [[Some ''lihi.roas@example.com'']])
       AppendWriteFailure) ''SELECT email FROM customers'' of
     (result, _, recs) \<Rightarrow> result = SrFailure SfInternalError \<and> map outcome recs = [OutSuccess]"
  by code_simp

lemma AuditFailureOnFailedRequestPreservesOriginalFailure:
  "case observe (fake_adapters (with_statement (\<lambda>p. p\<lparr>ps_type := StInsert\<rparr>) (parsed_select [] False)) default_ExecutionResult
       AppendOpenFailure) ''INSERT INTO customers ...'' of
     (result, _, recs) \<Rightarrow> result = SrFailure SfPolicyRejected \<and> length recs = 1"
  by code_simp

lemma ThrowingAuditRepositoryIsHandledLikeAFailure:
  "(let (result, s) = handle \<lparr>ad_parse = fake_parse (parsed_select [''email''] False),
          ad_execute = fake_execute (ok_result [''email''] [[Some ''lihi.roas@example.com'']]) False,
          ad_append = (\<lambda>calls rec. (Inl ForeignException, Suc calls))\<rparr> 5 ''SELECT email FROM customers''
        \<lparr>sv_classifier = sv_classifier fresh_service, sv_next_request_id = 1, sv_db = [], sv_sink = 0, sv_syslog = Some []\<rparr>
    in result = SrFailure SfInternalError \<and> sv_sink s = 1)"
  by code_simp

lemma EveryRequestProducesExactlyOneRecordWithAMonotonicId:
  "(let good = fake_adapters (parsed_select [''id''] False) (ok_result [''id''] [[Some ''1'']]) AppendOk;
        bad = fake_adapters ((parsed_select [''id''] False)\<lparr>pr_success := False\<rparr>) (ok_result [''id''] [[Some ''1'']]) AppendOk;
        s1 = snd (handle good 5 ''SELECT id FROM customers'' fresh_service);
        s2 = snd (handle bad 6 ''SELEC id FROM customers'' s1);
        s3 = snd (handle bad 7 [] s2)
    in map outcome (sv_sink s3) = [OutSuccess, OutParsingFailure, OutPolicyRejected] \<and>
       map ar_request_id (sv_sink s3) = [1, 2, 3] \<and> map ar_timestamp_ms (sv_sink s3) = [5, 6, 7])"
  by code_simp

end
