(* ===== verification/Spec2Isabelle.thy ===== *)
theory Spec2Isabelle
  imports Hyrise_Policy Noninterference Parallel_Program Response_Total Adapter_Tests
begin

text \<open>
  \<^bold>\<open>Verification of the SQL proxy service.\<close>

  The program is an HTTP service between a client and a PostgreSQL database. A request's SQL text
  is parsed and analyzed, a policy decides whether it may run, the database executes it, the result
  columns are classified, PII cells are masked, one audit record is appended to a JSON Lines file,
  and only then does a result leave. All paths below are under \<open>src/src\<close>.

  \<^bold>\<open>Theories and the code they model.\<close>

  \<^item> \<open>Prelude\<close>: exceptions as sums, bytes and ASCII case folding, \<open>find\<close> and
    \<open>rfind\<close>, decimal text and \<open>std::from_chars\<close>.
  \<^item> \<open>Sql_Analysis\<close> (\<open>core/sql_analysis\<close>), \<open>Ports\<close> (\<open>ports/\<close>): the data
    model, and the contracts of the parser and executor ports as the locales
    \<open>sql_parser_port\<close> and \<open>query_executor_port\<close>.
  \<^item> \<open>Sql_Analyzer\<close> (\<open>core/sql_analyzer.cpp\<close>), \<open>Policy_Engine\<close>
    (\<open>core/policy_engine.cpp\<close>), \<open>Data_Classifier\<close> (\<open>core/data_classifier.cpp\<close>),
    \<open>Pii_Masker\<close> (\<open>core/pii_masker.cpp\<close>), \<open>Audit_Record\<close>
    (\<open>core/audit_record.cpp\<close>): one theory per component of the core, one definition per
    function; a function with several stages is cut where the code's comments cut it. The decision
    and the classification have the contracts \<open>policy_contract\<close> and
    \<open>classifier_contract\<close>, interpreted on the code's functions; the classification is specified on
    the list of projected items, which \<open>Hyrise_Policy\<close> takes from the select list.
  \<^item> \<open>Proxy_Service\<close> (\<open>core/proxy_service.cpp\<close>): \<open>process\<close> and
    \<open>handle\<close>. The ports are a record of functions that may throw and that thread the
    database and the audit sink; the service's members, both of these and the system log are the
    record \<open>ProxyService\<close>. The locales \<open>proxy_ports\<close> and \<open>audited_ports\<close> hold what
    follows when the ports keep their contracts.
  \<^item> \<open>Hyrise_Adapter\<close> (\<open>parser/hyrise_sql_parser.cpp\<close>), \<open>Postgres_Executor\<close>
    (\<open>postgres/postgres_query_executor.cpp\<close>), \<open>Jsonl_Audit\<close> with
    \<open>Audit_Timestamp\<close> and \<open>Json\<close> (\<open>audit/jsonl_audit_repository.cpp\<close>): the three
    adapters, each interpreting the contract of its port.
  \<^item> \<open>Http_Routes\<close> (\<open>http/routes.cpp\<close>, \<open>http/http_server.cpp\<close>), \<open>Config\<close>
    (\<open>config/config.cpp\<close>), \<open>Startup\<close> (\<open>main.cpp\<close>, \<open>logging/system_log.cpp\<close>):
    the routes, the settings and the process entry point. \<open>production_adapters\<close> is the wiring
    of \<open>main\<close>, at which the locales of the service are interpreted.
  \<^item> \<open>Hyrise_Policy\<close>: parser adapter, analyzer and policy together. \<open>Utf8_Masking\<close>: masked
    text stays well-formed UTF-8. \<open>Response_Total\<close>: so response bodies can be printed and no
    route handler throws.
  \<^item> \<open>Mutex\<close>: threads around one lock. The locale \<open>mutex_protocol\<close> has the invariant that the
    answers given are those of a serial execution; \<open>lock_program\<close> extends it by the actions of
    a thread, and its runs, any thread acting at any time, are serializable, exclusive and end with
    every request answered. It is interpreted three times: in \<open>Serving\<close> for the mutex of
    \<open>ProxyService::handle\<close>, in \<open>Audit_File\<close> for the one of
    \<open>JsonlAuditRepository::append\<close>, and in \<open>Nested_Locks\<close> for both, the second taken
    inside the first. The actions are the effects of the functions on shared state. \<open>lock_run\<close>
    keeps the order in which the lock was taken.
    \<open>Front_End\<close>: a locale that extends \<open>lock_program\<close> by clients who prepare their request
    before the lock and render their answer after it, as the HTTP callbacks do.
  \<^item> \<open>Service_Spec\<close>: an abstract specification of the service, without exceptions, stages or
    files, and the simulation that shows \<open>ProxyService\<close> over the production adapters
    implements it. \<open>Deployment\<close>: the program that \<open>main\<close> built, serving HTTP requests,
    implements the specification run on the SQL texts in them. \<open>Parallel_Program\<close>: so does the
    program whose callbacks run in parallel threads, which interpret \<open>Front_End\<close> over
    \<open>Nested_Locks\<close>. \<open>Noninterference\<close>: what of the database's answers can be observed.
  \<^item> \<open>Fakes\<close> (\<open>tests/fakes\<close>) and \<open>Production_Demo\<close>: concrete ports and libraries,
    at which the witnesses evaluate. \<open>Core_Tests\<close>, \<open>Service_Tests\<close>, \<open>Adapter_Tests\<close>: the test
    cases of \<open>tests/\<close> that need no socket, database or library, evaluated on the definitions.

  \<^bold>\<open>What is shown.\<close> C1 to C4, C8, C9: what may reach the database, what may leave, and that it
  is audited. C5, C10: the service implements its specification and succeeds exactly when it should;
  C11: so does the program, from \<open>main\<close> to the HTTP responses; C12: also when its callbacks run in
  parallel. C6: unmasked data has no influence on what can be observed. C7, C13, C16, C37: parallel
  requests and parallel appends are serial, the requests in the order in which they took the lock,
  also with both locks, and they end. C14, C15, C33: the
  production composition's errors and audit file. C17 to C21: the HTTP contract. C3, C22: the policy,
  from the syntax tree to the decision. C23 to C28: classification and masking, with C40 as the limit
  of what is masked. C29 to C32, C34 and C35: audit records, their JSON, their file, their times and
  their ids. C36: the database adapter. C38, C39: startup. Lemmas beside them settle smaller
  questions: the shapes the policy allows, the normal form of table lists, the translation of driver
  results, mutual exclusion, the settings that are accepted and the texts of configuration errors.

  \<^bold>\<open>Parameters.\<close> Libraries whose code is not part of the repository are arguments: the SQL
  parser (\<open>hsql_parse\<close>, with the comparison of a float literal with zero as \<open>fpos\<close>),
  libpqxx (\<open>Pqxx\<close>), the JSON parser and printer (\<open>json_parse\<close>, \<open>dump\<close>), opening the
  audit file (\<open>open_audit\<close>), listening on a port (\<open>listen\<close>), the choice of the
  callback for a request (\<open>route\<close>), the environment (\<open>getenv\<close>) and the clock (\<open>timestamp_ms\<close>).
  The syntax-tree types hold the fields the adapter reads, with one constructor for the type tags it
  does not tell apart. A file stream carries the faults its device will have.

  \<^bold>\<open>Integers and loops.\<close> The request id is a 64-bit word and wraps; the port is a 16-bit word;
  the statement count goes through the 32-bit cast of the code, which is why C5, C11, C12, C14 and C17
  exclude counts from 2 to the 31 on. Other counts are natural numbers or integers: they count elements of
  vectors in memory. Every loop is a terminating function, so no fuel is used; runs of threads have a
  decreasing measure. The calendar of \<open>gmtime_r\<close> is defined for all instants; C31 and C34 are stated up to the
  year 9999, where the format's width ends; a 64-bit clock reading never gets there.

  \<^bold>\<open>Not modelled.\<close> The inside of the libraries, socket handling and the HTTP library's
  matching of requests to callbacks, log formatting and levels, running out of memory, an early
  spill of a stream buffer that a long line fills (the device sees one write per append), and the
  bytes an output stream may still hold when the process ends.
\<close>

section \<open>Lemmas that span components\<close>

text \<open>A cell of a successful read, by the class of its column.\<close>

lemma success_cell:
  assumes q: "fst (handle ad ts sql s) = SrSuccess q"
    and a: "analyze (ad_parse ad) sql = Inr a" and r: "fst (ad_execute ad (sv_db s) sql) = Inr r"
    and "row < length (mq_rows q)" "i < length (mq_column_names q)"
  shows "row < length (ex_rows r) \<and> i < length (ex_columns r) \<and> attributable a (ex_columns r) \<and>
    mq_rows q ! row ! i = mask_by_class (classify_column (sv_classifier s) a (ex_columns r) i) (ex_rows r ! row ! i)"
  using q
proof (rule handle_success_origin)
  fix a' r'
  assume "analyze (ad_parse ad) sql = Inr a'" "fst (ad_execute ad (sv_db s) sql) = Inr r'"
    and p: "process_executed (sv_classifier s) a' r' ts (sv_next_request_id s) = Inr (handle_processing ad ts sql s)"
    and q: "pg_result (handle_processing ad ts sql s) = SrSuccess q"
  with a r have [simp]: "a' = a" "r' = r" by simp_all
  let ?c = "classify (sv_classifier s) a (ex_columns r)"
  from process_executed_success[OF p q] have names: "mq_column_names q = map ci_name (ex_columns r)"
    and m: "mask_result r ?c = MaskSuccess (r\<lparr>ex_rows := mq_rows q\<rparr>)"
    by simp_all
  from m have rect: "rectangular r" and full: "cr_fully_attributed ?c"
    and "ex_rows (r\<lparr>ex_rows := mq_rows q\<rparr>) = map (map2 mask_by_class (cr_columns ?c)) (ex_rows r)"
    by (simp_all add: mask_success_iff)
  then have rows: "mq_rows q = map (map2 mask_by_class (cr_columns ?c)) (ex_rows r)" by simp
  from rows names assms(4,5) have row: "row < length (ex_rows r)" and i: "i < length (ex_columns r)"
    by simp_all
  with rect have len: "length (ex_rows r ! row) = length (ex_columns r)" by (simp add: rectangular_def)
  from i full have att: "attributable a (ex_columns r)" by (auto simp: fully_attributed_iff)
  have "mq_rows q ! row ! i = mask_by_class (classify_column (sv_classifier s) a (ex_columns r) i) (ex_rows r ! row ! i)"
    using row i len by (simp add: rows classify_nth[OF i att])
  with row i att show ?thesis by blast
qed

text \<open>The name a column of an attributable statement is looked up by.\<close>

definition source_name :: "SqlAnalysis \<Rightarrow> ColumnInfo list \<Rightarrow> nat \<Rightarrow> string" where
  "source_name a cols i =
     ascii_lower (if an_has_wildcard_projection a then ci_name (cols ! i)
                  else strip_qualifier (an_projection_columns a ! i))"

lemma classify_column_source:
  assumes "attributable a cols" and "\<not> an_has_safe_count_star_projection a"
  shows "classify_column m a cols i = (case m (source_name a cols i) of None \<Rightarrow> not_pii | Some c \<Rightarrow> pii c)"
proof -
  have "\<not> count_star_only_shape a" "positional_shape a cols \<longleftrightarrow> \<not> an_has_wildcard_projection a"
    using assms by (auto simp: attributable_def positional_shape_def wildcard_shape_def count_star_only_shape_def)
  then show ?thesis by (simp add: classify_column_def source_name_def)
qed

lemma handle_append_record:
  "ad_append ad (sv_sink s) (pg_record (handle_processing ad ts sql s)) = (x, sink') \<Longrightarrow>
     handle_append ad ts sql s = (case x of Inl e \<Rightarrow> AppendWriteFailure | Inr res \<Rightarrow> res, sink')"
  by (simp add: handle_append_def append_safely_def split: sum.split)

section \<open>The pipeline\<close>

text \<open>
  C1. The database is touched only by an authorized statement: if a request changes the database
  state behind the executor, then its text was analyzed as exactly one statement, of the
  authorized SELECT form or of the one authorized INSERT form, and the executor ran once, on that
  very text. This holds for any ports, throwing ones included.
\<close>

theorem database_changes_only_when_authorized:
  assumes "sv_db (snd (handle ad ts sql s)) \<noteq> sv_db s"
  shows "\<exists>a. analyze (ad_parse ad) sql = Inr a \<and> an_status a = AnOk \<and> an_statement_count a = 1 \<and>
    (authorized_select a \<and> an_statement_type a = StSelect \<or> authorized_insert a) \<and>
    sv_db (snd (handle ad ts sql s)) = snd (ad_execute ad (sv_db s) sql)"
proof -
  from assms have "authorized_sql (ad_parse ad) sql"
    by (simp add: process_db split: if_splits)
  then obtain a where a: "analyze (ad_parse ad) sql = Inr a" "pd_allowed (evaluate a)"
    by (auto simp: authorized_sql_def split: sum.splits)
  from a(1) have "consistent_analysis a" by (rule analyze_consistent)
  with a(2) have "authorized_select a \<and> an_statement_type a = StSelect \<or> authorized_insert a"
    using engine.allowed_statement_type by blast
  with a \<open>authorized_sql _ _\<close> show ?thesis
    using engine.decide_single by (auto simp: process_db)
qed

theorem database_changes_only_when_authorized_witness:
  "sv_db (snd (handle demo_adapters 0 demo_sql fresh_service)) \<noteq> sv_db fresh_service \<and>
   (\<exists>a. analyze (ad_parse demo_adapters) demo_sql = Inr a \<and> an_status a = AnOk)"
proof -
  have h: "sv_db (snd (handle demo_adapters 0 demo_sql fresh_service)) \<noteq> sv_db fresh_service"
    by code_simp
  from database_changes_only_when_authorized[OF h] h show ?thesis by blast
qed

text \<open>
  C2. What a successful read returns: the executor's own columns by name and in order, every row,
  and each cell masked by the classification of its column, none of which is unattributed.
\<close>

theorem success_is_masked:
  assumes "fst (handle ad ts sql s) = SrSuccess q"
  shows "\<exists>a r. analyze (ad_parse ad) sql = Inr a \<and> fst (ad_execute ad (sv_db s) sql) = Inr r \<and>
    ex_status r = ExOk \<and> mq_column_names q = map ci_name (ex_columns r) \<and>
    mq_rows q = map (map2 mask_by_class (cr_columns (classify (sv_classifier s) a (ex_columns r)))) (ex_rows r) \<and>
    (\<forall>c \<in> set (cr_columns (classify (sv_classifier s) a (ex_columns r))). cc_data_class c \<noteq> Unattributed)"
  using assms
proof (rule handle_success_origin)
  fix a r
  assume a: "analyze (ad_parse ad) sql = Inr a" and r: "fst (ad_execute ad (sv_db s) sql) = Inr r"
    and p: "process_executed (sv_classifier s) a r ts (sv_next_request_id s) =
      Inr (handle_processing ad ts sql s)"
    and q: "pg_result (handle_processing ad ts sql s) = SrSuccess q"
  let ?c = "classify (sv_classifier s) a (ex_columns r)"
  from process_executed_success[OF p q] have ok: "ex_status r = ExOk"
    and names: "mq_column_names q = map ci_name (ex_columns r)"
    and m: "mask_result r ?c = MaskSuccess (r\<lparr>ex_rows := mq_rows q\<rparr>)"
    by simp_all
  from m have "r\<lparr>ex_rows := mq_rows q\<rparr> = r\<lparr>ex_rows := map (map2 mask_by_class (cr_columns ?c)) (ex_rows r)\<rparr>"
    and full: "cr_fully_attributed ?c" and wf: "well_formed_classification (length (ex_columns r)) ?c"
    by (simp_all add: mask_success_iff)
  then have "ex_rows (r\<lparr>ex_rows := mq_rows q\<rparr>) = map (map2 mask_by_class (cr_columns ?c)) (ex_rows r)"
    by simp
  with a r ok names full wf show ?thesis
    by (auto simp: well_formed_classification_def)
qed

theorem success_is_masked_witness:
  "\<exists>q. fst (handle demo_adapters 0 demo_sql fresh_service) = SrSuccess q \<and>
     mq_rows q = [[Some ''1'', Some ''l***@example.com'']] \<and>
     (\<exists>r. fst (ad_execute demo_adapters (sv_db fresh_service) demo_sql) = Inr r \<and>
       mq_column_names q = map ci_name (ex_columns r))"
proof -
  let ?q = "\<lparr>mq_column_names = [''id'', ''email''], mq_rows = [[Some ''1'', Some ''l***@example.com'']]\<rparr>"
  have h: "fst (handle demo_adapters 0 demo_sql fresh_service) = SrSuccess ?q" by code_simp
  from success_is_masked[OF h] h show ?thesis by auto
qed

text \<open>
  C4. No success without an audit record: when a request succeeds, a read or a write, the audit
  repository accepted exactly one record for it before the result left, a valid SUCCESS record with
  the request's own time and id that describes this very result. The record of a read has the
  executor's row count, the number of columns, the numbers of columns classified as each kind of
  PII, and the tables of the statement.
\<close>

theorem success_is_audited:
  assumes "succeeded (fst (handle ad ts sql s))"
  shows "\<exists>rec. ad_append ad (sv_sink s) rec = (Inr AppendOk, sv_sink (snd (handle ad ts sql s))) \<and>
    outcome rec = OutSuccess \<and> valid_record rec \<and> ar_timestamp_ms rec = ts \<and>
    ar_request_id rec = sv_next_request_id s \<and> describes (ar_details rec) (fst (handle ad ts sql s)) \<and>
    (\<forall>q. fst (handle ad ts sql s) = SrSuccess q \<longrightarrow>
       (\<exists>a r. analyze (ad_parse ad) sql = Inr a \<and> fst (ad_execute ad (sv_db s) sql) = Inr r \<and>
          records_read (sv_classifier s) a r rec))"
proof -
  let ?p = "handle_processing ad ts sql s"
  have ok: "fst (handle_append ad ts sql s) = AppendOk" and res: "fst (handle ad ts sql s) = pg_result ?p"
    using assms by (auto simp: handle_result split: if_splits)
  obtain x sink' where x: "ad_append ad (sv_sink s) (pg_record ?p) = (x, sink')" by fastforce
  from ok handle_append_record[OF x] have "x = Inr AppendOk" "sv_sink (snd (handle ad ts sql s)) = sink'"
    by (auto split: sum.splits)
  moreover have "well_recorded ts (sv_next_request_id s) ?p" by (rule handle_recorded)
  moreover have "outcome (pg_record ?p) = OutSuccess"
    using calculation(3) assms res describes_succeeded unfolding well_recorded_def by metis
  moreover have "\<exists>a r. analyze (ad_parse ad) sql = Inr a \<and> fst (ad_execute ad (sv_db s) sql) = Inr r \<and>
      records_read (sv_classifier s) a r (pg_record ?p)" if "fst (handle ad ts sql s) = SrSuccess q" for q
    using handle_success_origin[OF that] process_executed_records by metis
  ultimately show ?thesis
    using x res by (intro exI[of _ "pg_record ?p"]) (simp add: well_recorded_def)
qed

theorem success_is_audited_witness:
  "\<exists>rec. ad_append demo_adapters (sv_sink fresh_service) rec =
       (Inr AppendOk, sv_sink (snd (handle demo_adapters 0 demo_sql fresh_service))) \<and> outcome rec = OutSuccess"
proof -
  have "succeeded (fst (handle demo_adapters 0 demo_sql fresh_service))" by code_simp
  from success_is_audited[OF this] show ?thesis by blast
qed

text \<open>
  C8. Every request is audited once: whatever the ports do, a request uses one id, makes exactly one
  append, of a valid record with that id and the request's time, and answers with the outcome the
  record describes; the one exception is a success whose record was not accepted, which becomes an
  internal error.
\<close>

theorem one_append_per_request:
  "\<exists>rec answer. valid_record rec \<and> ar_timestamp_ms rec = ts \<and> ar_request_id rec = sv_next_request_id s \<and>
     describes (ar_details rec) answer \<and>
     sv_sink (snd (handle ad ts sql s)) = snd (ad_append ad (sv_sink s) rec) \<and>
     sv_next_request_id (snd (handle ad ts sql s)) = sv_next_request_id s + 1 \<and>
     fst (handle ad ts sql s) =
       (if succeeded answer \<and> fst (ad_append ad (sv_sink s) rec) \<noteq> Inr AppendOk
        then SrFailure SfInternalError else answer)"
proof -
  let ?p = "handle_processing ad ts sql s"
  obtain x sink' where x: "ad_append ad (sv_sink s) (pg_record ?p) = (x, sink')" by fastforce
  have "fst (handle_append ad ts sql s) \<noteq> AppendOk \<longleftrightarrow> x \<noteq> Inr AppendOk"
    using handle_append_record[OF x] by (cases x) simp_all
  moreover have "well_recorded ts (sv_next_request_id s) ?p" by (rule handle_recorded)
  ultimately show ?thesis
    using x handle_append_record[OF x]
    by (intro exI[of _ "pg_record ?p"] exI[of _ "pg_result ?p"]) (simp add: well_recorded_def handle_result)
qed

text \<open>
  C9. Known PII columns leave masked: in every successful read, a column whose source name (the
  projected column without its qualifier, or the result column's name under a wildcard) is a mapped
  name, letter case ignored, holds in every row the executor's cell masked by the mapped category.
\<close>

theorem mapped_columns_masked:
  assumes "fst (handle ad ts sql s) = SrSuccess q"
    and "analyze (ad_parse ad) sql = Inr a" and "fst (ad_execute ad (sv_db s) sql) = Inr r"
    and "row < length (mq_rows q)" and "i < length (mq_column_names q)"
    and "\<not> an_has_safe_count_star_projection a"
    and "sv_classifier s (source_name a (ex_columns r) i) = Some category"
  shows "mq_rows q ! row ! i = mask_cell category (ex_rows r ! row ! i)"
  using success_cell[OF assms(1-5)] assms(6,7)
  by (simp add: classify_column_source mask_by_class_def)

theorem mapped_columns_masked_witness:
  "\<exists>q r. fst (handle demo_adapters 0 demo_sql fresh_service) = SrSuccess q \<and>
     fst (ad_execute demo_adapters (sv_db fresh_service) demo_sql) = Inr r \<and>
     mq_rows q ! 0 ! 1 = mask_cell PiiEmail (ex_rows r ! 0 ! 1)"
proof -
  let ?q = "\<lparr>mq_column_names = [''id'', ''email''], mq_rows = [[Some ''1'', Some ''l***@example.com'']]\<rparr>"
  let ?a = "projr (analyze (ad_parse demo_adapters) demo_sql)"
  have q: "fst (handle demo_adapters 0 demo_sql fresh_service) = SrSuccess ?q" by code_simp
  have a: "analyze (ad_parse demo_adapters) demo_sql = Inr ?a" by code_simp
  have r: "fst (ad_execute demo_adapters (sv_db fresh_service) demo_sql) = Inr demo_result" by code_simp
  have n: "\<not> an_has_safe_count_star_projection ?a"
    "sv_classifier fresh_service (source_name ?a (ex_columns demo_result) 1) = Some PiiEmail"
    by (code_simp, code_simp)
  have "mq_rows ?q ! 0 ! 1 = mask_cell PiiEmail (ex_rows demo_result ! 0 ! 1)"
    by (rule mapped_columns_masked[OF q a r _ _ n]) simp_all
  with q r show ?thesis by blast
qed

section \<open>The production composition\<close>

text \<open>
  C14. Internal errors have two causes: with the production adapters, whatever the parser library and
  the database driver do (short of a text with 2 to the 31 statements), an internal error is reported
  only when the authorized INSERT changed a number of rows other than one, or when the audit record
  could not be stored. No exception of a component, no malformed result and no record that cannot be
  built is ever the cause.
\<close>

theorem internal_error_only:
  assumes "\<And>result. hsql_parse sql = Some result \<Longrightarrow> length (spr_statements result) < 2 ^ 31"
    and "fst (handle (production_adapters fpos hsql_parse px config dump) ts sql s) = SrFailure SfInternalError"
  shows "(\<exists>a r. analyze (hyrise_parse fpos hsql_parse) sql = Inr a \<and> authorized_insert a \<and>
            fst (postgres_execute px config (sv_db s) sql) = Inr r \<and> ex_status r = ExOk \<and>
            ex_affected_rows r \<noteq> 1) \<or>
         fst (jsonl_append dump (sv_sink s)
           (pg_record (handle_processing (production_adapters fpos hsql_parse px config dump) ts sql s))) \<noteq> Inr AppendOk"
proof -
  let ?ad = "production_adapters fpos hsql_parse px config dump"
  have count: "length (pr_statements r) < 2 ^ 31" if "ad_parse ?ad sql = Inr r" for r
  proof (cases "hsql_parse sql")
    case (Some result)
    with that assms(1)[OF Some] length_non_null[of "spr_statements result"] show ?thesis
      by (auto simp: hyrise_parse_def split: if_splits)
  qed (use that in \<open>auto simp: hyrise_parse_def\<close>)
  show ?thesis
  proof (cases "fst (handle_append ?ad ts sql s) = AppendOk")
    case True
    with production.internal_error_cause[OF count assms(2)] obtain a r where
      a: "analyze (hyrise_parse fpos hsql_parse) sql = Inr a" "pd_allowed (evaluate a)" "an_statement_type a = StInsert"
      and r: "fst (postgres_execute px config (sv_db s) sql) = Inr r" "ex_status r = ExOk" "ex_affected_rows r \<noteq> 1"
      by auto
    with engine.allowed_statement_type[OF a(2) analyze_consistent[OF a(1)]] show ?thesis by auto
  next
    case False
    then show ?thesis using handle_append_record[of ?ad s ts sql]
      by (cases "jsonl_append dump (sv_sink s) (pg_record (handle_processing ?ad ts sql s))") fastforce
  qed
qed

theorem internal_error_only_witness:
  "fst (handle (demo_production 2) 0 demo_insert_sql (demo_service demo_file)) = SrFailure SfInternalError \<and>
   (\<exists>a r. analyze (hyrise_parse (\<lambda>v. 0 < v) demo_hsql) demo_insert_sql = Inr a \<and> authorized_insert a \<and>
      fst (postgres_execute (demo_pqxx 2) demo_config (sv_db (demo_service demo_file)) demo_insert_sql) = Inr r \<and>
      ex_affected_rows r \<noteq> 1)"
proof -
  have run: "fst (handle (production_adapters (\<lambda>v. 0 < v) demo_hsql (demo_pqxx 2) demo_config (\<lambda>j. Inr (compact j)))
      0 demo_insert_sql (demo_service demo_file)) = SrFailure SfInternalError"
    using demo_insert_run by (simp add: demo_production_def)
  have "fst (handle_append (demo_production 2) 0 demo_insert_sql (demo_service demo_file)) = AppendOk"
    by (rule demo_append_ok) (simp_all add: demo_file_def JsonlAuditRepository_def)
  then have ok: "fst (jsonl_append (\<lambda>j. Inr (compact j)) (sv_sink (demo_service demo_file))
      (pg_record (handle_processing (demo_production 2) 0 demo_insert_sql (demo_service demo_file)))) = Inr AppendOk"
    by (auto simp: handle_append_def append_safely_def jsonl_append_def Let_def split: sum.splits if_splits)
  have "(\<exists>a r. analyze (hyrise_parse (\<lambda>v. 0 < v) demo_hsql) demo_insert_sql = Inr a \<and> authorized_insert a \<and>
      fst (postgres_execute (demo_pqxx 2) demo_config (sv_db (demo_service demo_file)) demo_insert_sql) = Inr r \<and>
      ex_status r = ExOk \<and> ex_affected_rows r \<noteq> 1) \<or>
    fst (jsonl_append (\<lambda>j. Inr (compact j)) (sv_sink (demo_service demo_file))
      (pg_record (handle_processing (demo_production 2) 0 demo_insert_sql (demo_service demo_file)))) \<noteq> Inr AppendOk"
    unfolding demo_production_def by (rule internal_error_only[OF _ run]) simp
  with ok demo_insert_run show ?thesis by blast
qed

text \<open>
  C15. The audit file holds every success: with the production adapters, after a successful request
  the file is what it was plus one line, the printed JSON of a valid SUCCESS record of that request;
  and no request, successful or not, ever changes or removes a byte that was there.
\<close>

theorem audit_file_gets_success:
  "prefix (os_content (sv_sink s))
     (os_content (sv_sink (snd (handle (production_adapters fpos hsql_parse px config dump) ts sql s)))) \<and>
   (succeeded (fst (handle (production_adapters fpos hsql_parse px config dump) ts sql s)) \<longrightarrow>
      (\<exists>rec line. valid_record rec \<and> outcome rec = OutSuccess \<and> ar_request_id rec = sv_next_request_id s \<and>
         and_then (serialize rec) dump = Inr line \<and>
         os_content (sv_sink (snd (handle (production_adapters fpos hsql_parse px config dump) ts sql s))) =
           os_content (sv_sink s) @ line @ [newline]))"
proof (intro conjI impI)
  let ?ad = "production_adapters fpos hsql_parse px config dump"
  let ?s' = "snd (handle ?ad ts sql s)" and ?p = "handle_processing ?ad ts sql s"
  show "prefix (os_content (sv_sink s)) (os_content (sv_sink ?s'))"
    by (rule production_audit.stored_extends)
  assume ok: "succeeded (fst (handle ?ad ts sql s))"
  have rec: "well_recorded ts (sv_next_request_id s) ?p" by (rule handle_recorded)
  from ok have app: "fst (handle_append ?ad ts sql s) = AppendOk" and res: "fst (handle ?ad ts sql s) = pg_result ?p"
    by (auto simp: handle_result split: if_splits)
  from production_audit.handle_append_ok[OF app]
  have "fst (jsonl_append dump (sv_sink s) (pg_record ?p)) = Inr AppendOk" by simp
  from jsonl_append_ok_line[OF this] obtain line where line: "dump (record_json (pg_record ?p)) = Inr line"
    "jsonl_line dump (pg_record ?p) = line @ [newline]"
    by blast
  have "os_content (sv_sink ?s') = os_content (sv_sink s) @ jsonl_line dump (pg_record ?p)"
    by (rule production_audit.stored_success[OF ok])
  moreover have "outcome (pg_record ?p) = OutSuccess"
    using rec ok res describes_succeeded unfolding well_recorded_def by metis
  ultimately show "\<exists>rec line. valid_record rec \<and> outcome rec = OutSuccess \<and>
      ar_request_id rec = sv_next_request_id s \<and> and_then (serialize rec) dump = Inr line \<and>
      os_content (sv_sink ?s') = os_content (sv_sink s) @ line @ [newline]"
    using rec line by (intro exI[of _ "pg_record ?p"] exI[of _ line]) (simp add: well_recorded_def serialize_eq)
qed

theorem audit_file_gets_success_witness:
  "\<exists>rec line. valid_record rec \<and> outcome rec = OutSuccess \<and>
     os_content (sv_sink (snd (handle (demo_production 1) 0 demo_sql (demo_service demo_file)))) = line @ [newline]"
proof -
  have "succeeded (fst (handle (demo_production 1) 0 demo_sql (demo_service demo_file)))"
    using demo_run by simp
  moreover have "os_content (sv_sink (demo_service demo_file)) = []"
    by (simp add: demo_service_def demo_file_def JsonlAuditRepository_def)
  ultimately show ?thesis
    using audit_file_gets_success[where fpos = "\<lambda>v. 0 < v" and hsql_parse = demo_hsql and px = "demo_pqxx 1"
        and config = demo_config and dump = "\<lambda>j. Inr (compact j)" and ts = 0 and sql = demo_sql
        and s = "demo_service demo_file"]
    unfolding demo_production_def by (auto simp del: handle_state)
qed

text \<open>
  C17. A denial reveals no reason: every request that the policy denies, except an empty or an
  unparseable one, gets the same response, a 403 with one code and one message, whatever rule denied
  it, whatever the statement was and whether or not its audit record could be stored; and it never
  reaches the database.
\<close>

theorem denial_opacity:
  assumes "controlled_sql json_parse request = Some sql" and "analyze (ad_parse ad) sql = Inr a"
    and "\<not> pd_allowed (evaluate a)" and "an_status a \<notin> {AnEmptyInput, AnParseError}"
    and "0 \<le> an_statement_count a"
  shows "fst (handle_query_request json_parse dump ad ts request response s) =
      set_json dump 403 (JObject [(''error'', JString ''policy_rejected''),
        (''message'', JString ''The statement was rejected by policy.'')]) response \<and>
    sv_db (snd (handle_query_request json_parse dump ad ts request response s)) = sv_db s"
proof -
  have reason: "pd_reason (evaluate a) \<notin> {RrNone, RrNotEvaluated, RrUnparseableSql}"
    "pd_reason (evaluate a) \<noteq> RrEmptyInput"
    using engine.denied_reason[OF assms(3)] assms(4) evaluate_empty[of a] by auto
  then have "pg_result (handle_processing ad ts sql s) = SrFailure SfPolicyRejected"
    using assms(2,3,5)
    by (simp add: handle_processing_def process_def process_denied_def recover_def checked_count_simps
        policy_rejected_ok client_failure_for_eq)
  then have "fst (handle ad ts sql s) = SrFailure SfPolicyRejected" by (simp add: handle_result)
  moreover have "\<not> authorized_sql (ad_parse ad) sql" using assms(2,3) by (simp add: authorized_sql_def)
  ultimately show ?thesis
    by (simp add: handle_query_request_controlled[OF assms(1)] respond_eq process_db)
qed

definition demo_drop :: "(string list, AuditRecord list) Adapters" where
  "demo_drop = fake_adapters \<lparr>pr_success = True,
     pr_statements = [default_ParsedStatement\<lparr>ps_type := StDrop\<rparr>], pr_error = []\<rparr> demo_result AppendWriteFailure"

theorem denial_opacity_witness:
  "sv_db (snd (handle_query_request (\<lambda>_. Some (JObject [(''sql'', JString ''DROP TABLE customers'')]))
     (\<lambda>j. Inr (compact j)) demo_drop 0 \<lparr>rq_content_type = ''application/json'', rq_body = []\<rparr>
     \<lparr>rs_status = -1, rs_body = [], rs_content_type = []\<rparr> fresh_service)) = sv_db fresh_service"
proof -
  let ?a = "projr (analyze (ad_parse demo_drop) ''DROP TABLE customers'')"
  have c: "controlled_sql (\<lambda>_. Some (JObject [(''sql'', JString ''DROP TABLE customers'')]))
      \<lparr>rq_content_type = ''application/json'', rq_body = []\<rparr> = Some ''DROP TABLE customers''"
    by (simp add: controlled_sql_def)
  have a: "analyze (ad_parse demo_drop) ''DROP TABLE customers'' = Inr ?a" by code_simp
  have d: "\<not> pd_allowed (evaluate ?a)" "an_status ?a \<notin> {AnEmptyInput, AnParseError}" "0 \<le> an_statement_count ?a"
    by (code_simp, code_simp, code_simp)
  from denial_opacity[OF c a d] show ?thesis by blast
qed

text \<open>
  C19. Only one kind of request reaches the service: with any routing that selects registered
  callbacks only, a request changes the state of the service (its counter, the database, the audit
  sink, the system log) only as a POST to /query with an acceptable body, and then exactly as one
  call of the service on the text in that body does. The health check and every unmatched request
  leave it as it was.
\<close>

theorem only_query_reaches_service:
  assumes "\<And>server m path h. route server m path = Some h \<Longrightarrow> (callback_method m, path, h) \<in> set server"
    and "snd (http_dispatch route unmatched json_parse dump ad ts m path request response proxy) \<noteq> proxy"
  shows "\<exists>sql. m = POST \<and> path = ''/query'' \<and> controlled_sql json_parse request = Some sql \<and>
    http_dispatch route unmatched json_parse dump ad ts m path request response proxy =
      (respond dump (fst (handle ad ts sql proxy)) response, snd (handle ad ts sql proxy))"
proof -
  from assms(2) have q: "route HttpServer m path = Some QueryHandler"
    by (auto simp: http_dispatch_def run_handler_def split: option.splits handler.splits)
  then have disp: "http_dispatch route unmatched json_parse dump ad ts m path request response proxy =
      handle_query_request json_parse dump ad ts request response proxy"
    by (simp add: http_dispatch_def run_handler_def)
  from assms(1)[OF q] have "callback_method m = POST" "path = ''/query''"
    by (auto simp: HttpServer_def register_routes_def register_query_routes_def register_health_routes_def)
  moreover from this(1) have "m = POST" by (cases m) simp_all
  moreover have "controlled_sql json_parse request \<noteq> None"
    using assms(2) handle_query_request_rejected unfolding disp by blast
  ultimately show ?thesis
    unfolding disp using handle_query_request_controlled by fastforce
qed

theorem only_query_reaches_service_witness:
  "fst (http_dispatch literal_route (\<lambda>_ _. demo_response) demo_body (\<lambda>j. Inr (compact j)) demo_adapters 0 POST ''/query''
      demo_request demo_response fresh_service) =
   respond (\<lambda>j. Inr (compact j)) (fst (handle demo_adapters 0 demo_sql fresh_service)) demo_response"
proof -
  let ?d = "http_dispatch literal_route (\<lambda>_ _. demo_response) demo_body (\<lambda>j. Inr (compact j)) demo_adapters 0 POST ''/query''
      demo_request demo_response fresh_service"
  have "snd ?d = snd (handle demo_adapters 0 demo_sql fresh_service)"
    by (simp add: http_dispatch_def run_handler_def handle_query_request_controlled[OF demo_controlled]
        literal_route_simps)
  then have "sv_next_request_id (snd ?d) = sv_next_request_id fresh_service + 1" by simp
  then have "snd ?d \<noteq> fresh_service" by auto
  from only_query_reaches_service[OF literal_route_registered this] demo_controlled show ?thesis by auto
qed

text \<open>
  C33. A failed audit stream stops all successes: once a write to the audit file has failed, every
  later request of the process, reads and writes alike, ends without a success, and the file no
  longer changes: there is no recovery but a restart.
\<close>

theorem failed_audit_stream_blocks:
  assumes "os_is_open (sv_sink s)" and "\<not> os_good (sv_sink s)"
  shows "list_all (\<lambda>r. \<not> succeeded r) (fst (serve (production_adapters fpos hsql_parse px config dump) s es)) \<and>
    os_content (sv_sink (snd (serve (production_adapters fpos hsql_parse px config dump) s es))) = os_content (sv_sink s)"
  using assms
proof (induction es arbitrary: s)
  case (Cons e es)
  let ?ad = "production_adapters fpos hsql_parse px config dump"
  have app: "handle_append ?ad ts sql s = (AppendWriteFailure, sv_sink s)" for ts sql
    using Cons.prems by (simp add: handle_append_def append_safely_def jsonl_append_failed_stream)
  then have "sv_sink (snd (handle ?ad (fst e) (snd e) s)) = sv_sink s" by simp
  with Cons.IH[of "snd (handle ?ad (fst e) (snd e) s)"] Cons.prems app show ?case
    by (simp add: handle_result)
qed simp

theorem failed_audit_stream_blocks_witness:
  "list_all (\<lambda>r. \<not> succeeded r)
     (fst (serve (demo_production 1) (demo_service \<lparr>os_is_open = True, os_good = False, os_content = ''{'', os_faults = []\<rparr>)
        [(0, demo_sql)]))"
  using failed_audit_stream_blocks[of "demo_service \<lparr>os_is_open = True, os_good = False, os_content = ''{'', os_faults = []\<rparr>"
      "\<lambda>v. 0 < v" demo_hsql "demo_pqxx 1" demo_config "\<lambda>j. Inr (compact j)" "[(0, demo_sql)]"]
  by (simp add: demo_service_def demo_production_def del: serve_Cons)

text \<open>
  C40. What is not masked: in a successful read, a column whose source name is not a mapped name is
  returned verbatim, whatever its type. In particular the whole-row reference SELECT customers FROM
  customers, whose one column is the row as text, leaves with the e-mail address in it.
\<close>

theorem unmapped_columns_verbatim:
  assumes "fst (handle ad ts sql s) = SrSuccess q"
    and "analyze (ad_parse ad) sql = Inr a" and "fst (ad_execute ad (sv_db s) sql) = Inr r"
    and "row < length (mq_rows q)" and "i < length (mq_column_names q)"
    and "\<not> an_has_safe_count_star_projection a"
    and "sv_classifier s (source_name a (ex_columns r) i) = None"
  shows "mq_rows q ! row ! i = ex_rows r ! row ! i"
  using success_cell[OF assms(1-5)] assms(6,7)
  by (simp add: classify_column_source mask_by_class_def)

definition whole_row_adapters :: "(string list, AuditRecord list) Adapters" where
  "whole_row_adapters =
     fake_adapters (parsed_select [''customers''] False)
       (ok_result [''customers''] [[Some ''(1,Lihi,lihi.roas@example.com)'']]) AppendOk"

theorem unmapped_columns_verbatim_witness:
  "\<exists>q. fst (handle whole_row_adapters 0 ''SELECT customers FROM customers'' fresh_service) = SrSuccess q \<and>
     mq_rows q ! 0 ! 0 = Some ''(1,Lihi,lihi.roas@example.com)''"
proof -
  let ?sql = "''SELECT customers FROM customers''"
  let ?r = "ok_result [''customers''] [[Some ''(1,Lihi,lihi.roas@example.com)'']]"
  let ?q = "\<lparr>mq_column_names = [''customers''], mq_rows = [[Some ''(1,Lihi,lihi.roas@example.com)'']]\<rparr>"
  let ?a = "projr (analyze (ad_parse whole_row_adapters) ?sql)"
  have q: "fst (handle whole_row_adapters 0 ?sql fresh_service) = SrSuccess ?q" by code_simp
  have a: "analyze (ad_parse whole_row_adapters) ?sql = Inr ?a" by code_simp
  have r: "fst (ad_execute whole_row_adapters (sv_db fresh_service) ?sql) = Inr ?r" by code_simp
  have n: "\<not> an_has_safe_count_star_projection ?a"
    "sv_classifier fresh_service (source_name ?a (ex_columns ?r) 0) = None"
    by (code_simp, code_simp)
  have "mq_rows ?q ! 0 ! 0 = ex_rows ?r ! 0 ! 0"
    by (rule unmapped_columns_verbatim[OF q a r _ _ n]) simp_all
  with q show ?thesis by (intro exI[of _ ?q]) (simp add: ok_result_def)
qed

end
